theory Spec2Isabelle
  imports Complex_Main "HOL-Library.Log_Nat"
begin

section \<open>JavaScript values used by the actor\<close>

subsection \<open>Strings\<close>

text \<open>
  A JavaScript string is modelled as a \<^typ>\<open>string\<close>: a list of 8-bit characters, read
  as the code units below 256 (ASCII and Latin-1). An absent, \<^verbatim>\<open>undefined\<close> or
  \<^verbatim>\<open>null\<close> string is \<open>None\<close> of \<^typ>\<open>string option\<close>.
  \<^verbatim>\<open>toLowerCase\<close> maps A-Z and the Latin-1 capitals (0xC0-0xDE without 0xD7) to the
  letter 32 code units above, which sets bit 5 of the code unit.
\<close>

definition lower_char :: "char \<Rightarrow> char" where
  "lower_char c =
     (let n = (of_char c :: nat) in
      if (65 \<le> n \<and> n \<le> 90) \<or> (192 \<le> n \<and> n \<le> 222 \<and> n \<noteq> 215)
      then (case c of Char b0 b1 b2 b3 b4 b5 b6 b7 \<Rightarrow> Char b0 b1 b2 b3 b4 True b6 b7)
      else c)"

definition toLowerCase :: "string \<Rightarrow> string" where
  "toLowerCase s = map lower_char s"

text \<open>\<^verbatim>\<open>s.startsWith(t)\<close>, \<^verbatim>\<open>s.includes(t)\<close> and \<^verbatim>\<open>s.endsWith(t)\<close>.\<close>

fun startsWith :: "string \<Rightarrow> string \<Rightarrow> bool" where
  "startsWith s [] = True"
| "startsWith [] (p # ps) = False"
| "startsWith (c # cs) (p # ps) = (c = p \<and> startsWith cs ps)"

fun includes_str :: "string \<Rightarrow> string \<Rightarrow> bool" where
  "includes_str [] t = (t = [])"
| "includes_str (c # cs) t = (startsWith (c # cs) t \<or> includes_str cs t)"

definition endsWith :: "string \<Rightarrow> string \<Rightarrow> bool" where
  "endsWith s t = startsWith (rev s) (rev t)"

text \<open>
  The truthiness of a nullable string: \<^verbatim>\<open>null\<close>, \<^verbatim>\<open>undefined\<close> and the empty
  string are falsy. \<open>or_else v d\<close> is \<^verbatim>\<open>v || d\<close> for a string default.
\<close>

definition truthy :: "string option \<Rightarrow> bool" where
  "truthy v = (case v of None \<Rightarrow> False | Some s \<Rightarrow> s \<noteq> [])"

definition or_else :: "string option \<Rightarrow> string \<Rightarrow> string" where
  "or_else v d = (case v of None \<Rightarrow> d | Some s \<Rightarrow> if s = [] then d else s)"

text \<open>
  The character classes of the regular expressions. Within the 8-bit code units,
  \<^verbatim>\<open>\s\<close> is tab, line feed, vertical tab, form feed, carriage return, space and the
  no-break space 0xA0; the line terminators, which \<^verbatim>\<open>.\<close> does not match, are line feed
  and carriage return; \<^verbatim>\<open>\w\<close> is a letter A-Z or a-z, a digit or the underscore.
  \<^verbatim>\<open>trim\<close> removes the same characters as \<^verbatim>\<open>\s\<close> from both ends.
\<close>

definition isspace :: "char \<Rightarrow> bool" where
  "isspace c = ((of_char c :: nat) \<in> {9, 10, 11, 12, 13, 32, 160})"

definition is_line_terminator :: "char \<Rightarrow> bool" where
  "is_line_terminator c = ((of_char c :: nat) \<in> {10, 13})"

definition is_digit :: "char \<Rightarrow> bool" where
  "is_digit c = (let n = (of_char c :: nat) in 48 \<le> n \<and> n \<le> 57)"

definition is_word_char :: "char \<Rightarrow> bool" where
  "is_word_char c =
     (let n = (of_char c :: nat) in
      (65 \<le> n \<and> n \<le> 90) \<or> (97 \<le> n \<and> n \<le> 122) \<or> (48 \<le> n \<and> n \<le> 57) \<or> n = 95)"

definition trim :: "string \<Rightarrow> string" where
  "trim s = rev (dropWhile isspace (rev (dropWhile isspace s)))"

text \<open>
  \<open>istartsWith s p\<close>: the literal \<open>p\<close>, given in lower case, matches at the head of \<open>s\<close>
  under the flag \<^verbatim>\<open>i\<close>. Without the flag \<^verbatim>\<open>u\<close> no character outside ASCII is
  identified with an ASCII letter, so this is equality after lower-casing.
\<close>

definition istartsWith :: "string \<Rightarrow> string \<Rightarrow> bool" where
  "istartsWith s p = (length p \<le> length s \<and> toLowerCase (take (length p) s) = p)"

text \<open>\<^verbatim>\<open>s.replace(pat, rep)\<close> with a string pattern: the first occurrence only.\<close>

fun replace_first :: "string \<Rightarrow> string \<Rightarrow> string \<Rightarrow> string" where
  "replace_first [] pat rep = (if pat = [] then rep else [])"
| "replace_first (c # cs) pat rep =
     (if startsWith (c # cs) pat then rep @ drop (length pat) (c # cs)
      else c # replace_first cs pat rep)"

subsection \<open>Numbers\<close>

text \<open>
  A number is a double. The model keeps the doubles that the actor computes: \<^verbatim>\<open>NaN\<close>,
  the finite doubles that are not negative, each as the rational it denotes, and
  \<^verbatim>\<open>Infinity\<close>. \<open>to_double q\<close> is the double nearest to a rational \<open>q\<close> that is not
  negative, with ties to the even significand: \<open>binade q\<close> is the exponent \<open>e\<close> with
  \<open>2 ^ e \<le> q < 2 ^ (e + 1)\<close>, a significand has 53 bits, the doubles below \<open>2 ^ - 1022\<close>
  are the multiples of \<open>2 ^ - 1074\<close>, and a result of \<open>2 ^ 1024\<close> or more is \<^verbatim>\<open>Infinity\<close>.
\<close>

datatype jsnum = NaN | Num rat | Infinity

definition round_half_even :: "rat \<Rightarrow> int" where
  "round_half_even x =
     (let f = \<lfloor>x\<rfloor>; d = x - of_int f in
      if d < 1 / 2 then f
      else if 1 / 2 < d then f + 1
      else if even f then f else f + 1)"

definition binade :: "rat \<Rightarrow> int" where
  "binade q =
     (case quotient_of q of
        (a, b) \<Rightarrow> let d = bitlen a - bitlen b in if 2 powi d \<le> q then d else d - 1)"

definition to_double :: "rat \<Rightarrow> jsnum" where
  "to_double q =
     (if q = 0 then Num 0
      else
        let e = max (binade q) (- 1022);
            ulp = 2 powi (e - 52);
            r = of_int (round_half_even (q / ulp)) * ulp
        in if 2 ^ 1024 \<le> r then Infinity else Num r)"

text \<open>
  \<^verbatim>\<open>parseFloat\<close> reads the longest prefix that is a decimal literal and yields
  \<^verbatim>\<open>NaN\<close> when there is none. Its callers pass a string over the digits and the dot
  only (a capture of \<^verbatim>\<open>[0-9,.]+\<close> with the commas removed), and the model is that of
  \<^verbatim>\<open>parseFloat\<close> on such strings: digits, then optionally a dot and digits, at least
  one digit in all. The value is the double nearest to the decimal that was read.
\<close>

definition digits_val :: "string \<Rightarrow> nat" where
  "digits_val ds = foldl (\<lambda>acc c. 10 * acc + ((of_char c :: nat) - 48)) 0 ds"

definition parseFloat :: "string \<Rightarrow> jsnum" where
  "parseFloat s =
     (let ip = takeWhile is_digit s;
          rest = dropWhile is_digit s;
          fp = (case rest of [] \<Rightarrow> [] | c # r \<Rightarrow> if c = CHR ''.'' then takeWhile is_digit r else [])
      in if ip = [] \<and> fp = [] then NaN
         else to_double (of_nat (digits_val ip) + of_nat (digits_val fp) / 10 ^ length fp))"

text \<open>A nullable number is falsy when it is \<^verbatim>\<open>null\<close>, \<^verbatim>\<open>NaN\<close> or zero.\<close>

definition num_truthy :: "jsnum option \<Rightarrow> bool" where
  "num_truthy v =
     (case v of None \<Rightarrow> False | Some NaN \<Rightarrow> False | Some (Num r) \<Rightarrow> r \<noteq> 0 | Some Infinity \<Rightarrow> True)"

section \<open>Records of \<^verbatim>\<open>google_jobs_api.js\<close>\<close>

text \<open>
  A highlight block of the provider: a title and its text items (a block without
  \<^verbatim>\<open>items\<close> behaves as one with no items: both fail the guard
  \<^verbatim>\<open>highlight.items && highlight.items.length > 0\<close>).
\<close>

record highlight =
  hl_title :: string
  hl_items :: "string list"

text \<open>
  One element of \<^verbatim>\<open>data.jobs\<close>, the provider's record. \<open>raw_posted_at\<close> and
  \<open>raw_schedule\<close> are \<^verbatim>\<open>detected_extensions?.posted_at\<close> and
  \<^verbatim>\<open>detected_extensions?.schedule\<close>.
\<close>

record raw_result =
  raw_title :: "string option"
  raw_company_name :: "string option"
  raw_location :: "string option"
  raw_description :: "string option"
  raw_posted_at :: "string option"
  raw_schedule :: "string option"
  raw_job_highlights :: "highlight list option"
  raw_extensions :: "string list option"
  raw_apply_link :: "string option"
  raw_apply_links :: "string list option"
  raw_via :: "string option"

text \<open>The object that the callback of \<^verbatim>\<open>data.jobs.map\<close> in \<^verbatim>\<open>searchJobs\<close> returns.\<close>

record job =
  title :: string
  company :: string
  location :: string
  posted_at :: string
  schedule :: string
  description :: string
  highlights :: "highlight list"
  extensions :: "string list"
  apply_link :: "string option"
  apply_links :: "string list"
  source :: string

section \<open>\<^verbatim>\<open>searchJobs\<close>: normalising a provider record\<close>

text \<open>
  \<^verbatim>\<open>job.title.match(/^(.*?)\s+-\s+/)\<close>, returning capture 1. The expression is anchored
  at the start. The lazy \<^verbatim>\<open>.*?\<close> first tries the empty capture and grows by one
  character that is not a line terminator each time the rest fails. The rest,
  \<^verbatim>\<open>\s+-\s+\<close>, matches at a position exactly when a run of at least one whitespace
  character is followed by a hyphen and a whitespace character: giving back part of the
  greedy run leaves a whitespace character, not the hyphen, as the next one.
\<close>

definition sep_here :: "string \<Rightarrow> bool" where
  "sep_here s =
     (takeWhile isspace s \<noteq> [] \<and>
      (case dropWhile isspace s of
         [] \<Rightarrow> False
       | c # r \<Rightarrow> c = CHR ''-'' \<and> (case r of [] \<Rightarrow> False | d # _ \<Rightarrow> isspace d)))"

fun titleMatch :: "string \<Rightarrow> string option" where
  "titleMatch [] = None"
| "titleMatch (c # cs) =
     (if sep_here (c # cs) then Some []
      else if is_line_terminator c then None
      else map_option ((#) c) (titleMatch cs))"

text \<open>
  \<^verbatim>\<open>job.description.match(/(?:at|with|for|join)\s+([\w\s&']+?)(?:\sin|\.|\!|\,)/i)\<close>,
  returning capture 1. At one start position: a keyword (the four begin with different
  letters, so at most one applies), then the greedy \<^verbatim>\<open>\s+\<close>, which takes the whole
  whitespace run first and gives back one character at a time, down to one, while the rest
  fails (\<open>try_ws\<close>); then the lazy capture, which takes one character of its class and grows
  by one while no terminator follows (\<open>lazy_group\<close>, \<open>group_rest\<close>). The match is the
  one at the leftmost start position that has any.
\<close>

definition desc_kw :: "string \<Rightarrow> string option" where
  "desc_kw s =
     (if istartsWith s ''at'' then Some (drop 2 s)
      else if istartsWith s ''with'' then Some (drop 4 s)
      else if istartsWith s ''for'' then Some (drop 3 s)
      else if istartsWith s ''join'' then Some (drop 4 s)
      else None)"

definition in_group_class :: "char \<Rightarrow> bool" where
  "in_group_class c = (is_word_char c \<or> isspace c \<or> c = CHR ''&'' \<or> c = CHR 0x27)"

definition term_here :: "string \<Rightarrow> bool" where
  "term_here s =
     (case s of
        [] \<Rightarrow> False
      | c # r \<Rightarrow> (isspace c \<and> istartsWith r ''in'') \<or> c = CHR ''.'' \<or> c = CHR ''!'' \<or> c = CHR '','')"

fun group_rest :: "string \<Rightarrow> string option" where
  "group_rest [] = None"
| "group_rest (c # r) =
     (if term_here (c # r) then Some []
      else if in_group_class c then map_option ((#) c) (group_rest r)
      else None)"

definition lazy_group :: "string \<Rightarrow> string option" where
  "lazy_group s =
     (case s of
        [] \<Rightarrow> None
      | c # r \<Rightarrow> if in_group_class c then map_option ((#) c) (group_rest r) else None)"

fun try_ws :: "nat \<Rightarrow> string \<Rightarrow> string option" where
  "try_ws 0 s = None"
| "try_ws (Suc k) s =
     (case lazy_group (drop (Suc k) s) of
        Some g \<Rightarrow> Some g
      | None \<Rightarrow> try_ws k s)"

definition desc_match_here :: "string \<Rightarrow> string option" where
  "desc_match_here s =
     (case desc_kw s of
        None \<Rightarrow> None
      | Some r \<Rightarrow> try_ws (length (takeWhile isspace r)) r)"

fun descMatch :: "string \<Rightarrow> string option" where
  "descMatch [] = None"
| "descMatch (c # cs) =
     (case desc_match_here (c # cs) of
        Some g \<Rightarrow> Some g
      | None \<Rightarrow> descMatch cs)"

text \<open>
  The company name of a record (lines 61-79): the provider's field; else capture 1 of the
  title pattern when it is not empty; else the trimmed capture of the description pattern.
  The result may still be falsy.
\<close>

definition companyName_of :: "raw_result \<Rightarrow> string option" where
  "companyName_of r =
     (if truthy (raw_company_name r) then raw_company_name r
      else
        let titleM = (case raw_title r of
                        None \<Rightarrow> None
                      | Some t \<Rightarrow> if t = [] then None else titleMatch t);
            companyName = (if truthy titleM then titleM else raw_company_name r)
        in if truthy companyName then companyName
           else (case raw_description r of
                   None \<Rightarrow> companyName
                 | Some d \<Rightarrow>
                     if d = [] then companyName
                     else (case descMatch d of
                             Some g \<Rightarrow> Some (trim g)
                           | None \<Rightarrow> companyName)))"

text \<open>The callback of \<^verbatim>\<open>data.jobs.map\<close> (lines 59-94).\<close>

definition processedJob_of :: "raw_result \<Rightarrow> job" where
  "processedJob_of r =
     \<lparr> title = or_else (raw_title r) ''Unknown Title'',
       company = or_else (companyName_of r) ''Unknown Company'',
       location = or_else (raw_location r) ''Unknown Location'',
       posted_at = or_else (raw_posted_at r) ''Unknown'',
       schedule = or_else (raw_schedule r) ''Unknown'',
       description = or_else (raw_description r) ''No description available'',
       highlights = (case raw_job_highlights r of None \<Rightarrow> [] | Some hs \<Rightarrow> hs),
       extensions = (case raw_extensions r of None \<Rightarrow> [] | Some es \<Rightarrow> es),
       apply_link = (if truthy (raw_apply_link r) then raw_apply_link r else None),
       apply_links = (case raw_apply_links r of None \<Rightarrow> [] | Some ls \<Rightarrow> ls),
       source = (case raw_via r of
                   None \<Rightarrow> ''Unknown Source''
                 | Some v \<Rightarrow> if v = [] then ''Unknown Source'' else replace_first v ''via '' []) \<rparr>"

section \<open>Exclusion lists and \<^verbatim>\<open>shouldExcludeCompany\<close>\<close>

text \<open>
  Both constants are a \<^verbatim>\<open>Set\<close> built from the lower-cased names; a set is iterated in
  insertion order, and the loops return at the first hit, so a list in the same order
  gives the same result.
\<close>

definition EXCLUDED_COMPANIES :: "string list" where
  "EXCLUDED_COMPANIES = map toLowerCase
     [''Alliance Personnel'', ''August Point Advisors'', ''Bon Appetit'',
      ''Capital Restaurant Associates'', ''Chartwells'', ''Compass'', ''CORE Recruitment'',
      ''EHS Recruiting'', ''Empowered Hospitality'', ''Eurest'', ''Goodwin Recruiting'',
      ''HMG Plus - New York'', ''LSG Sky Chefs'', ''Major Food Group'', ''Measured HR'',
      ''One Haus'', ''Patrice & Associates'', ''Persone NYC'', ''Playbook Advisors'',
      ''Restaurant Associates'', ''Source One Hospitality'', ''Ten Five Hospitality'',
      ''The Goodkind Group'', ''Tuttle Hospitality'', ''Willow Tree Recruiting'',
      ''washington'', ''washington dc'', ''washington d.c.'', ''washington d c'']"

definition FAST_FOOD_RESTAURANTS :: "string list" where
  "FAST_FOOD_RESTAURANTS = map toLowerCase
     [''McDonald's'', ''Burger King'', ''Wendy's'', ''Subway'', ''Taco Bell'', ''Pizza Hut'',
      ''KFC'', ''Chick-fil-A'', ''Sonic Drive-In'', ''Domino's Pizza'', ''Dairy Queen'',
      ''Papa John's'', ''Arby's'', ''Little Caesars'', ''Popeyes'', ''Chipotle'', ''Hardee's'',
      ''Jimmy John's'', ''Zaxby's'', ''Five Guys'', ''Whataburger'', ''Culver's'',
      ''Steak 'n Shake'', ''Church's Chicken'', ''Raising Cane's'', ''Wingstop'', ''Qdoba'',
      ''Jersey Mike's Subs'', ''Firehouse Subs'', ''Moe's Southwest Grill'',
      ''McAlister's Deli'', ''Panda Express'', ''Panera Bread'', ''Bojangles'' @ [CHR 0x27],
      ''El Pollo Loco'', ''Del Taco'', ''In-N-Out Burger'', ''White Castle'', ''Checkers'',
      ''Rally's'', ''Shake Shack'', ''Smashburger'', ''Auntie Anne's'', ''Baskin-Robbins'',
      ''Boston Market'', ''Captain D's'', ''Carl's Jr.'', ''Charleys Philly Steaks'',
      ''Chuck E. Cheese's'', ''Cinnabon'', ''Cold Stone Creamery'', ''Cousins Subs'',
      ''Dunkin'' @ [CHR 0x27], ''Einstein Bros. Bagels'', ''Fazoli's'', ''Godfather's Pizza'',
      ''Golden Corral'', ''Hungry Howie's'', ''Jamba Juice'', ''Jason's Deli'', ''Jollibee'',
      ''Krispy Kreme'', ''Krystal'', ''Long John Silver's'', ''Marco's Pizza'',
      ''Nathan's Famous'', ''Noodles & Company'', ''Penn Station'', ''Port of Subs'',
      ''Potbelly Sandwich Shop'', ''Quiznos'', ''Round Table Pizza'', ''Roy Rogers'',
      ''Rubio's'', ''Schlotzsky's'', ''Smoothie King'', ''Starbucks'', ''Taco John's'',
      ''Tim Hortons'', ''Tropical Smoothie Cafe'', ''Wienerschnitzel'', ''Wing Street'',
      ''Zoup!'']"

datatype reason = excluded_company | fast_food

record verdict =
  isExcluded :: bool
  reason :: "reason option"
  match :: "string option"

text \<open>The test of one fast-food name against the lower-cased company (lines 202-205).\<close>

definition fastFoodHit :: "string \<Rightarrow> string \<Rightarrow> bool" where
  "fastFoodHit lowerCompany fastFood =
     (lowerCompany = fastFood \<or>
      includes_str lowerCompany ('' '' @ fastFood @ '' '') \<or>
      startsWith lowerCompany (fastFood @ '' '') \<or>
      endsWith lowerCompany ('' '' @ fastFood))"

definition shouldExcludeCompany :: "string \<Rightarrow> verdict" where
  "shouldExcludeCompany name =
     (if name = [] \<or> name = ''Unknown Company''
      then \<lparr> isExcluded = False, reason = None, match = None \<rparr>
      else
        let lowerCompany = toLowerCase name in
        case find (\<lambda>excluded. includes_str lowerCompany excluded) EXCLUDED_COMPANIES of
          Some excluded \<Rightarrow>
            \<lparr> isExcluded = True, reason = Some excluded_company, match = Some excluded \<rparr>
        | None \<Rightarrow>
            (case find (fastFoodHit lowerCompany) FAST_FOOD_RESTAURANTS of
               Some fastFood \<Rightarrow>
                 \<lparr> isExcluded = True, reason = Some fast_food, match = Some fastFood \<rparr>
             | None \<Rightarrow> \<lparr> isExcluded = False, reason = None, match = None \<rparr>))"

section \<open>Field extraction\<close>

subsection \<open>\<^verbatim>\<open>extractSalaryInfo\<close>\<close>

text \<open>
  The salary pattern
  \<^verbatim>\<open>/\$([0-9,.]+)(?:\s*-\s*\$([0-9,.]+))?(?:\s*(per|a|\/)\s*(hour|year|month|week|day))?/i\<close>.
  \<open>salaryMatch\<close> returns the captures 1, 2 and 4 of the leftmost match. At a dollar sign
  followed by an amount character the match always succeeds, since both groups after
  capture 1 are optional; so every greedy part keeps its longest run, an optional group is
  taken whenever it matches there, and the period group is tried after the range group,
  or after capture 1 when there is no range.
\<close>

definition is_amount :: "char \<Rightarrow> bool" where
  "is_amount c = (is_digit c \<or> c = CHR '','' \<or> c = CHR ''.'')"

definition range_part :: "string \<Rightarrow> (string \<times> string) option" where
  "range_part s =
     (case dropWhile isspace s of
        [] \<Rightarrow> None
      | c # b \<Rightarrow>
          if c \<noteq> CHR ''-'' then None
          else (case dropWhile isspace b of
                  [] \<Rightarrow> None
                | d # e \<Rightarrow>
                    if d \<noteq> CHR ''$'' \<or> takeWhile is_amount e = [] then None
                    else Some (takeWhile is_amount e, dropWhile is_amount e)))"

definition period_word :: "string \<Rightarrow> string option" where
  "period_word s =
     (if istartsWith s ''hour'' then Some (take 4 s)
      else if istartsWith s ''year'' then Some (take 4 s)
      else if istartsWith s ''month'' then Some (take 5 s)
      else if istartsWith s ''week'' then Some (take 4 s)
      else if istartsWith s ''day'' then Some (take 3 s)
      else None)"

definition period_part :: "string \<Rightarrow> string option" where
  "period_part s =
     (let a = dropWhile isspace s in
      if istartsWith a ''per'' then period_word (dropWhile isspace (drop 3 a))
      else if istartsWith a ''a'' then period_word (dropWhile isspace (drop 1 a))
      else if istartsWith a ''/'' then period_word (dropWhile isspace (drop 1 a))
      else None)"

definition salary_match_here :: "string \<Rightarrow> (string \<times> string option \<times> string option) option" where
  "salary_match_here s =
     (case s of
        [] \<Rightarrow> None
      | c # r \<Rightarrow>
          if c \<noteq> CHR ''$'' \<or> takeWhile is_amount r = [] then None
          else
            let g1 = takeWhile is_amount r; r1 = dropWhile is_amount r in
            (case range_part r1 of
               Some (g2, r2) \<Rightarrow> Some (g1, Some g2, period_part r2)
             | None \<Rightarrow> Some (g1, None, period_part r1)))"

fun salaryMatch :: "string \<Rightarrow> (string \<times> string option \<times> string option) option" where
  "salaryMatch [] = None"
| "salaryMatch (c # cs) =
     (case salary_match_here (c # cs) of
        Some m \<Rightarrow> Some m
      | None \<Rightarrow> salaryMatch cs)"

record salary_info =
  sal_min :: "jsnum option"
  sal_max :: "jsnum option"
  sal_currency :: string
  sal_period :: string

text \<open>\<^verbatim>\<open>x.replace(/,/g, '')\<close>.\<close>

definition strip_commas :: "string \<Rightarrow> string" where
  "strip_commas s = filter (\<lambda>c. c \<noteq> CHR '','') s"

text \<open>
  The assignments after a match (lines 390-400 and 413-423): the period is only
  assigned when capture 4 is there; otherwise it keeps the value it had.
\<close>

definition period_of :: "string \<Rightarrow> string \<Rightarrow> string" where
  "period_of old g4 =
     (let period = toLowerCase g4 in
      if period = ''hour'' then ''hourly''
      else if period = ''year'' then ''yearly''
      else if period = ''month'' then ''monthly''
      else if period = ''week'' then ''weekly''
      else if period = ''day'' then ''daily''
      else old)"

definition apply_match :: "salary_info \<Rightarrow> string \<times> string option \<times> string option \<Rightarrow> salary_info" where
  "apply_match si m =
     (case m of (g1, g2, g4) \<Rightarrow>
        let mn = Some (parseFloat (strip_commas g1));
            mx = (if truthy g2 then Some (parseFloat (strip_commas (or_else g2 []))) else mn)
        in si \<lparr> sal_min := mn, sal_max := mx,
                sal_period := (if truthy g4 then period_of (sal_period si) (or_else g4 [])
                               else sal_period si) \<rparr>)"

text \<open>The loop over the items of one block: \<^verbatim>\<open>break\<close> leaves it at the first match.\<close>

fun scan_items :: "salary_info \<Rightarrow> string list \<Rightarrow> salary_info" where
  "scan_items si [] = si"
| "scan_items si (item # items) =
     (case salaryMatch item of
        Some m \<Rightarrow> apply_match si m
      | None \<Rightarrow> scan_items si items)"

text \<open>The loop over the blocks: it has no \<^verbatim>\<open>break\<close> and visits every block.\<close>

fun scan_highlights :: "salary_info \<Rightarrow> highlight list \<Rightarrow> salary_info" where
  "scan_highlights si [] = si"
| "scan_highlights si (h # hs) =
     scan_highlights
       (if hl_title h = ''Compensation'' \<and> hl_items h \<noteq> [] then scan_items si (hl_items h) else si)
       hs"

definition extractSalaryInfo :: "job \<Rightarrow> salary_info" where
  "extractSalaryInfo j =
     (let si = scan_highlights
                 \<lparr> sal_min = None, sal_max = None, sal_currency = ''USD'', sal_period = ''yearly'' \<rparr>
                 (highlights j)
      in if \<not> num_truthy (sal_min si) \<and> description j \<noteq> []
         then (case salaryMatch (description j) of
                 Some m \<Rightarrow> apply_match si m
               | None \<Rightarrow> si)
         else si)"

subsection \<open>\<^verbatim>\<open>extractSkills\<close>\<close>

definition commonCulinarySkills :: "string list" where
  "commonCulinarySkills =
     [''cooking'', ''baking'', ''grilling'', ''saut'' @ [CHR 0xE9] @ ''ing'', ''knife skills'',
      ''food preparation'', ''menu planning'', ''recipe development'',
      ''food safety'', ''sanitation'', ''inventory management'', ''kitchen management'',
      ''plating'', ''garnishing'', ''culinary arts'', ''pastry'', ''butchery'',
      ''sous vide'', ''food presentation'', ''catering'', ''banquet'']"

definition skills_in :: "string list \<Rightarrow> string \<Rightarrow> string list" where
  "skills_in skills text =
     foldl (\<lambda>acc skill.
              if includes_str (toLowerCase text) (toLowerCase skill) \<and> skill \<notin> set acc
              then acc @ [skill] else acc)
       skills commonCulinarySkills"

definition extractSkills :: "job \<Rightarrow> string list" where
  "extractSkills j =
     (let skills = (if description j \<noteq> []
                    then filter (\<lambda>skill. includes_str (toLowerCase (description j)) (toLowerCase skill))
                           commonCulinarySkills
                    else [])
      in foldl (\<lambda>acc h.
                  if hl_title h = ''Qualifications'' \<and> hl_items h \<noteq> []
                  then foldl skills_in acc (hl_items h) else acc)
           skills (highlights j))"

subsection \<open>\<^verbatim>\<open>calculateExperienceLevel\<close>\<close>

definition calculateExperienceLevel :: "job \<Rightarrow> string" where
  "calculateExperienceLevel j =
     (let lowerTitle = toLowerCase (title j) in
      if includes_str lowerTitle ''executive chef'' \<or>
         includes_str lowerTitle ''head chef'' \<or>
         includes_str lowerTitle ''chef de cuisine'' \<or>
         includes_str lowerTitle ''culinary director''
      then ''executive''
      else if includes_str lowerTitle ''senior'' \<or>
              includes_str lowerTitle ''sr.'' \<or>
              includes_str lowerTitle ''lead'' \<or>
              includes_str lowerTitle ''sous chef''
      then ''senior''
      else if includes_str lowerTitle ''junior'' \<or>
              includes_str lowerTitle ''jr.'' \<or>
              includes_str lowerTitle ''entry'' \<or>
              includes_str lowerTitle ''trainee'' \<or>
              includes_str lowerTitle ''apprentice'' \<or>
              includes_str lowerTitle ''commis''
      then ''entry''
      else ''mid'')"

section \<open>Collaborators and effects\<close>

text \<open>
  The HTTP client and the modules \<^verbatim>\<open>search_api.js\<close> and \<^verbatim>\<open>hunter_api.js\<close> are
  collaborators of the pipeline. They are parameters of the model: each network call maps
  the state of the outside world \<open>'w\<close> and its arguments to an outcome and a new world, and
  an outcome \<open>Inl e\<close> is an exception thrown with message \<open>e\<close>.
  \<^verbatim>\<open>getDomainFromUrl\<close> is called without \<^verbatim>\<open>await\<close> and is a function of the URL.
  \<open>isoNow\<close> is \<^verbatim>\<open>new Date().toISOString()\<close>. The timers (\<^verbatim>\<open>setTimeout\<close>) only delay
  and are left out.
\<close>

record request =
  req_q :: string
  req_location :: "string option"
  req_next_page_token :: "string option"

text \<open>
  What \<^verbatim>\<open>fetch\<close> and \<^verbatim>\<open>response.json()\<close> give: an exception, a response that is not
  \<^verbatim>\<open>ok\<close>, or the fields \<^verbatim>\<open>data.jobs\<close> and \<^verbatim>\<open>data.pagination?.next_page_token\<close>.
\<close>

datatype response =
    Failed string
  | NotOk
  | Data "raw_result list option" "string option"

record contact =
  email :: string
  firstName :: "string option"
  lastName :: "string option"
  position :: "string option"
  confidence :: "int option"

record 'w env =
  SEARCH_API_KEY :: "string option"
  fetch :: "'w \<Rightarrow> request \<Rightarrow> response \<times> 'w"
  getWebsiteUrlFromSearchAPI :: "'w \<Rightarrow> string \<Rightarrow> (string + string option) \<times> 'w"
  getDomainFromUrl :: "string \<Rightarrow> string + string option"
  findEmailsWithHunter :: "'w \<Rightarrow> string \<Rightarrow> string \<Rightarrow> (string + contact list) \<times> 'w"
  findEmailsByCompanyName :: "'w \<Rightarrow> string \<Rightarrow> (string + contact list) \<times> 'w"
  isoNow :: "'w \<Rightarrow> string"

text \<open>
  The calls made to the collaborators are recorded in call order, next to the world, so
  that what was called, how often and in which order can be stated.
\<close>

datatype call =
    Search request
  | WebsiteLookup string
  | ByDomain string string
  | ByCompanyName string
  | PushData nat

record 'w st =
  world :: 'w
  calls :: "call list"

definition do_fetch :: "'w env \<Rightarrow> 'w st \<Rightarrow> request \<Rightarrow> response \<times> 'w st" where
  "do_fetch e s rq =
     (case fetch e (world s) rq of
        (r, w) \<Rightarrow> (r, \<lparr> world = w, calls = calls s @ [Search rq] \<rparr>))"

definition do_website :: "'w env \<Rightarrow> 'w st \<Rightarrow> string \<Rightarrow> (string + string option) \<times> 'w st" where
  "do_website e s c =
     (case getWebsiteUrlFromSearchAPI e (world s) c of
        (r, w) \<Rightarrow> (r, \<lparr> world = w, calls = calls s @ [WebsiteLookup c] \<rparr>))"

definition do_byDomain :: "'w env \<Rightarrow> 'w st \<Rightarrow> string \<Rightarrow> string \<Rightarrow> (string + contact list) \<times> 'w st" where
  "do_byDomain e s d c =
     (case findEmailsWithHunter e (world s) d c of
        (r, w) \<Rightarrow> (r, \<lparr> world = w, calls = calls s @ [ByDomain d c] \<rparr>))"

definition do_byCompanyName :: "'w env \<Rightarrow> 'w st \<Rightarrow> string \<Rightarrow> (string + contact list) \<times> 'w st" where
  "do_byCompanyName e s c =
     (case findEmailsByCompanyName e (world s) c of
        (r, w) \<Rightarrow> (r, \<lparr> world = w, calls = calls s @ [ByCompanyName c] \<rparr>))"

section \<open>\<^verbatim>\<open>searchJobs\<close> and \<^verbatim>\<open>searchAllJobs\<close>\<close>

record page =
  jobs :: "job list"
  hasMore :: bool
  nextPageToken :: "string option"

definition no_jobs :: page where
  "no_jobs = \<lparr> jobs = [], hasMore = False, nextPageToken = None \<rparr>"

text \<open>
  \<^verbatim>\<open>searchJobs\<close> (lines 17-106). The URL is kept as the request record: the location and
  the token are only sent when truthy. Every failure gives the page without jobs.
\<close>

definition searchJobs :: "'w env \<Rightarrow> 'w st \<Rightarrow> string \<Rightarrow> string \<Rightarrow> string option \<Rightarrow> page \<times> 'w st" where
  "searchJobs e s query loc token =
     (if \<not> truthy (SEARCH_API_KEY e) then (no_jobs, s)
      else
        case do_fetch e s
               \<lparr> req_q = query,
                 req_location = (if loc = [] then None else Some loc),
                 req_next_page_token = (if truthy token then token else None) \<rparr> of
          (Failed msg, s') \<Rightarrow> (no_jobs, s')
        | (NotOk, s') \<Rightarrow> (no_jobs, s')
        | (Data None tok, s') \<Rightarrow> (no_jobs, s')
        | (Data (Some []) tok, s') \<Rightarrow> (no_jobs, s')
        | (Data (Some (r # rs)) tok, s') \<Rightarrow>
            (\<lparr> jobs = map processedJob_of (r # rs),
               hasMore = truthy tok,
               nextPageToken = (if truthy tok then tok else None) \<rparr>, s'))"

text \<open>
  \<^verbatim>\<open>searchAllJobs\<close> (lines 115-142): the \<^verbatim>\<open>do ... while\<close> loop, one call of
  \<open>searchAllJobs_loop\<close> for each pass. The source returns \<^verbatim>\<open>allJobs\<close> and logs
  \<^verbatim>\<open>currentPage\<close>. The model returns both, and with them the results of the calls of
  \<^verbatim>\<open>searchJobs\<close> in call order (\<open>pages\<close>), which the source does not keep: they serve
  to state what was fetched.
\<close>

record fetched =
  allJobs :: "job list"
  currentPage :: nat
  pages :: "page list"

function searchAllJobs_loop ::
  "'w env \<Rightarrow> string \<Rightarrow> string \<Rightarrow> int \<Rightarrow> 'w st \<Rightarrow> string option \<Rightarrow> fetched \<Rightarrow> fetched \<times> 'w st" where
  "searchAllJobs_loop e query loc maxPages s token acc =
     (case searchJobs e s query loc token of
        (result, s') \<Rightarrow>
          if jobs result = []
          then (acc \<lparr> currentPage := Suc (currentPage acc), pages := pages acc @ [result] \<rparr>, s')
          else if truthy (nextPageToken result) \<and> int (Suc (currentPage acc)) < maxPages
          then searchAllJobs_loop e query loc maxPages s' (nextPageToken result)
                 \<lparr> allJobs = allJobs acc @ jobs result,
                   currentPage = Suc (currentPage acc),
                   pages = pages acc @ [result] \<rparr>
          else (\<lparr> allJobs = allJobs acc @ jobs result,
                   currentPage = Suc (currentPage acc),
                   pages = pages acc @ [result] \<rparr>, s'))"
  by pat_completeness auto
termination
  by (relation "measure (\<lambda>(e, query, loc, maxPages, s, token, acc). nat (maxPages - int (currentPage acc)))")
     auto

definition searchAllJobs :: "'w env \<Rightarrow> 'w st \<Rightarrow> string \<Rightarrow> string \<Rightarrow> int \<Rightarrow> fetched \<times> 'w st" where
  "searchAllJobs e s query loc maxPages =
     searchAllJobs_loop e query loc maxPages s None \<lparr> allJobs = [], currentPage = 0, pages = [] \<rparr>"

section \<open>\<^verbatim>\<open>processJobsForDatabase\<close>\<close>

record processedJob =
  pj_title :: string
  pj_company :: string
  pj_location :: string
  pj_posted_at :: string
  pj_schedule :: string
  pj_description :: string
  pj_salary_min :: "jsnum option"
  pj_salary_max :: "jsnum option"
  pj_salary_currency :: string
  pj_salary_period :: string
  pj_skills :: "string list"
  pj_experience_level :: string
  pj_apply_link :: "string option"
  pj_source :: string
  pj_scraped_at :: string
  pj_company_website :: "string option"
  pj_company_domain :: "string option"
  pj_emails :: "contact list"

text \<open>The object built at lines 248-276, before enrichment.\<close>

definition newProcessedJob :: "job \<Rightarrow> string \<Rightarrow> processedJob" where
  "newProcessedJob j scraped =
     (let salaryInfo = extractSalaryInfo j;
          skills = extractSkills j;
          experienceLevel = calculateExperienceLevel j
      in \<lparr> pj_title = title j,
           pj_company = company j,
           pj_location = location j,
           pj_posted_at = posted_at j,
           pj_schedule = schedule j,
           pj_description = description j,
           pj_salary_min = sal_min salaryInfo,
           pj_salary_max = sal_max salaryInfo,
           pj_salary_currency = sal_currency salaryInfo,
           pj_salary_period = sal_period salaryInfo,
           pj_skills = skills,
           pj_experience_level = experienceLevel,
           pj_apply_link = apply_link j,
           pj_source = source j,
           pj_scraped_at = scraped,
           pj_company_website = None,
           pj_company_domain = None,
           pj_emails = [] \<rparr>)"

text \<open>
  The fallback search by company name, which the source writes out three times (lines
  309-322, 327-333 and 338-346): the e-mails are stored when there are any. An exception
  leaves the job as it is (the \<^verbatim>\<open>catch\<close> of line 353).
\<close>

definition companyNameSearch :: "'w env \<Rightarrow> job \<Rightarrow> processedJob \<Rightarrow> 'w st \<Rightarrow> processedJob \<times> 'w st" where
  "companyNameSearch e j pj s =
     (case do_byCompanyName e s (company j) of
        (Inl err, s') \<Rightarrow> (pj, s')
      | (Inr companyEmails, s') \<Rightarrow>
          (if companyEmails \<noteq> [] then pj \<lparr> pj_emails := companyEmails \<rparr> else pj, s'))"

text \<open>
  The body of \<^verbatim>\<open>if (includeHunterData)\<close> (lines 279-359). A field assigned before an
  exception keeps its value.
\<close>

definition enrich :: "'w env \<Rightarrow> job \<Rightarrow> processedJob \<Rightarrow> 'w st \<Rightarrow> processedJob \<times> 'w st" where
  "enrich e j pj s =
     (case do_website e s (company j) of
        (Inl err, s1) \<Rightarrow> (pj, s1)
      | (Inr companyUrl, s1) \<Rightarrow>
          if truthy companyUrl
          then
            (case getDomainFromUrl e (or_else companyUrl []) of
               Inl err \<Rightarrow> (pj \<lparr> pj_company_website := companyUrl \<rparr>, s1)
             | Inr domain \<Rightarrow>
                 if truthy domain
                 then
                   (case do_byDomain e s1 (or_else domain []) (company j) of
                      (Inl err, s2) \<Rightarrow>
                        (pj \<lparr> pj_company_website := companyUrl, pj_company_domain := domain \<rparr>, s2)
                    | (Inr emails, s2) \<Rightarrow>
                        if emails \<noteq> []
                        then (pj \<lparr> pj_company_website := companyUrl,
                                    pj_company_domain := domain,
                                    pj_emails := emails \<rparr>, s2)
                        else companyNameSearch e j
                               (pj \<lparr> pj_company_website := companyUrl, pj_company_domain := domain \<rparr>)
                               s2)
                 else companyNameSearch e j (pj \<lparr> pj_company_website := companyUrl \<rparr>) s1)
          else companyNameSearch e j pj s1)"

record processed =
  processedJobs :: "processedJob list"
  excludedCount :: nat
  excludedByCompany :: nat
  excludedByFastFood :: nat

text \<open>
  One pass of the loop over the jobs (lines 229-362), and the loop. The source returns
  \<^verbatim>\<open>processedJobs\<close> and logs the three counters.
\<close>

definition processJob :: "'w env \<Rightarrow> bool \<Rightarrow> job \<Rightarrow> processed \<times> 'w st \<Rightarrow> processed \<times> 'w st" where
  "processJob e includeHunterData j acc =
     (case acc of (out, s) \<Rightarrow>
        let exclusionCheck = shouldExcludeCompany (company j) in
        if isExcluded exclusionCheck
        then (out \<lparr> excludedCount := Suc (excludedCount out),
                    excludedByCompany :=
                      (if reason exclusionCheck = Some excluded_company
                       then Suc (excludedByCompany out) else excludedByCompany out),
                    excludedByFastFood :=
                      (if reason exclusionCheck = Some fast_food
                       then Suc (excludedByFastFood out) else excludedByFastFood out) \<rparr>, s)
        else
          (case (if includeHunterData
                 then enrich e j (newProcessedJob j (isoNow e (world s))) s
                 else (newProcessedJob j (isoNow e (world s)), s)) of
             (pj, s') \<Rightarrow> (out \<lparr> processedJobs := processedJobs out @ [pj] \<rparr>, s')))"

definition processJobsForDatabase :: "'w env \<Rightarrow> 'w st \<Rightarrow> job list \<Rightarrow> bool \<Rightarrow> processed \<times> 'w st" where
  "processJobsForDatabase e s js includeHunterData =
     foldl (\<lambda>acc j. processJob e includeHunterData j acc)
       (\<lparr> processedJobs = [], excludedCount = 0, excludedByCompany = 0, excludedByFastFood = 0 \<rparr>, s)
       js"

section \<open>\<^verbatim>\<open>main.js\<close>: the input and one query\<close>

record input =
  queries :: "string list"
  maxPagesPerQuery :: int
  in_location :: string
  saveToDataset :: bool
  pushToDatabase :: bool
  databaseUrl :: string
  databaseTable :: string
  deduplicateJobs :: bool
  fullTimeOnly :: bool
  excludeFastFood :: bool
  excludeRecruiters :: bool
  includeHunterData :: bool

text \<open>The filter of lines 393-396.\<close>

definition isFullTime :: "job \<Rightarrow> bool" where
  "isFullTime j =
     (schedule j = ''Full-time'' \<or> (\<exists>ext \<in> set (extensions j). includes_str ext ''Full-time''))"

text \<open>
  The body of the loop over the queries, up to the push to the dataset (lines 373-422),
  with \<^verbatim>\<open>testMode = false\<close> and \<^verbatim>\<open>forceHunterData = true\<close> as the source fixes them.
  The result is \<^verbatim>\<open>processedJobs\<close>, the list that the database phase (lines 484-512)
  is then given; \<open>None\<close> is the \<^verbatim>\<open>continue\<close> of line 384.
\<close>

definition mainQuery :: "'w env \<Rightarrow> input \<Rightarrow> 'w st \<Rightarrow> string \<Rightarrow> processed option \<times> 'w st" where
  "mainQuery e inp s query =
     (case searchAllJobs e s query (in_location inp) (maxPagesPerQuery inp) of
        (found, s1) \<Rightarrow>
          if allJobs found = [] then (None, s1)
          else
            let filteredJobs = (if fullTimeOnly inp then filter isFullTime (allJobs found)
                                else allJobs found)
            in (case processJobsForDatabase e s1 filteredJobs True of
                  (out, s2) \<Rightarrow>
                    (Some out,
                     if saveToDataset inp
                     then s2 \<lparr> calls := calls s2 @ [PushData (length (processedJobs out))] \<rparr>
                     else s2)))"

section \<open>The PostgreSQL session\<close>

text \<open>
  The statements that \<^verbatim>\<open>database.js\<close> and \<^verbatim>\<open>main.js\<close> send are SQL text, and their
  meaning is PostgreSQL's. The model keeps what these statements depend on.
  \<^item> Every parameter of a statement is sent as text, a number as JavaScript writes it,
    and the server reads it for the type of its column before it builds a row. A text
    that holds the character of code 0 is refused. For a \<^verbatim>\<open>TIMESTAMP WITH TIME ZONE\<close>
    column the text is read by the date and time input of the server, which knows many
    spellings and depends on the settings of the server: it is the parameter
    \<open>timestamptz_in\<close>. \<^verbatim>\<open>NUMERIC\<close> reads every finite number and \<^verbatim>\<open>NaN\<close>, and
    \<^verbatim>\<open>Infinity\<close> on the servers that have it (\<open>numeric_infinity\<close>: PostgreSQL 14 and
    later); since the text that JavaScript writes for a number determines the number, a
    \<^verbatim>\<open>NUMERIC\<close> column is kept as the number that was sent. An \<^verbatim>\<open>INTEGER\<close> has 32
    bits.
  \<^item> A value longer than \<open>n\<close> characters for a \<^verbatim>\<open>VARCHAR(n)\<close> column is an error,
    unless the characters beyond \<open>n\<close> are all spaces: then it is cut to \<open>n\<close>. The length
    of a parameter is checked with the parameter, before a row is built.
  \<^item> A statement refused for one of its parameters (an error of class 22, data exception)
    has built no row: it changes no table and takes no value from a sequence.
  \<^item> A \<^verbatim>\<open>SERIAL\<close> column takes the next value of its sequence when the row is built. An
    \<^verbatim>\<open>INSERT\<close> takes one also when it ends in an update, or in an error raised after the
    row was built (a key that is taken, an index row that is too large, a foreign key),
    and a rollback does not give it back. The sequence ends at \<open>serial_max\<close>, the largest
    \<^verbatim>\<open>INTEGER\<close>: after it the statement is refused with an error of class 22.
  \<^item> A new row whose \<^verbatim>\<open>PRIMARY KEY\<close> is that of a row of the table is refused (error
    23505).
  \<^item> The row of a B-tree index has a largest size, and a new value of a \<^verbatim>\<open>TEXT\<close> column
    under a \<^verbatim>\<open>UNIQUE\<close> constraint whose index row would be larger is refused (error
    54000). The size is measured after compression, so which values fit is the parameter
    \<open>index_row_ok\<close>. The values of a \<^verbatim>\<open>VARCHAR(255)\<close> column always fit.
  \<^item> A \<^verbatim>\<open>UNIQUE\<close> constraint does not compare \<^verbatim>\<open>NULL\<close>s: two rows whose column is
    \<^verbatim>\<open>NULL\<close> never conflict.
  \<^item> After \<^verbatim>\<open>BEGIN\<close>, a statement that raises an error aborts the transaction: every
    later statement is refused (error 25P02) until the transaction ends, and
    \<^verbatim>\<open>COMMIT\<close> then rolls back, without raising an error itself.
  \<^item> \<^verbatim>\<open>CURRENT_TIMESTAMP\<close> is the time at which the transaction started.
  Time stamps are kept as text. Losing the connection is not modelled: \<^verbatim>\<open>pool.connect()\<close>,
  \<^verbatim>\<open>BEGIN\<close> and \<^verbatim>\<open>COMMIT\<close> succeed, and so the \<^verbatim>\<open>ROLLBACK\<close> of the outer
  \<^verbatim>\<open>catch\<close>, which only their failure reaches, has no branch. Nor is the largest size
  of a message, of about a gigabyte.
\<close>

record server =
  timestamptz_in :: "string \<Rightarrow> bool"
  numeric_infinity :: bool
  index_row_ok :: "string \<Rightarrow> bool"

datatype pg_error =
    data_exception
  | unique_violation
  | foreign_key_violation
  | program_limit_exceeded
  | in_failed_sql_transaction

definition serial_max :: int where
  "serial_max = 2147483647"

definition text_ok :: "string \<Rightarrow> bool" where
  "text_ok s = (\<forall>c \<in> set s. of_char c \<noteq> (0 :: nat))"

definition text_opt_ok :: "string option \<Rightarrow> bool" where
  "text_opt_ok v = (case v of None \<Rightarrow> True | Some s \<Rightarrow> text_ok s)"

definition numeric_ok :: "server \<Rightarrow> jsnum option \<Rightarrow> bool" where
  "numeric_ok srv v = (case v of Some Infinity \<Rightarrow> numeric_infinity srv | _ \<Rightarrow> True)"

definition fits :: "nat \<Rightarrow> string \<Rightarrow> bool" where
  "fits n s = (length s \<le> n \<or> (\<forall>c \<in> set (drop n s). c = CHR '' ''))"

definition fits_opt :: "nat \<Rightarrow> string option \<Rightarrow> bool" where
  "fits_opt n v = (case v of None \<Rightarrow> True | Some s \<Rightarrow> fits n s)"

definition stored :: "nat \<Rightarrow> string \<Rightarrow> string" where
  "stored n s = take n s"

datatype txn_status = Idle | InTransaction | Aborted

section \<open>\<^verbatim>\<open>database.js\<close>\<close>

text \<open>The columns of \<^verbatim>\<open>culinary_jobs_google\<close> that the \<^verbatim>\<open>INSERT\<close> of lines 154-198 fills.\<close>

record job_values =
  v_title :: string
  v_company :: string
  v_location :: string
  v_posted_at :: string
  v_schedule :: string
  v_description :: string
  v_salary_min :: "jsnum option"
  v_salary_max :: "jsnum option"
  v_salary_currency :: string
  v_salary_period :: string
  v_skills :: "string list"
  v_experience_level :: string
  v_apply_link :: "string option"
  v_source :: string
  v_scraped_at :: string
  v_company_website :: "string option"
  v_company_domain :: "string option"

record job_row =
  row_id :: nat
  vals :: job_values
  date_added :: string
  last_updated :: string

record contact_row =
  c_id :: nat
  c_job_id :: nat
  c_email :: string
  c_first_name :: "string option"
  c_last_name :: "string option"
  c_position :: "string option"
  c_confidence :: "int option"
  c_company :: string
  c_domain :: "string option"
  c_date_added :: string

record db =
  jobs_tbl :: "job_row list"
  contacts_tbl :: "contact_row list"
  jobs_seq :: nat
  contacts_seq :: nat

text \<open>
  A client in a session: the database as the session sees it, the state of the
  transaction, the two tables as they were at \<^verbatim>\<open>BEGIN\<close>, and the time of \<^verbatim>\<open>BEGIN\<close>.
\<close>

record client =
  cdb :: db
  status :: txn_status
  saved :: "job_row list \<times> contact_row list"
  txn_start :: string

definition begin_txn :: "db \<Rightarrow> string \<Rightarrow> client" where
  "begin_txn d now =
     \<lparr> cdb = d, status = InTransaction, saved = (jobs_tbl d, contacts_tbl d), txn_start = now \<rparr>"

definition failed :: "client \<Rightarrow> client" where
  "failed c = (if status c = InTransaction then c \<lparr> status := Aborted \<rparr> else c)"

definition commit_txn :: "client \<Rightarrow> client" where
  "commit_txn c =
     (if status c = Aborted
      then c \<lparr> cdb := (cdb c) \<lparr> jobs_tbl := fst (saved c), contacts_tbl := snd (saved c) \<rparr>,
               status := Idle \<rparr>
      else c \<lparr> status := Idle \<rparr>)"

text \<open>
  The seventeen parameters of the job statement (lines 181-197) against the columns of
  lines 74-91: each is read as text, \<^verbatim>\<open>salary_min\<close> and \<^verbatim>\<open>salary_max\<close> as
  \<^verbatim>\<open>NUMERIC\<close>, \<^verbatim>\<open>skills\<close> as an array of texts, \<^verbatim>\<open>scraped_at\<close> as a time stamp, and
  ten of them are stored into a \<^verbatim>\<open>VARCHAR\<close> column. \<open>job_fits\<close> holds when the server
  reads them all; \<open>job_params\<close> is what the columns then store.
\<close>

definition job_fits :: "server \<Rightarrow> processedJob \<Rightarrow> bool" where
  "job_fits srv pj =
     (text_ok (pj_title pj) \<and> text_ok (pj_company pj) \<and> text_ok (pj_location pj) \<and>
      text_ok (pj_posted_at pj) \<and> text_ok (pj_schedule pj) \<and> text_ok (pj_description pj) \<and>
      numeric_ok srv (pj_salary_min pj) \<and> numeric_ok srv (pj_salary_max pj) \<and>
      text_ok (pj_salary_currency pj) \<and> text_ok (pj_salary_period pj) \<and>
      (\<forall>skill \<in> set (pj_skills pj). text_ok skill) \<and>
      text_ok (pj_experience_level pj) \<and> text_opt_ok (pj_apply_link pj) \<and>
      text_ok (pj_source pj) \<and>
      text_ok (pj_scraped_at pj) \<and> timestamptz_in srv (pj_scraped_at pj) \<and>
      text_opt_ok (pj_company_website pj) \<and> text_opt_ok (pj_company_domain pj) \<and>
      fits 255 (pj_title pj) \<and> fits 255 (pj_company pj) \<and> fits 255 (pj_location pj) \<and>
      fits 255 (pj_posted_at pj) \<and> fits 255 (pj_schedule pj) \<and>
      fits 10 (pj_salary_currency pj) \<and> fits 20 (pj_salary_period pj) \<and>
      fits 50 (pj_experience_level pj) \<and> fits 255 (pj_source pj) \<and>
      fits_opt 255 (pj_company_domain pj))"

definition job_params :: "processedJob \<Rightarrow> job_values" where
  "job_params pj =
     \<lparr> v_title = stored 255 (pj_title pj),
       v_company = stored 255 (pj_company pj),
       v_location = stored 255 (pj_location pj),
       v_posted_at = stored 255 (pj_posted_at pj),
       v_schedule = stored 255 (pj_schedule pj),
       v_description = pj_description pj,
       v_salary_min = pj_salary_min pj,
       v_salary_max = pj_salary_max pj,
       v_salary_currency = stored 10 (pj_salary_currency pj),
       v_salary_period = stored 20 (pj_salary_period pj),
       v_skills = pj_skills pj,
       v_experience_level = stored 50 (pj_experience_level pj),
       v_apply_link = pj_apply_link pj,
       v_source = stored 255 (pj_source pj),
       v_scraped_at = pj_scraped_at pj,
       v_company_website = pj_company_website pj,
       v_company_domain = map_option (stored 255) (pj_company_domain pj) \<rparr>"

text \<open>
  \<^verbatim>\<open>ON CONFLICT (apply_link)\<close>: the row that holds the same link, when the link is not
  \<^verbatim>\<open>NULL\<close>.
\<close>

definition conflict_row :: "job_row list \<Rightarrow> string option \<Rightarrow> job_row option" where
  "conflict_row tbl link =
     (case link of
        None \<Rightarrow> None
      | Some a \<Rightarrow> find (\<lambda>r. v_apply_link (vals r) = Some a) tbl)"

text \<open>
  \<^verbatim>\<open>DO UPDATE SET\<close> (lines 161-178): every column of the statement but
  \<^verbatim>\<open>apply_link\<close>, and \<^verbatim>\<open>last_updated\<close>; \<^verbatim>\<open>id\<close> and \<^verbatim>\<open>date_added\<close> stay.
\<close>

definition update_job :: "job_values \<Rightarrow> string \<Rightarrow> job_row \<Rightarrow> job_row" where
  "update_job v now r =
     r \<lparr> vals := v \<lparr> v_apply_link := v_apply_link (vals r) \<rparr>, last_updated := now \<rparr>"

text \<open>
  The link of a new row enters the index of \<^verbatim>\<open>unique_job_apply_link\<close> (line 95); a
  row that is updated keeps its link.
\<close>

definition link_fits :: "server \<Rightarrow> processedJob \<Rightarrow> bool" where
  "link_fits srv pj = (case pj_apply_link pj of None \<Rightarrow> True | Some a \<Rightarrow> index_row_ok srv a)"

text \<open>The job statement; its result is the \<^verbatim>\<open>id\<close> of \<^verbatim>\<open>RETURNING id\<close>.\<close>

definition insert_job :: "server \<Rightarrow> client \<Rightarrow> processedJob \<Rightarrow> (pg_error + nat) \<times> client" where
  "insert_job srv c pj =
     (if status c = Aborted then (Inl in_failed_sql_transaction, c)
      else if \<not> job_fits srv pj \<or> serial_max \<le> int (jobs_seq (cdb c)) then (Inl data_exception, failed c)
      else
        let d = (cdb c) \<lparr> jobs_seq := Suc (jobs_seq (cdb c)) \<rparr> in
        (case conflict_row (jobs_tbl d) (pj_apply_link pj) of
           Some r \<Rightarrow>
             (Inr (row_id r),
              c \<lparr> cdb := d \<lparr> jobs_tbl :=
                     map (\<lambda>x. if row_id x = row_id r
                               then update_job (job_params pj) (txn_start c) x else x)
                       (jobs_tbl d) \<rparr> \<rparr>)
         | None \<Rightarrow>
             if jobs_seq d \<in> set (map row_id (jobs_tbl d))
             then (Inl unique_violation, failed (c \<lparr> cdb := d \<rparr>))
             else if \<not> link_fits srv pj
             then (Inl program_limit_exceeded, failed (c \<lparr> cdb := d \<rparr>))
             else
               (Inr (jobs_seq d),
                c \<lparr> cdb := d \<lparr> jobs_tbl := jobs_tbl d @
                       [\<lparr> row_id = jobs_seq d, vals = job_params pj,
                          date_added = txn_start c, last_updated = txn_start c \<rparr>] \<rparr> \<rparr>)))"

text \<open>
  The contact statement (lines 205-225). \<^verbatim>\<open>confidence\<close> is an \<^verbatim>\<open>INTEGER\<close>, and
  \<^verbatim>\<open>job_id\<close> references a row of the jobs table.
\<close>

definition contact_fits :: "processedJob \<Rightarrow> contact \<Rightarrow> bool" where
  "contact_fits pj em =
     (text_ok (email em) \<and> text_opt_ok (firstName em) \<and> text_opt_ok (lastName em) \<and>
      text_opt_ok (position em) \<and> text_ok (pj_company pj) \<and> text_opt_ok (pj_company_domain pj) \<and>
      fits 255 (email em) \<and> fits_opt 255 (firstName em) \<and> fits_opt 255 (lastName em) \<and>
      fits_opt 255 (position em) \<and>
      (case confidence em of None \<Rightarrow> True | Some n \<Rightarrow> - 2147483648 \<le> n \<and> n \<le> 2147483647) \<and>
      fits 255 (pj_company pj) \<and> fits_opt 255 (pj_company_domain pj))"

definition update_contact :: "processedJob \<Rightarrow> contact \<Rightarrow> contact_row \<Rightarrow> contact_row" where
  "update_contact pj em r =
     r \<lparr> c_first_name := map_option (stored 255) (firstName em),
         c_last_name := map_option (stored 255) (lastName em),
         c_position := map_option (stored 255) (position em),
         c_confidence := confidence em,
         c_company := stored 255 (pj_company pj),
         c_domain := map_option (stored 255) (pj_company_domain pj) \<rparr>"

definition insert_contact :: "client \<Rightarrow> nat \<Rightarrow> processedJob \<Rightarrow> contact \<Rightarrow> (pg_error + unit) \<times> client" where
  "insert_contact c jobId pj em =
     (if status c = Aborted then (Inl in_failed_sql_transaction, c)
      else if \<not> contact_fits pj em \<or> serial_max \<le> int (contacts_seq (cdb c))
      then (Inl data_exception, failed c)
      else
        let d = (cdb c) \<lparr> contacts_seq := Suc (contacts_seq (cdb c)) \<rparr> in
        (case find (\<lambda>r. c_job_id r = jobId \<and> c_email r = stored 255 (email em)) (contacts_tbl d) of
           Some r \<Rightarrow>
             (Inr (),
              c \<lparr> cdb := d \<lparr> contacts_tbl :=
                     map (\<lambda>x. if c_id x = c_id r then update_contact pj em x else x)
                       (contacts_tbl d) \<rparr> \<rparr>)
         | None \<Rightarrow>
             if contacts_seq d \<in> set (map c_id (contacts_tbl d))
             then (Inl unique_violation, failed (c \<lparr> cdb := d \<rparr>))
             else if jobId \<notin> set (map row_id (jobs_tbl d))
             then (Inl foreign_key_violation, failed (c \<lparr> cdb := d \<rparr>))
             else
               (Inr (),
                c \<lparr> cdb := d \<lparr> contacts_tbl := contacts_tbl d @
                       [update_contact pj em
                          \<lparr> c_id = contacts_seq d, c_job_id = jobId,
                            c_email = stored 255 (email em),
                            c_first_name = None, c_last_name = None, c_position = None,
                            c_confidence = None, c_company = [], c_domain = None,
                            c_date_added = txn_start c \<rparr>] \<rparr> \<rparr>)))"

text \<open>The loop over \<^verbatim>\<open>job.emails\<close>: an error leaves it for the \<^verbatim>\<open>catch\<close> of the job.\<close>

fun insert_contacts :: "client \<Rightarrow> nat \<Rightarrow> processedJob \<Rightarrow> contact list \<Rightarrow> (pg_error + unit) \<times> client" where
  "insert_contacts c jobId pj [] = (Inr (), c)"
| "insert_contacts c jobId pj (em # ems) =
     (case insert_contact c jobId pj em of
        (Inl err, c') \<Rightarrow> (Inl err, c')
      | (Inr u, c') \<Rightarrow> insert_contacts c' jobId pj ems)"

text \<open>
  The \<^verbatim>\<open>try\<close> block of one job (lines 152-235), on the counter and the client: the
  counter grows when no statement of the job raised.
\<close>

definition insert_one :: "server \<Rightarrow> nat \<times> client \<Rightarrow> processedJob \<Rightarrow> nat \<times> client" where
  "insert_one srv acc pj =
     (case acc of (insertedCount, c) \<Rightarrow>
        (case insert_job srv c pj of
           (Inl err, c1) \<Rightarrow> (insertedCount, c1)
         | (Inr jobId, c1) \<Rightarrow>
             (case insert_contacts c1 jobId pj (pj_emails pj) of
                (Inl err, c2) \<Rightarrow> (insertedCount, c2)
              | (Inr u, c2) \<Rightarrow> (Suc insertedCount, c2))))"

text \<open>
  \<^verbatim>\<open>insertJobsIntoDatabase\<close> of \<^verbatim>\<open>database.js\<close> (lines 138-250). The pool is \<open>None\<close>
  before \<^verbatim>\<open>initDatabase\<close>, and otherwise the database of the server \<open>srv\<close>; \<open>now\<close> is
  the time at which the transaction starts.
\<close>

definition insertJobsIntoDatabase ::
  "server \<Rightarrow> db option \<Rightarrow> processedJob list \<Rightarrow> string \<Rightarrow> nat \<times> db option" where
  "insertJobsIntoDatabase srv pool js now =
     (case pool of
        None \<Rightarrow> (0, None)
      | Some d \<Rightarrow>
          (case foldl (insert_one srv) (0, begin_txn d now) js of
             (insertedCount, c) \<Rightarrow> (insertedCount, Some (cdb (commit_txn c)))))"

text \<open>
  The two uniqueness constraints of the tables of \<^verbatim>\<open>database.js\<close> as predicates:
  \<^verbatim>\<open>unique_job_apply_link UNIQUE (apply_link)\<close>, which leaves \<^verbatim>\<open>NULL\<close>s aside, and
  \<^verbatim>\<open>unique_google_contact_email UNIQUE (job_id, email)\<close>. \<open>link_rows\<close> and \<open>pair_rows\<close>
  select the rows with a given link and with a given pair.
\<close>

definition link_rows :: "job_row list \<Rightarrow> string \<Rightarrow> job_row list" where
  "link_rows tbl a = filter (\<lambda>r. v_apply_link (vals r) = Some a) tbl"

definition pair_rows :: "contact_row list \<Rightarrow> nat \<Rightarrow> string \<Rightarrow> contact_row list" where
  "pair_rows tbl j e = filter (\<lambda>r. c_job_id r = j \<and> c_email r = e) tbl"

text \<open>
  The primary keys of the two tables as a predicate, with the sequences at or above the
  identifiers of their tables, where they are when every identifier was taken from its
  sequence.
\<close>

definition serials_ahead :: "db \<Rightarrow> bool" where
  "serials_ahead d =
     (distinct (map row_id (jobs_tbl d)) \<and> (\<forall>r \<in> set (jobs_tbl d). row_id r \<le> jobs_seq d) \<and>
      distinct (map c_id (contacts_tbl d)) \<and> (\<forall>r \<in> set (contacts_tbl d). c_id r \<le> contacts_seq d))"

definition constraints_hold :: "db \<Rightarrow> bool" where
  "constraints_hold d =
     ((\<forall>r \<in> set (jobs_tbl d).
         case v_apply_link (vals r) of
           None \<Rightarrow> True
         | Some a \<Rightarrow> length (link_rows (jobs_tbl d) a) \<le> 1) \<and>
      (\<forall>r \<in> set (contacts_tbl d).
         length (pair_rows (contacts_tbl d) (c_job_id r) (c_email r)) \<le> 1))"

section \<open>\<^verbatim>\<open>main.js\<close>: its own tables and \<^verbatim>\<open>insertJobsIntoDatabase\<close>\<close>

text \<open>
  \<^verbatim>\<open>main.js\<close> does not import \<^verbatim>\<open>database.js\<close>. It creates the two tables with other
  columns (lines 94-157), the jobs table with
  \<^verbatim>\<open>CONSTRAINT culinary_jobs_google_title_company_key UNIQUE (title, company)\<close> and no
  constraint on \<^verbatim>\<open>url\<close>, the column that receives \<^verbatim>\<open>job.apply_link\<close>.
\<close>

record mjob_row =
  m_id :: nat
  m_title :: string
  m_company :: string
  m_parent_company :: string
  m_location :: string
  m_salary :: string
  m_contact_name :: string
  m_contact_title :: string
  m_email :: string
  m_url :: "string option"
  m_job_details :: string
  m_linkedin :: string
  m_domain :: string
  m_company_size :: string
  m_date_added :: string
  m_last_updated :: string
  m_contacts_last_viewed :: "string option"
  m_parent_url :: string

record mcontact_row =
  mc_id :: nat
  mc_job_id :: nat
  mc_name :: string
  mc_title :: string
  mc_email :: string
  mc_date_added :: string
  mc_last_updated :: string

record mdb =
  m_jobs_tbl :: "mjob_row list"
  m_contacts_tbl :: "mcontact_row list"
  m_jobs_seq :: nat
  m_contacts_seq :: nat

record mclient =
  m_cdb :: mdb
  m_status :: txn_status
  m_saved :: "mjob_row list \<times> mcontact_row list"

definition m_begin :: "mdb \<Rightarrow> mclient" where
  "m_begin d = \<lparr> m_cdb = d, m_status = InTransaction, m_saved = (m_jobs_tbl d, m_contacts_tbl d) \<rparr>"

definition m_failed :: "mclient \<Rightarrow> mclient" where
  "m_failed c = (if m_status c = InTransaction then c \<lparr> m_status := Aborted \<rparr> else c)"

definition m_commit :: "mclient \<Rightarrow> mclient" where
  "m_commit c =
     (if m_status c = Aborted
      then c \<lparr> m_cdb := (m_cdb c) \<lparr> m_jobs_tbl := fst (m_saved c),
                                     m_contacts_tbl := snd (m_saved c) \<rparr>,
               m_status := Idle \<rparr>
      else c \<lparr> m_status := Idle \<rparr>)"

text \<open>
  The strings computed before the job statement (lines 185-203). \<open>numToString\<close> is the
  conversion of a number inside a template literal, a parameter of the model.
\<close>

definition salaryStr :: "(jsnum \<Rightarrow> string) \<Rightarrow> processedJob \<Rightarrow> string" where
  "salaryStr numToString pj =
     (case (pj_salary_min pj, pj_salary_max pj) of
        (Some lo, Some hi) \<Rightarrow>
          if num_truthy (Some lo) \<and> num_truthy (Some hi)
          then
            let s0 = numToString lo @ '' - '' @ numToString hi;
                s1 = (if pj_salary_currency pj \<noteq> [] then pj_salary_currency pj @ '' '' @ s0 else s0)
            in if pj_salary_period pj \<noteq> [] then s1 @ '' '' @ pj_salary_period pj else s1
          else []
      | _ \<Rightarrow> [])"

definition fullName :: "contact \<Rightarrow> string" where
  "fullName em = trim (or_else (firstName em) [] @ '' '' @ or_else (lastName em) [])"

definition contactName :: "processedJob \<Rightarrow> string" where
  "contactName pj = (case pj_emails pj of [] \<Rightarrow> [] | em # _ \<Rightarrow> fullName em)"

definition contactTitle :: "processedJob \<Rightarrow> string" where
  "contactTitle pj = (case pj_emails pj of [] \<Rightarrow> [] | em # _ \<Rightarrow> or_else (position em) [])"

definition contactEmail :: "processedJob \<Rightarrow> string" where
  "contactEmail pj = (case pj_emails pj of [] \<Rightarrow> [] | em # _ \<Rightarrow> email em)"

text \<open>
  The parameters of the job statement (lines 222-240) against the columns of lines
  96-113; \<open>now\<close> is stored into \<^verbatim>\<open>date_added\<close> and \<^verbatim>\<open>last_updated\<close>.
\<close>

definition m_job_fits :: "server \<Rightarrow> (jsnum \<Rightarrow> string) \<Rightarrow> processedJob \<Rightarrow> string \<Rightarrow> bool" where
  "m_job_fits srv numToString pj now =
     (text_ok (pj_title pj) \<and> text_ok (pj_company pj) \<and> text_ok (pj_location pj) \<and>
      text_ok (salaryStr numToString pj) \<and> text_ok (contactName pj) \<and>
      text_ok (contactTitle pj) \<and> text_ok (contactEmail pj) \<and>
      text_opt_ok (pj_apply_link pj) \<and> text_ok (pj_description pj) \<and>
      text_ok (or_else (pj_company_domain pj) []) \<and>
      text_ok now \<and> timestamptz_in srv now \<and>
      fits 255 (pj_title pj) \<and> fits 255 (pj_company pj) \<and> fits 255 (pj_location pj) \<and>
      fits 255 (salaryStr numToString pj) \<and> fits 255 (contactName pj) \<and>
      fits 255 (contactTitle pj) \<and> fits 255 (contactEmail pj) \<and>
      fits 255 (or_else (pj_company_domain pj) []))"

text \<open>\<^verbatim>\<open>DO UPDATE SET\<close> of lines 211-220.\<close>

definition m_update_job :: "(jsnum \<Rightarrow> string) \<Rightarrow> processedJob \<Rightarrow> string \<Rightarrow> mjob_row \<Rightarrow> mjob_row" where
  "m_update_job numToString pj now r =
     r \<lparr> m_location := stored 255 (pj_location pj),
         m_salary := stored 255 (salaryStr numToString pj),
         m_contact_name := stored 255 (contactName pj),
         m_contact_title := stored 255 (contactTitle pj),
         m_email := stored 255 (contactEmail pj),
         m_url := pj_apply_link pj,
         m_job_details := pj_description pj,
         m_domain := stored 255 (or_else (pj_company_domain pj) []),
         m_last_updated := now \<rparr>"

text \<open>The job statement (lines 206-241), with \<^verbatim>\<open>ON CONFLICT (title, company)\<close>.\<close>

definition m_insert_job ::
  "server \<Rightarrow> (jsnum \<Rightarrow> string) \<Rightarrow> mclient \<Rightarrow> processedJob \<Rightarrow> string \<Rightarrow> (pg_error + nat) \<times> mclient" where
  "m_insert_job srv numToString c pj now =
     (if m_status c = Aborted then (Inl in_failed_sql_transaction, c)
      else if \<not> m_job_fits srv numToString pj now \<or> serial_max \<le> int (m_jobs_seq (m_cdb c))
      then (Inl data_exception, m_failed c)
      else
        let d = (m_cdb c) \<lparr> m_jobs_seq := Suc (m_jobs_seq (m_cdb c)) \<rparr> in
          (case find (\<lambda>r. m_title r = stored 255 (pj_title pj) \<and>
                           m_company r = stored 255 (pj_company pj)) (m_jobs_tbl d) of
             Some r \<Rightarrow>
               (Inr (m_id r),
                c \<lparr> m_cdb := d \<lparr> m_jobs_tbl :=
                       map (\<lambda>x. if m_id x = m_id r then m_update_job numToString pj now x else x)
                         (m_jobs_tbl d) \<rparr> \<rparr>)
           | None \<Rightarrow>
               if m_jobs_seq d \<in> set (map m_id (m_jobs_tbl d))
               then (Inl unique_violation, m_failed (c \<lparr> m_cdb := d \<rparr>))
               else
                 (Inr (m_jobs_seq d),
                  c \<lparr> m_cdb := d \<lparr> m_jobs_tbl := m_jobs_tbl d @
                         [m_update_job numToString pj now
                            \<lparr> m_id = m_jobs_seq d,
                              m_title = stored 255 (pj_title pj),
                              m_company = stored 255 (pj_company pj),
                              m_parent_company = [], m_location = [], m_salary = [],
                              m_contact_name = [], m_contact_title = [], m_email = [],
                              m_url = None, m_job_details = [], m_linkedin = [], m_domain = [],
                              m_company_size = [], m_date_added = now, m_last_updated = now,
                              m_contacts_last_viewed = None, m_parent_url = [] \<rparr>] \<rparr> \<rparr>)))"

text \<open>The contact statement (lines 252-268).\<close>

definition m_contact_fits :: "server \<Rightarrow> contact \<Rightarrow> string \<Rightarrow> bool" where
  "m_contact_fits srv em now =
     (text_ok (fullName em) \<and> text_ok (or_else (position em) []) \<and> text_ok (email em) \<and>
      text_ok now \<and> timestamptz_in srv now \<and>
      fits 255 (fullName em) \<and> fits 255 (or_else (position em) []) \<and> fits 255 (email em))"

definition m_insert_contact ::
  "server \<Rightarrow> mclient \<Rightarrow> nat \<Rightarrow> contact \<Rightarrow> string \<Rightarrow> (pg_error + unit) \<times> mclient" where
  "m_insert_contact srv c jobId em now =
     (if m_status c = Aborted then (Inl in_failed_sql_transaction, c)
      else if \<not> m_contact_fits srv em now \<or> serial_max \<le> int (m_contacts_seq (m_cdb c))
      then (Inl data_exception, m_failed c)
      else
        let d = (m_cdb c) \<lparr> m_contacts_seq := Suc (m_contacts_seq (m_cdb c)) \<rparr> in
          (case find (\<lambda>r. mc_job_id r = jobId \<and> mc_email r = stored 255 (email em))
                  (m_contacts_tbl d) of
             Some r \<Rightarrow>
               (Inr (),
                c \<lparr> m_cdb := d \<lparr> m_contacts_tbl :=
                       map (\<lambda>x. if mc_id x = mc_id r
                                 then x \<lparr> mc_name := stored 255 (fullName em),
                                          mc_title := stored 255 (or_else (position em) []),
                                          mc_last_updated := now \<rparr>
                                 else x)
                         (m_contacts_tbl d) \<rparr> \<rparr>)
           | None \<Rightarrow>
               if m_contacts_seq d \<in> set (map mc_id (m_contacts_tbl d))
               then (Inl unique_violation, m_failed (c \<lparr> m_cdb := d \<rparr>))
               else if jobId \<notin> set (map m_id (m_jobs_tbl d))
               then (Inl foreign_key_violation, m_failed (c \<lparr> m_cdb := d \<rparr>))
               else
                 (Inr (),
                  c \<lparr> m_cdb := d \<lparr> m_contacts_tbl := m_contacts_tbl d @
                         [\<lparr> mc_id = m_contacts_seq d, mc_job_id = jobId,
                            mc_name = stored 255 (fullName em),
                            mc_title = stored 255 (or_else (position em) []),
                            mc_email = stored 255 (email em),
                            mc_date_added = now, mc_last_updated = now \<rparr>] \<rparr> \<rparr>)))"

text \<open>
  The loop over \<^verbatim>\<open>job.emails\<close> (lines 247-272): each statement has its own
  \<^verbatim>\<open>try ... catch\<close>, and the loop goes on after an error.
\<close>

definition m_insert_contacts :: "server \<Rightarrow> mclient \<Rightarrow> nat \<Rightarrow> contact list \<Rightarrow> string \<Rightarrow> mclient" where
  "m_insert_contacts srv c jobId ems now =
     foldl (\<lambda>c' em. snd (m_insert_contact srv c' jobId em now)) c ems"

text \<open>
  The loop over the jobs (lines 182-281). \<open>clock k\<close> is \<^verbatim>\<open>new Date().toISOString()\<close>
  as read for the job at index \<open>k\<close> of the batch. A job counts when its own statement
  did not raise.
\<close>

fun m_insert_loop ::
  "server \<Rightarrow> (jsnum \<Rightarrow> string) \<Rightarrow> (nat \<Rightarrow> string) \<Rightarrow> nat \<Rightarrow> processedJob list \<Rightarrow>
   nat \<times> mclient \<Rightarrow> nat \<times> mclient" where
  "m_insert_loop srv numToString clock k [] acc = acc"
| "m_insert_loop srv numToString clock k (pj # pjs) acc =
     (case acc of (insertedCount, c) \<Rightarrow>
        (case m_insert_job srv numToString c pj (clock k) of
           (Inl err, c1) \<Rightarrow> m_insert_loop srv numToString clock (Suc k) pjs (insertedCount, c1)
         | (Inr jobId, c1) \<Rightarrow>
             m_insert_loop srv numToString clock (Suc k) pjs
               (Suc insertedCount, m_insert_contacts srv c1 jobId (pj_emails pj) (clock k))))"

definition main_insertJobsIntoDatabase ::
  "server \<Rightarrow> (jsnum \<Rightarrow> string) \<Rightarrow> (nat \<Rightarrow> string) \<Rightarrow> mdb option \<Rightarrow> processedJob list \<Rightarrow>
   nat \<times> mdb option" where
  "main_insertJobsIntoDatabase srv numToString clock pool js =
     (case pool of
        None \<Rightarrow> (0, None)
      | Some d \<Rightarrow>
          (case m_insert_loop srv numToString clock 0 js (0, m_begin d) of
             (insertedCount, c) \<Rightarrow> (insertedCount, Some (m_cdb (m_commit c)))))"

section \<open>Sample data\<close>

text \<open>
  Three provider records, a contact, and a world for the examples below: the search
  provider answers the first request with the three records and a token, and every
  request that carries a token with no record and another token; the website lookup
  finds a string from which no domain is derived; the search by domain finds nothing and
  the search by company name one contact.
\<close>

definition subway_raw :: raw_result where
  "subway_raw =
     \<lparr> raw_title = Some ''Sandwich Artist'', raw_company_name = Some ''Subway'',
       raw_location = Some ''Austin, TX'', raw_description = Some ''Make sandwiches.'',
       raw_posted_at = None, raw_schedule = Some ''Full-time'', raw_job_highlights = None,
       raw_extensions = None, raw_apply_link = Some ''https://jobs.example.com/1'',
       raw_apply_links = None, raw_via = Some ''via Indeed'' \<rparr>"

definition chartwells_raw :: raw_result where
  "chartwells_raw =
     \<lparr> raw_title = Some ''Sous Chef'', raw_company_name = Some ''Chartwells Higher Education'',
       raw_location = Some ''Austin, TX'', raw_description = Some ''Campus dining.'',
       raw_posted_at = None, raw_schedule = Some ''Full-time'', raw_job_highlights = None,
       raw_extensions = None, raw_apply_link = Some ''https://jobs.example.com/3'',
       raw_apply_links = None, raw_via = Some ''via Indeed'' \<rparr>"

definition luna_raw :: raw_result where
  "luna_raw =
     \<lparr> raw_title = Some ''Executive Chef'', raw_company_name = Some ''Luna Bistro'',
       raw_location = Some ''Austin, TX'', raw_description = Some ''Lead our kitchen.'',
       raw_posted_at = None, raw_schedule = Some ''Full-time'', raw_job_highlights = None,
       raw_extensions = None, raw_apply_link = Some ''https://jobs.example.com/2'',
       raw_apply_links = None, raw_via = Some ''via Indeed'' \<rparr>"

definition sample_contact :: contact where
  "sample_contact =
     \<lparr> email = ''ana@lunabistro.example'', firstName = Some ''Ana'', lastName = Some ''Ruiz'',
       position = Some ''Owner'', confidence = Some 90 \<rparr>"

definition sample_env :: "nat env" where
  "sample_env =
     \<lparr> SEARCH_API_KEY = Some ''key'',
       fetch = (\<lambda>w rq. (if req_next_page_token rq = None
                         then Data (Some [subway_raw, chartwells_raw, luna_raw]) (Some ''page2'')
                         else Data (Some []) (Some ''page3''), Suc w)),
       getWebsiteUrlFromSearchAPI = (\<lambda>w c. (Inr (Some ''lunabistro''), Suc w)),
       getDomainFromUrl = (\<lambda>u. Inr None),
       findEmailsWithHunter = (\<lambda>w d c. (Inr [], Suc w)),
       findEmailsByCompanyName = (\<lambda>w c. (Inr [sample_contact], Suc w)),
       isoNow = (\<lambda>w. ''2025-01-01T00:00:00.000Z'') \<rparr>"

definition sample_input :: input where
  "sample_input =
     \<lparr> queries = [''restaurant chef''], maxPagesPerQuery = 5, in_location = [],
       saveToDataset = True, pushToDatabase = True, databaseUrl = [],
       databaseTable = ''culinary_jobs_google'', deduplicateJobs = True, fullTimeOnly = True,
       excludeFastFood = False, excludeRecruiters = False, includeHunterData = True \<rparr>"

definition s0 :: "nat st" where "s0 = \<lparr> world = 0, calls = [] \<rparr>"

text \<open>
  An empty database for each of the two schemas, and processed jobs: one at Luna Bistro
  with a contact, the same with a title of 256 letters, which no \<^verbatim>\<open>VARCHAR(255)\<close> column
  stores, and the same job with another title and the same \<^verbatim>\<open>apply_link\<close>.
\<close>

definition empty_db :: db where
  "empty_db = \<lparr> jobs_tbl = [], contacts_tbl = [], jobs_seq = 0, contacts_seq = 0 \<rparr>"

definition empty_mdb :: mdb where
  "empty_mdb = \<lparr> m_jobs_tbl = [], m_contacts_tbl = [], m_jobs_seq = 0, m_contacts_seq = 0 \<rparr>"

definition luna_pj :: processedJob where
  "luna_pj =
     \<lparr> pj_title = ''Executive Chef'', pj_company = ''Luna Bistro'', pj_location = ''Austin, TX'',
       pj_posted_at = ''Unknown'', pj_schedule = ''Full-time'',
       pj_description = ''Lead our kitchen.'', pj_salary_min = None, pj_salary_max = None,
       pj_salary_currency = ''USD'', pj_salary_period = ''yearly'', pj_skills = [],
       pj_experience_level = ''executive'',
       pj_apply_link = Some ''https://jobs.example.com/2'', pj_source = ''Indeed'',
       pj_scraped_at = ''2025-01-01T00:00:00.000Z'', pj_company_website = None,
       pj_company_domain = None, pj_emails = [sample_contact] \<rparr>"

definition long_title_pj :: processedJob where
  "long_title_pj =
     luna_pj \<lparr> pj_title := replicate 256 (CHR ''x''),
               pj_apply_link := Some ''https://jobs.example.com/9'' \<rparr>"

definition retitled_pj :: processedJob where
  "retitled_pj = luna_pj \<lparr> pj_title := ''Head Chef'' \<rparr>"

definition sample_clock :: "nat \<Rightarrow> string" where
  "sample_clock k = ''2025-01-01T00:00:00.000Z''"

definition sample_numToString :: "jsnum \<Rightarrow> string" where
  "sample_numToString n = ''0''"

text \<open>
  A server for the examples. Of the spellings of a time stamp it reads the one that
  \<^verbatim>\<open>toISOString\<close> writes, with a year from 0001 to 9999; it has \<^verbatim>\<open>Infinity\<close>; and
  the index takes the links of at most 1000 characters.
\<close>

definition days_in_month :: "nat \<Rightarrow> nat \<Rightarrow> nat" where
  "days_in_month y m =
     (if m = 2 then (if y mod 4 = 0 \<and> (y mod 100 \<noteq> 0 \<or> y mod 400 = 0) then 29 else 28)
      else if m = 4 \<or> m = 6 \<or> m = 9 \<or> m = 11 then 30
      else 31)"

definition iso_instant :: "string \<Rightarrow> bool" where
  "iso_instant s =
     (let y = take 4 s; mo = take 2 (drop 5 s); d = take 2 (drop 8 s);
          h = take 2 (drop 11 s); mi = take 2 (drop 14 s); se = take 2 (drop 17 s);
          ms = take 3 (drop 20 s)
      in length s = 24 \<and> (\<forall>c \<in> set (y @ mo @ d @ h @ mi @ se @ ms). is_digit c) \<and>
         map (\<lambda>i. take 1 (drop i s)) [4, 7, 10, 13, 16, 19, 23] =
           [''-'', ''-'', ''T'', '':'', '':'', ''.'', ''Z''] \<and>
         1 \<le> digits_val y \<and> 1 \<le> digits_val mo \<and> digits_val mo \<le> 12 \<and>
         1 \<le> digits_val d \<and> digits_val d \<le> days_in_month (digits_val y) (digits_val mo) \<and>
         digits_val h \<le> 23 \<and> digits_val mi \<le> 59 \<and> digits_val se \<le> 59)"

definition sample_server :: server where
  "sample_server =
     \<lparr> timestamptz_in = iso_instant, numeric_infinity = True,
       index_row_ok = (\<lambda>a. length a \<le> 1000) \<rparr>"

text \<open>
  Three worlds in which a lookup throws: the website lookup; \<^verbatim>\<open>getDomainFromUrl\<close>, on
  the string that the website lookup found; and the search by domain, for a domain that
  was derived. In each of them the search by company name would find the sample contact.
\<close>

definition website_throws_env :: "nat env" where
  "website_throws_env =
     sample_env \<lparr> getWebsiteUrlFromSearchAPI := (\<lambda>w c. (Inl ''ETIMEDOUT'', Suc w)) \<rparr>"

definition domain_throws_env :: "nat env" where
  "domain_throws_env = sample_env \<lparr> getDomainFromUrl := (\<lambda>u. Inl ''Invalid URL'') \<rparr>"

definition hunter_throws_env :: "nat env" where
  "hunter_throws_env =
     sample_env \<lparr> getDomainFromUrl := (\<lambda>u. Inr (Some ''lunabistro.example'')),
                  findEmailsWithHunter := (\<lambda>w d c. (Inl ''Request failed with status code 429'', Suc w)) \<rparr>"

section \<open>What the string functions compute\<close>

text \<open>
  The three tests are the usual ones: \<open>t\<close> is a prefix of \<open>s\<close>, occurs in \<open>s\<close> at some
  position, is a suffix of \<open>s\<close>.
\<close>

lemma startsWith_iff: "startsWith s t \<longleftrightarrow> (\<exists>q. s = t @ q)"
  by (induction s t rule: startsWith.induct) auto

lemma includes_str_iff: "includes_str s t \<longleftrightarrow> (\<exists>p q. s = p @ t @ q)"
proof (induction s)
  case Nil
  then show ?case by auto
next
  case (Cons c cs)
  show ?case
  proof
    assume "includes_str (c # cs) t"
    then consider "startsWith (c # cs) t" | "includes_str cs t" by auto
    then show "\<exists>p q. c # cs = p @ t @ q"
    proof cases
      case 1
      then obtain q where "c # cs = t @ q" by (auto simp: startsWith_iff)
      then have "c # cs = [] @ t @ q" by simp
      then show ?thesis by blast
    next
      case 2
      then obtain p q where "cs = p @ t @ q" using Cons.IH by auto
      then have "c # cs = (c # p) @ t @ q" by simp
      then show ?thesis by blast
    qed
  next
    assume "\<exists>p q. c # cs = p @ t @ q"
    then obtain p q where pq: "c # cs = p @ t @ q" by blast
    show "includes_str (c # cs) t"
    proof (cases p)
      case Nil
      with pq have "startsWith (c # cs) t" by (auto simp: startsWith_iff)
      then show ?thesis by simp
    next
      case (Cons a p')
      with pq have "cs = p' @ t @ q" by simp
      then have "includes_str cs t" using Cons.IH by blast
      then show ?thesis by simp
    qed
  qed
qed

lemma endsWith_iff: "endsWith s t \<longleftrightarrow> (\<exists>p. s = p @ t)"
proof -
  have "endsWith s t \<longleftrightarrow> (\<exists>q. rev s = rev t @ q)"
    by (simp add: endsWith_def startsWith_iff)
  also have "\<dots> \<longleftrightarrow> (\<exists>p. s = p @ t)"
  proof
    assume "\<exists>q. rev s = rev t @ q"
    then obtain q where "rev s = rev t @ q" by blast
    then have "s = rev q @ t" by (metis rev_append rev_rev_ident)
    then show "\<exists>p. s = p @ t" by blast
  next
    assume "\<exists>p. s = p @ t"
    then obtain p where "s = p @ t" by blast
    then have "rev s = rev t @ rev p" by simp
    then show "\<exists>q. rev s = rev t @ q" by blast
  qed
  finally show ?thesis .
qed

lemma fastFoodHit_iff:
  "fastFoodHit lc brand \<longleftrightarrow>
     (lc = brand \<or> (\<exists>p q. lc = p @ '' '' @ brand @ '' '' @ q) \<or>
      (\<exists>q. lc = brand @ '' '' @ q) \<or> (\<exists>p. lc = p @ '' '' @ brand))"
  unfolding fastFoodHit_def includes_str_iff startsWith_iff endsWith_iff by simp

section \<open>What the number functions compute\<close>

text \<open>
  \<open>binade q\<close> is the exponent of the power of two at or below \<open>q\<close>, and a natural number
  below \<open>2 ^ 53\<close> is a double: rounding leaves it as it is.
\<close>

lemma powi_bitlen_bounds:
  fixes a :: int
  assumes "0 < a"
  shows "(2::rat) powi (bitlen a - 1) \<le> of_int a" "of_int a < (2::rat) powi (bitlen a)"
proof -
  from bitlen_bounds [OF assms] have b: "2 ^ nat (bitlen a - 1) \<le> a" "a < 2 ^ nat (bitlen a)"
    by auto
  have p: "0 < bitlen a" using assms by (simp add: bitlen_alt_def)
  have "(2::rat) powi (bitlen a - 1) = of_int (2 ^ nat (bitlen a - 1))"
    using p by (simp add: power_int_def)
  also have "\<dots> \<le> of_int a" using b(1) by (simp only: of_int_le_iff)
  finally show "(2::rat) powi (bitlen a - 1) \<le> of_int a" .
  have "(of_int a :: rat) < of_int (2 ^ nat (bitlen a))" using b(2) by (simp only: of_int_less_iff)
  also have "\<dots> = (2::rat) powi (bitlen a)"
    using p by (simp add: power_int_def)
  finally show "of_int a < (2::rat) powi (bitlen a)" .
qed

lemma binade_bounds:
  assumes "0 < q"
  shows "2 powi (binade q) \<le> q \<and> q < 2 powi (binade q + 1)"
proof -
  obtain a b where ab: "quotient_of q = (a, b)" by (cases "quotient_of q")
  then have b: "0 < b" and q: "q = of_int a / of_int b"
    using quotient_of_denom_pos quotient_of_div by auto
  with assms have a: "0 < a" by (simp add: zero_less_divide_iff)
  let ?d = "bitlen a - bitlen b"
  have u: "q < 2 powi (?d + 1)"
  proof -
    have "of_int a < (2::rat) powi (bitlen a)" using powi_bitlen_bounds(2) [OF a] .
    also have "\<dots> = 2 powi (?d + 1) * 2 powi (bitlen b - 1)"
      by (simp flip: power_int_add)
    also have "\<dots> \<le> 2 powi (?d + 1) * of_int b"
      using powi_bitlen_bounds(1) [OF b] by (intro mult_left_mono) auto
    finally show ?thesis using b by (simp add: q pos_divide_less_eq)
  qed
  have l: "2 powi (?d - 1) < q"
  proof -
    have "2 powi (?d - 1) * of_int b < 2 powi (?d - 1) * (2::rat) powi (bitlen b)"
      using powi_bitlen_bounds(2) [OF b] by (intro mult_strict_left_mono) auto
    also have "\<dots> = 2 powi (bitlen a - 1)"
      by (simp flip: power_int_add)
    also have "\<dots> \<le> of_int a" using powi_bitlen_bounds(1) [OF a] .
    finally show ?thesis using b by (simp add: q pos_less_divide_eq)
  qed
  show ?thesis
    using u l by (auto simp: binade_def ab Let_def intro: less_imp_le)
qed

lemma round_half_even_int: "round_half_even (of_int m) = m"
  by (simp add: round_half_even_def)

lemma to_double_of_nat:
  assumes "n < 2 ^ 53"
  shows "to_double (of_nat n) = Num (of_nat n)"
proof (cases "n = 0")
  case True
  then show ?thesis by (simp add: to_double_def)
next
  case False
  let ?q = "of_nat n :: rat"
  have q0: "0 < ?q" and q1: "1 \<le> ?q" using False by simp_all
  have q2: "?q < 2 ^ 53"
  proof -
    have "?q < of_nat (2 ^ 53)" using assms by (simp only: of_nat_less_iff)
    then show ?thesis by simp
  qed
  from binade_bounds [OF q0] have bb: "2 powi (binade ?q) \<le> ?q" "?q < 2 powi (binade ?q + 1)"
    by auto
  have lo: "0 \<le> binade ?q"
  proof (rule ccontr)
    assume "\<not> 0 \<le> binade ?q"
    then have "binade ?q + 1 \<le> 0" by simp
    then have "(2::rat) powi (binade ?q + 1) \<le> 2 powi 0"
      by (intro power_int_increasing) simp_all
    with bb(2) q1 show False by simp
  qed
  have hi: "binade ?q \<le> 52"
  proof (rule ccontr)
    assume "\<not> binade ?q \<le> 52"
    then have "53 \<le> binade ?q" by simp
    then have "(2::rat) powi 53 \<le> 2 powi binade ?q"
      by (intro power_int_increasing) simp_all
    moreover have "(2::rat) powi 53 = 2 ^ 53" by (simp add: power_int_def)
    ultimately show False using bb(1) q2 by simp
  qed
  define k where "k = nat (52 - binade ?q)"
  have e: "max (binade ?q) (- 1022) = binade ?q" using lo by simp
  have ulp: "(2::rat) powi (binade ?q - 52) = 1 / 2 ^ k"
    using hi by (simp add: power_int_def k_def field_simps)
  have m: "?q / (1 / 2 ^ k) = of_int (int n * 2 ^ k)" by simp
  have r: "of_int (round_half_even (?q / (1 / 2 ^ k))) * (1 / 2 ^ k) = ?q"
    by (simp only: m round_half_even_int) simp
  have r': "of_int (round_half_even (?q / 2 powi (binade ?q - 52))) * 2 powi (binade ?q - 52) = ?q"
    by (simp only: ulp r)
  have big: "((2::rat) ^ 1024 \<le> ?q) = False"
  proof -
    have "(2::rat) ^ 53 \<le> 2 ^ 1024" by (intro power_increasing) simp_all
    with q2 show ?thesis by simp
  qed
  have ne: "(?q = 0) = False" using False by simp
  show ?thesis
    by (simp only: to_double_def Let_def e r' ne big if_False)
qed

lemma to_double_numeral:
  "(numeral k :: nat) < 2 ^ 53 \<Longrightarrow> to_double (numeral k) = Num (numeral k)"
  using to_double_of_nat [of "numeral k"] by simp

lemma to_double_zero: "to_double 0 = Num 0"
  by (simp add: to_double_def)

section \<open>The exclusion rule\<close>

lemma uncle_excluded:
  "shouldExcludeCompany ''Uncle McDonald's Diner'' =
     \<lparr> isExcluded = True, reason = Some fast_food, match = Some ''mcdonald's'' \<rparr>"
  by code_simp

lemma express_excluded:
  "shouldExcludeCompany ''mcdonald's express'' =
     \<lparr> isExcluded = True, reason = Some fast_food, match = Some ''mcdonald's'' \<rparr>"
  by code_simp

lemma fast_food_only_when:
  assumes "isExcluded (shouldExcludeCompany name)"
    and "reason (shouldExcludeCompany name) = Some fast_food"
  shows "\<exists>brand \<in> set FAST_FOOD_RESTAURANTS.
           match (shouldExcludeCompany name) = Some brand \<and>
           (toLowerCase name = brand \<or>
            (\<exists>q. toLowerCase name = brand @ '' '' @ q) \<or>
            (\<exists>p. toLowerCase name = p @ '' '' @ brand) \<or>
            (\<exists>p q. toLowerCase name = p @ '' '' @ brand @ '' '' @ q))"
proof -
  from assms obtain brand where
    f: "find (fastFoodHit (toLowerCase name)) FAST_FOOD_RESTAURANTS = Some brand"
    and m: "match (shouldExcludeCompany name) = Some brand"
    by (auto simp: shouldExcludeCompany_def Let_def split: if_splits option.splits)
  from f have "brand \<in> set FAST_FOOD_RESTAURANTS" and "fastFoodHit (toLowerCase name) brand"
    by (auto simp: find_Some_iff)
  with m show ?thesis
    unfolding fastFoodHit_iff by blast
qed

text \<open>
  Claim C3, as amended. \<^verbatim>\<open>shouldExcludeCompany\<close> answers \<^verbatim>\<open>fast_food\<close> only with a
  name of the fast-food list that the lower-cased company equals, begins with and a space,
  ends with after a space, or contains between two spaces. So
  \<^verbatim>\<open>mcdonald's express\<close> is excluded as fast food, and so is
  \<^verbatim>\<open>Uncle McDonald's Diner\<close>: lower-cased, it contains the name between two spaces.
\<close>

theorem fast_food_token_bounded:
  "(isExcluded (shouldExcludeCompany name) \<and> reason (shouldExcludeCompany name) = Some fast_food \<longrightarrow>
      (\<exists>brand \<in> set FAST_FOOD_RESTAURANTS.
         match (shouldExcludeCompany name) = Some brand \<and>
         (toLowerCase name = brand \<or>
          (\<exists>q. toLowerCase name = brand @ '' '' @ q) \<or>
          (\<exists>p. toLowerCase name = p @ '' '' @ brand) \<or>
          (\<exists>p q. toLowerCase name = p @ '' '' @ brand @ '' '' @ q)))) \<and>
   shouldExcludeCompany ''mcdonald's express'' =
     \<lparr> isExcluded = True, reason = Some fast_food, match = Some ''mcdonald's'' \<rparr> \<and>
   shouldExcludeCompany ''Uncle McDonald's Diner'' =
     \<lparr> isExcluded = True, reason = Some fast_food, match = Some ''mcdonald's'' \<rparr>"
  using fast_food_only_when express_excluded uncle_excluded by blast

text \<open>The rule applied to \<^verbatim>\<open>mcdonald's express\<close>, which \<^verbatim>\<open>shouldExcludeCompany\<close> excludes.\<close>

theorem fast_food_token_bounded_witness:
  "isExcluded (shouldExcludeCompany ''mcdonald's express'') \<and>
   reason (shouldExcludeCompany ''mcdonald's express'') = Some fast_food \<and>
   (\<exists>brand \<in> set FAST_FOOD_RESTAURANTS.
      match (shouldExcludeCompany ''mcdonald's express'') = Some brand \<and>
      (toLowerCase ''mcdonald's express'' = brand \<or>
       (\<exists>q. toLowerCase ''mcdonald's express'' = brand @ '' '' @ q) \<or>
       (\<exists>p. toLowerCase ''mcdonald's express'' = p @ '' '' @ brand) \<or>
       (\<exists>p q. toLowerCase ''mcdonald's express'' = p @ '' '' @ brand @ '' '' @ q)))"
proof -
  have e: "shouldExcludeCompany ''mcdonald's express'' =
     \<lparr> isExcluded = True, reason = Some fast_food, match = Some ''mcdonald's'' \<rparr>"
    by code_simp
  have h: "isExcluded (shouldExcludeCompany ''mcdonald's express'') \<and>
      reason (shouldExcludeCompany ''mcdonald's express'') = Some fast_food"
    by (simp add: e)
  from fast_food_token_bounded [of "''mcdonald's express''"] h show ?thesis
    by blast
qed

text \<open>
  Claim C3 as stated says that \<^verbatim>\<open>Uncle McDonald's Diner\<close> is not excluded. It is.
\<close>

theorem uncle_mcdonalds_counterexample:
  "\<not> (isExcluded (shouldExcludeCompany ''Uncle McDonald's Diner'') = False)"
  by code_simp

section \<open>The experience level\<close>

lemma senior_executive:
  "title j = ''Senior Executive Chef'' \<Longrightarrow> calculateExperienceLevel j = ''executive''"
  by (simp add: calculateExperienceLevel_def toLowerCase_def lower_char_def)

text \<open>
  Claim C9. \<^verbatim>\<open>calculateExperienceLevel\<close> looks for the keywords of the executive tier
  anywhere in the lower-cased title, then for those of the senior tier, then for those of
  the entry tier, and answers \<^verbatim>\<open>mid\<close> when none occurs. A title
  \<^verbatim>\<open>Senior Executive Chef\<close> contains the senior keyword \<^verbatim>\<open>senior\<close> and is
  \<^verbatim>\<open>executive\<close> all the same.
\<close>

theorem experience_level_precedence:
  "((\<exists>k \<in> set [''executive chef'', ''head chef'', ''chef de cuisine'', ''culinary director''].
       \<exists>p q. toLowerCase (title j) = p @ k @ q)
     \<longrightarrow> calculateExperienceLevel j = ''executive'') \<and>
   (\<not> (\<exists>k \<in> set [''executive chef'', ''head chef'', ''chef de cuisine'', ''culinary director''].
          \<exists>p q. toLowerCase (title j) = p @ k @ q) \<and>
    (\<exists>k \<in> set [''senior'', ''sr.'', ''lead'', ''sous chef''].
       \<exists>p q. toLowerCase (title j) = p @ k @ q)
     \<longrightarrow> calculateExperienceLevel j = ''senior'') \<and>
   (\<not> (\<exists>k \<in> set [''executive chef'', ''head chef'', ''chef de cuisine'', ''culinary director''].
          \<exists>p q. toLowerCase (title j) = p @ k @ q) \<and>
    \<not> (\<exists>k \<in> set [''senior'', ''sr.'', ''lead'', ''sous chef''].
          \<exists>p q. toLowerCase (title j) = p @ k @ q) \<and>
    (\<exists>k \<in> set [''junior'', ''jr.'', ''entry'', ''trainee'', ''apprentice'', ''commis''].
       \<exists>p q. toLowerCase (title j) = p @ k @ q)
     \<longrightarrow> calculateExperienceLevel j = ''entry'') \<and>
   (\<not> (\<exists>k \<in> set [''executive chef'', ''head chef'', ''chef de cuisine'', ''culinary director'',
                     ''senior'', ''sr.'', ''lead'', ''sous chef'',
                     ''junior'', ''jr.'', ''entry'', ''trainee'', ''apprentice'', ''commis''].
          \<exists>p q. toLowerCase (title j) = p @ k @ q)
     \<longrightarrow> calculateExperienceLevel j = ''mid'') \<and>
   (title j = ''Senior Executive Chef'' \<longrightarrow>
      (\<exists>p q. toLowerCase (title j) = p @ ''senior'' @ q) \<and>
      calculateExperienceLevel j = ''executive'')"
proof -
  have i: "\<And>k. (\<exists>p q. toLowerCase (title j) = p @ k @ q) = includes_str (toLowerCase (title j)) k"
    by (simp add: includes_str_iff)
  have s: "title j = ''Senior Executive Chef'' \<Longrightarrow> includes_str (toLowerCase (title j)) ''senior''"
    by (simp add: toLowerCase_def lower_char_def)
  show ?thesis
    unfolding i using senior_executive [of j] s
    by (simp add: calculateExperienceLevel_def Let_def)
qed

text \<open>One title for each tier.\<close>

theorem experience_level_precedence_witness:
  "calculateExperienceLevel
     \<lparr> title = ''Senior Executive Chef'', company = ''Luna Bistro'', location = ''Austin, TX'',
       posted_at = ''Unknown'', schedule = ''Full-time'', description = ''Lead our kitchen.'',
       highlights = [], extensions = [], apply_link = None, apply_links = [],
       source = ''Indeed'' \<rparr> = ''executive'' \<and>
   calculateExperienceLevel
     \<lparr> title = ''Lead Line Cook'', company = ''Luna Bistro'', location = ''Austin, TX'',
       posted_at = ''Unknown'', schedule = ''Full-time'', description = ''Cook.'',
       highlights = [], extensions = [], apply_link = None, apply_links = [],
       source = ''Indeed'' \<rparr> = ''senior'' \<and>
   calculateExperienceLevel
     \<lparr> title = ''Commis Chef'', company = ''Luna Bistro'', location = ''Austin, TX'',
       posted_at = ''Unknown'', schedule = ''Full-time'', description = ''Cook.'',
       highlights = [], extensions = [], apply_link = None, apply_links = [],
       source = ''Indeed'' \<rparr> = ''entry'' \<and>
   calculateExperienceLevel
     \<lparr> title = ''Line Cook'', company = ''Luna Bistro'', location = ''Austin, TX'',
       posted_at = ''Unknown'', schedule = ''Full-time'', description = ''Cook.'',
       highlights = [], extensions = [], apply_link = None, apply_links = [],
       source = ''Indeed'' \<rparr> = ''mid''"
proof -
  let ?j = "\<lambda>t d. \<lparr> title = t, company = ''Luna Bistro'', location = ''Austin, TX'',
       posted_at = ''Unknown'', schedule = ''Full-time'', description = d,
       highlights = [], extensions = [], apply_link = None, apply_links = [],
       source = ''Indeed'' \<rparr>"
  have a: "calculateExperienceLevel (?j ''Senior Executive Chef'' ''Lead our kitchen.'') = ''executive''"
    using experience_level_precedence [of "?j ''Senior Executive Chef'' ''Lead our kitchen.''"]
    by simp
  have b: "calculateExperienceLevel (?j ''Lead Line Cook'' ''Cook.'') = ''senior''"
    using experience_level_precedence [of "?j ''Lead Line Cook'' ''Cook.''"]
    unfolding includes_str_iff [symmetric]
    by (simp add: toLowerCase_def lower_char_def)
  have c: "calculateExperienceLevel (?j ''Commis Chef'' ''Cook.'') = ''entry''"
    using experience_level_precedence [of "?j ''Commis Chef'' ''Cook.''"]
    unfolding includes_str_iff [symmetric]
    by (simp add: toLowerCase_def lower_char_def)
  have d: "calculateExperienceLevel (?j ''Line Cook'' ''Cook.'') = ''mid''"
    using experience_level_precedence [of "?j ''Line Cook'' ''Cook.''"]
    unfolding includes_str_iff [symmetric]
    by (simp add: toLowerCase_def lower_char_def)
  from a b c d show ?thesis by simp
qed

section \<open>Normalising a provider record\<close>

text \<open>
  What a match of the two patterns says about the text: the title begins with the
  capture, followed by whitespace, a hyphen and whitespace; the description contains a
  keyword, whitespace, the capture (not empty, of characters of its class) and a
  terminator, in that order.
\<close>

lemma or_else_nonempty: "d \<noteq> [] \<Longrightarrow> or_else v d \<noteq> []"
  by (simp add: or_else_def split: option.splits)

lemma titleMatch_sound:
  "titleMatch t = Some c \<Longrightarrow>
     (\<exists>rest. t = c @ rest \<and> sep_here rest) \<and> (\<forall>x \<in> set c. \<not> is_line_terminator x)"
proof (induction t arbitrary: c)
  case Nil
  then show ?case by simp
next
  case (Cons x xs)
  show ?case
  proof (cases "sep_here (x # xs)")
    case True
    with Cons.prems have "c = []" by simp
    with True show ?thesis by simp
  next
    case False
    with Cons.prems obtain c' where c': "titleMatch xs = Some c'" "c = x # c'" "\<not> is_line_terminator x"
      by (auto split: if_splits)
    from Cons.IH [OF c'(1)] obtain rest where "xs = c' @ rest" "sep_here rest"
      and nl: "\<forall>y \<in> set c'. \<not> is_line_terminator y" by blast
    with c' show ?thesis by auto
  qed
qed

lemma group_rest_sound:
  "group_rest s = Some g \<Longrightarrow>
     (\<exists>post. s = g @ post \<and> term_here post) \<and> (\<forall>x \<in> set g. in_group_class x)"
proof (induction s arbitrary: g)
  case Nil
  then show ?case by simp
next
  case (Cons x xs)
  show ?case
  proof (cases "term_here (x # xs)")
    case True
    with Cons.prems have "g = []" by simp
    with True show ?thesis by simp
  next
    case False
    with Cons.prems obtain g' where g': "group_rest xs = Some g'" "g = x # g'" "in_group_class x"
      by (auto split: if_splits)
    from Cons.IH [OF g'(1)] obtain post where "xs = g' @ post" "term_here post"
      and "\<forall>y \<in> set g'. in_group_class y" by blast
    with g' show ?thesis by auto
  qed
qed

lemma lazy_group_sound:
  "lazy_group s = Some g \<Longrightarrow>
     g \<noteq> [] \<and> (\<exists>post. s = g @ post \<and> term_here post) \<and> (\<forall>x \<in> set g. in_group_class x)"
proof (cases s)
  case Nil
  assume "lazy_group s = Some g"
  with Nil show ?thesis by (simp add: lazy_group_def)
next
  case (Cons x xs)
  assume "lazy_group s = Some g"
  with Cons obtain g' where g': "group_rest xs = Some g'" "g = x # g'" "in_group_class x"
    by (auto simp: lazy_group_def split: if_splits)
  from group_rest_sound [OF g'(1)] obtain post where "xs = g' @ post" "term_here post"
    and "\<forall>y \<in> set g'. in_group_class y" by blast
  with g' Cons show ?thesis by auto
qed

lemma try_ws_sound:
  "try_ws k r = Some g \<Longrightarrow> \<exists>n. 0 < n \<and> n \<le> k \<and> lazy_group (drop n r) = Some g"
proof (induction k)
  case 0
  then show ?case by simp
next
  case (Suc k)
  show ?case
  proof (cases "lazy_group (drop (Suc k) r)")
    case None
    with Suc.prems have "try_ws k r = Some g" by simp
    from Suc.IH [OF this] show ?thesis by (meson le_Suc_eq)
  next
    case (Some a)
    with Suc.prems have "a = g" by simp
    with Some show ?thesis by blast
  qed
qed

lemma istartsWith_split:
  "istartsWith s p \<Longrightarrow> length p = n \<Longrightarrow> s = take n s @ drop n s \<and> toLowerCase (take n s) = p"
  by (auto simp: istartsWith_def)

lemma desc_kw_sound:
  assumes "desc_kw s = Some r"
  shows "\<exists>kw. s = kw @ r \<and> toLowerCase kw \<in> {''at'', ''with'', ''for'', ''join''}"
proof -
  from assms consider "istartsWith s ''at''" "r = drop 2 s" | "istartsWith s ''with''" "r = drop 4 s"
    | "istartsWith s ''for''" "r = drop 3 s" | "istartsWith s ''join''" "r = drop 4 s"
    by (auto simp: desc_kw_def split: if_splits)
  then show ?thesis
  proof cases
    case 1
    from istartsWith_split [OF 1(1), of 2] 1(2) show ?thesis
      by (intro exI [of _ "take 2 s"]) simp
  next
    case 2
    from istartsWith_split [OF 2(1), of 4] 2(2) show ?thesis
      by (intro exI [of _ "take 4 s"]) simp
  next
    case 3
    from istartsWith_split [OF 3(1), of 3] 3(2) show ?thesis
      by (intro exI [of _ "take 3 s"]) simp
  next
    case 4
    from istartsWith_split [OF 4(1), of 4] 4(2) show ?thesis
      by (intro exI [of _ "take 4 s"]) simp
  qed
qed

lemma desc_match_here_sound:
  assumes "desc_match_here s = Some g"
  shows "g \<noteq> [] \<and> (\<forall>x \<in> set g. in_group_class x) \<and>
     (\<exists>kw ws post. s = kw @ ws @ g @ post \<and>
        toLowerCase kw \<in> {''at'', ''with'', ''for'', ''join''} \<and>
        ws \<noteq> [] \<and> (\<forall>x \<in> set ws. isspace x) \<and> term_here post)"
proof -
  from assms obtain r where r: "desc_kw s = Some r"
    and t: "try_ws (length (takeWhile isspace r)) r = Some g"
    by (auto simp: desc_match_here_def split: option.splits)
  from desc_kw_sound [OF r] obtain kw where kw: "s = kw @ r"
    "toLowerCase kw \<in> {''at'', ''with'', ''for'', ''join''}" by blast
  from try_ws_sound [OF t] obtain n where n: "0 < n" "n \<le> length (takeWhile isspace r)"
    "lazy_group (drop n r) = Some g" by blast
  from lazy_group_sound [OF n(3)] obtain post where g: "g \<noteq> []" "drop n r = g @ post"
    "term_here post" "\<forall>x \<in> set g. in_group_class x" by blast
  have "take n r = take n (takeWhile isspace r)"
    using n(2) by (metis append_eq_conv_conj takeWhile_dropWhile_id take_append take_all_iff
        append.right_neutral diff_is_0_eq take_0)
  then have ws: "\<forall>x \<in> set (take n r). isspace x"
    by (metis in_set_takeD set_takeWhileD)
  have "n \<le> length r" using n(2) length_takeWhile_le le_trans by blast
  with n(1) have ne: "take n r \<noteq> []" by auto
  have "s = kw @ take n r @ g @ post" using kw(1) g(2) by (metis append_take_drop_id)
  with kw(2) g ws ne show ?thesis by blast
qed

lemma descMatch_sound:
  "descMatch d = Some g \<Longrightarrow>
     g \<noteq> [] \<and> (\<forall>x \<in> set g. in_group_class x) \<and>
     (\<exists>pre kw ws post. d = pre @ kw @ ws @ g @ post \<and>
        toLowerCase kw \<in> {''at'', ''with'', ''for'', ''join''} \<and>
        ws \<noteq> [] \<and> (\<forall>x \<in> set ws. isspace x) \<and> term_here post)"
proof (induction d)
  case Nil
  then show ?case by simp
next
  case (Cons x xs)
  show ?case
  proof (cases "desc_match_here (x # xs)")
    case (Some a)
    with Cons.prems have "desc_match_here (x # xs) = Some g" by simp
    from desc_match_here_sound [OF this] obtain kw ws post where
      "g \<noteq> []" "\<forall>y \<in> set g. in_group_class y" "x # xs = [] @ kw @ ws @ g @ post"
      "toLowerCase kw \<in> {''at'', ''with'', ''for'', ''join''}" "ws \<noteq> []"
      "\<forall>y \<in> set ws. isspace y" "term_here post" by auto
    then show ?thesis by blast
  next
    case None
    with Cons.prems have "descMatch xs = Some g" by simp
    from Cons.IH [OF this] obtain pre kw ws post where
      "g \<noteq> []" "\<forall>y \<in> set g. in_group_class y" "xs = pre @ kw @ ws @ g @ post"
      "toLowerCase kw \<in> {''at'', ''with'', ''for'', ''join''}" "ws \<noteq> []"
      "\<forall>y \<in> set ws. isspace y" "term_here post" by blast
    then have "x # xs = (x # pre) @ kw @ ws @ g @ post" by simp
    with \<open>g \<noteq> []\<close> \<open>\<forall>y \<in> set g. in_group_class y\<close>
      \<open>toLowerCase kw \<in> {''at'', ''with'', ''for'', ''join''}\<close> \<open>ws \<noteq> []\<close>
      \<open>\<forall>y \<in> set ws. isspace y\<close> \<open>term_here post\<close>
    show ?thesis by blast
  qed
qed


lemma companyName_of_provider:
  "raw_company_name r = Some c \<Longrightarrow> c \<noteq> [] \<Longrightarrow> companyName_of r = Some c"
  by (simp add: companyName_of_def truthy_def)

lemma companyName_of_title:
  "\<not> truthy (raw_company_name r) \<Longrightarrow> raw_title r = Some t \<Longrightarrow> titleMatch t = Some c \<Longrightarrow>
   c \<noteq> [] \<Longrightarrow> companyName_of r = Some c"
  by (auto simp: companyName_of_def truthy_def Let_def)

lemma no_title_capture:
  "\<forall>t c. raw_title r = Some t \<and> titleMatch t = Some c \<longrightarrow> c = [] \<Longrightarrow>
   \<not> truthy (case raw_title r of None \<Rightarrow> None | Some t \<Rightarrow> if t = [] then None else titleMatch t)"
  by (auto simp: truthy_def split: option.splits)

lemma companyName_of_description:
  assumes "\<not> truthy (raw_company_name r)"
    and "\<forall>t c. raw_title r = Some t \<and> titleMatch t = Some c \<longrightarrow> c = []"
    and "raw_description r = Some d" and "descMatch d = Some g"
  shows "companyName_of r = Some (trim g)"
proof -
  from assms(4) have "d \<noteq> []" by auto
  with assms(1,3,4) no_title_capture [OF assms(2)] show ?thesis
    by (simp add: companyName_of_def Let_def)
qed

lemma companyName_of_none:
  assumes "\<not> truthy (raw_company_name r)"
    and "\<forall>t c. raw_title r = Some t \<and> titleMatch t = Some c \<longrightarrow> c = []"
    and "\<forall>d g. raw_description r = Some d \<and> descMatch d = Some g \<longrightarrow> trim g = []"
  shows "\<not> truthy (companyName_of r)"
proof -
  have "\<not> truthy (companyName_of r)" if "raw_description r = None"
    using that assms(1) no_title_capture [OF assms(2)]
    by (simp add: companyName_of_def Let_def)
  moreover have "\<not> truthy (companyName_of r)" if d: "raw_description r = Some d" for d
  proof (cases "descMatch d")
    case None
    with d assms(1) no_title_capture [OF assms(2)] show ?thesis
      by (simp add: companyName_of_def Let_def)
  next
    case (Some g)
    with d assms(3) have "trim g = []" by blast
    with Some d assms(1) no_title_capture [OF assms(2)] show ?thesis
      by (simp add: companyName_of_def Let_def truthy_def)
  qed
  ultimately show ?thesis by (cases "raw_description r") auto
qed

lemma or_else_falsy: "\<not> truthy v \<Longrightarrow> or_else v d = d"
  by (auto simp: truthy_def or_else_def split: option.splits)

lemma or_else_Some: "s \<noteq> [] \<Longrightarrow> or_else (Some s) d = s"
  by (simp add: or_else_def)

text \<open>
  Claim C7. \<open>processedJob_of\<close>, the callback that \<^verbatim>\<open>searchJobs\<close> maps over the
  provider's records, has no failing branch: every method it calls on a field
  (\<^verbatim>\<open>match\<close>, \<^verbatim>\<open>trim\<close>, \<^verbatim>\<open>replace\<close>) is guarded by the truthiness of that field, so the
  model is a total function from records to jobs. Title, company, location and
  description of the result are never empty: each is the field when it is truthy and its
  sentinel otherwise. The company is the provider's field when truthy; else the capture of
  the title pattern when that is not empty; else the trimmed capture of the description
  pattern when that is not empty; else \<^verbatim>\<open>Unknown Company\<close>.
\<close>

theorem normalize_total:
  "title (processedJob_of r) \<noteq> [] \<and> company (processedJob_of r) \<noteq> [] \<and>
   location (processedJob_of r) \<noteq> [] \<and> description (processedJob_of r) \<noteq> [] \<and>
   title (processedJob_of r) = or_else (raw_title r) ''Unknown Title'' \<and>
   location (processedJob_of r) = or_else (raw_location r) ''Unknown Location'' \<and>
   description (processedJob_of r) = or_else (raw_description r) ''No description available'' \<and>
   (\<forall>c. raw_company_name r = Some c \<and> c \<noteq> [] \<longrightarrow> company (processedJob_of r) = c) \<and>
   (\<forall>t c. \<not> truthy (raw_company_name r) \<and> raw_title r = Some t \<and> titleMatch t = Some c \<and> c \<noteq> []
      \<longrightarrow> company (processedJob_of r) = c \<and> (\<exists>rest. t = c @ rest \<and> sep_here rest)) \<and>
   (\<forall>d g. \<not> truthy (raw_company_name r) \<and>
      (\<forall>t c. raw_title r = Some t \<and> titleMatch t = Some c \<longrightarrow> c = []) \<and>
      raw_description r = Some d \<and> descMatch d = Some g \<and> trim g \<noteq> []
      \<longrightarrow> company (processedJob_of r) = trim g) \<and>
   (\<not> truthy (raw_company_name r) \<and>
      (\<forall>t c. raw_title r = Some t \<and> titleMatch t = Some c \<longrightarrow> c = []) \<and>
      (\<forall>d g. raw_description r = Some d \<and> descMatch d = Some g \<longrightarrow> trim g = [])
      \<longrightarrow> company (processedJob_of r) = ''Unknown Company'')"
proof -
  have c: "company (processedJob_of r) = or_else (companyName_of r) ''Unknown Company''"
    by (simp add: processedJob_of_def)
  have 1: "title (processedJob_of r) \<noteq> []" "location (processedJob_of r) \<noteq> []"
    "description (processedJob_of r) \<noteq> []" "company (processedJob_of r) \<noteq> []"
    by (simp_all add: processedJob_of_def or_else_nonempty)
  have 2: "title (processedJob_of r) = or_else (raw_title r) ''Unknown Title''"
    "location (processedJob_of r) = or_else (raw_location r) ''Unknown Location''"
    "description (processedJob_of r) = or_else (raw_description r) ''No description available''"
    by (simp_all add: processedJob_of_def)
  have 3: "\<forall>c. raw_company_name r = Some c \<and> c \<noteq> [] \<longrightarrow> company (processedJob_of r) = c"
    using companyName_of_provider [of r] by (simp add: c or_else_Some)
  have 4: "\<forall>t c. \<not> truthy (raw_company_name r) \<and> raw_title r = Some t \<and> titleMatch t = Some c \<and> c \<noteq> []
      \<longrightarrow> company (processedJob_of r) = c \<and> (\<exists>rest. t = c @ rest \<and> sep_here rest)"
    using companyName_of_title [of r] titleMatch_sound by (simp add: c or_else_Some)
  have 5: "\<forall>d g. \<not> truthy (raw_company_name r) \<and>
      (\<forall>t c. raw_title r = Some t \<and> titleMatch t = Some c \<longrightarrow> c = []) \<and>
      raw_description r = Some d \<and> descMatch d = Some g \<and> trim g \<noteq> []
      \<longrightarrow> company (processedJob_of r) = trim g"
  proof (intro allI impI)
    fix d g
    assume h: "\<not> truthy (raw_company_name r) \<and>
      (\<forall>t c. raw_title r = Some t \<and> titleMatch t = Some c \<longrightarrow> c = []) \<and>
      raw_description r = Some d \<and> descMatch d = Some g \<and> trim g \<noteq> []"
    then have "companyName_of r = Some (trim g)"
      using companyName_of_description [of r d g] by blast
    with h show "company (processedJob_of r) = trim g"
      by (simp add: c or_else_Some)
  qed
  have 6: "\<not> truthy (raw_company_name r) \<and>
      (\<forall>t c. raw_title r = Some t \<and> titleMatch t = Some c \<longrightarrow> c = []) \<and>
      (\<forall>d g. raw_description r = Some d \<and> descMatch d = Some g \<longrightarrow> trim g = [])
      \<longrightarrow> company (processedJob_of r) = ''Unknown Company''"
  proof
    assume h: "\<not> truthy (raw_company_name r) \<and>
      (\<forall>t c. raw_title r = Some t \<and> titleMatch t = Some c \<longrightarrow> c = []) \<and>
      (\<forall>d g. raw_description r = Some d \<and> descMatch d = Some g \<longrightarrow> trim g = [])"
    then have "\<not> truthy (companyName_of r)"
      using companyName_of_none [of r] by blast
    then show "company (processedJob_of r) = ''Unknown Company''"
      by (simp add: c or_else_falsy)
  qed
  from 1 2 3 4 5 6 show ?thesis by blast
qed

text \<open>
  A record whose company comes from the title, one whose company comes from the
  description, and one with no field at all.
\<close>

theorem normalize_total_witness:
  "company (processedJob_of
      \<lparr> raw_title = Some ''Luna Bistro - Executive Chef'', raw_company_name = None,
        raw_location = None, raw_description = Some ''Join our team at Luna Bistro in Austin.'',
        raw_posted_at = None, raw_schedule = None, raw_job_highlights = None,
        raw_extensions = None, raw_apply_link = None, raw_apply_links = None,
        raw_via = None \<rparr>) = ''Luna Bistro'' \<and>
   company (processedJob_of
      \<lparr> raw_title = Some ''Executive Chef'', raw_company_name = None,
        raw_location = None, raw_description = Some ''Join our team at Luna Bistro in Austin.'',
        raw_posted_at = None, raw_schedule = None, raw_job_highlights = None,
        raw_extensions = None, raw_apply_link = None, raw_apply_links = None,
        raw_via = None \<rparr>) = ''our team at Luna Bistro'' \<and>
   company (processedJob_of
      \<lparr> raw_title = None, raw_company_name = None,
        raw_location = None, raw_description = None,
        raw_posted_at = None, raw_schedule = None, raw_job_highlights = None,
        raw_extensions = None, raw_apply_link = None, raw_apply_links = None,
        raw_via = None \<rparr>) = ''Unknown Company''"
proof -
  let ?r = "\<lambda>t d. \<lparr> raw_title = t, raw_company_name = None,
        raw_location = None, raw_description = d,
        raw_posted_at = None, raw_schedule = None, raw_job_highlights = None,
        raw_extensions = None, raw_apply_link = None, raw_apply_links = None,
        raw_via = None \<rparr>"
  have t1: "titleMatch ''Luna Bistro - Executive Chef'' = Some ''Luna Bistro''" by code_simp
  have t2: "titleMatch ''Executive Chef'' = None" by code_simp
  have d2: "descMatch ''Join our team at Luna Bistro in Austin.'' = Some ''our team at Luna Bistro''"
    by code_simp
  have g2: "trim ''our team at Luna Bistro'' = ''our team at Luna Bistro''" by code_simp
  have a: "company (processedJob_of (?r (Some ''Luna Bistro - Executive Chef'')
              (Some ''Join our team at Luna Bistro in Austin.''))) = ''Luna Bistro''"
    using normalize_total [of "?r (Some ''Luna Bistro - Executive Chef'')
              (Some ''Join our team at Luna Bistro in Austin.'')"] t1
    by (simp add: truthy_def)
  have b: "company (processedJob_of (?r (Some ''Executive Chef'')
              (Some ''Join our team at Luna Bistro in Austin.''))) = ''our team at Luna Bistro''"
    using normalize_total [of "?r (Some ''Executive Chef'')
              (Some ''Join our team at Luna Bistro in Austin.'')"] t2 d2 g2
    by (simp add: truthy_def)
  have c: "company (processedJob_of (?r None None)) = ''Unknown Company''"
    using normalize_total [of "?r None None"]
    by (simp add: truthy_def)
  from a b c show ?thesis by simp
qed

section \<open>The salary\<close>

lemmas salary_eval =
  apply_match_def strip_commas_def truthy_def or_else_def period_of_def toLowerCase_def
  lower_char_def parseFloat_def is_digit_def digits_val_def Let_def to_double_numeral
  to_double_zero

lemma salary_pattern_example:
  "salaryMatch ''Pay: $18 - $22 per hour'' = Some (''18'', Some ''22'', Some ''hour'')"
  by code_simp

text \<open>
  The example of the specification holds: a job without highlight blocks whose
  description is \<^verbatim>\<open>Pay: $18 - $22 per hour\<close> has the salary 18 to 22, hourly, in USD.
\<close>

lemma salary_example:
  "description j = ''Pay: $18 - $22 per hour'' \<Longrightarrow> highlights j = [] \<Longrightarrow>
   extractSalaryInfo j =
     \<lparr> sal_min = Some (Num 18), sal_max = Some (Num 22), sal_currency = ''USD'',
       sal_period = ''hourly'' \<rparr>"
  by (simp add: extractSalaryInfo_def salary_pattern_example num_truthy_def salary_eval
      del: salaryMatch.simps)

lemma salary_pattern_hourly:
  "salaryMatch ''$20 per hour'' = Some (''20'', None, Some ''hour'')"
  by code_simp

lemma salary_pattern_plain:
  "salaryMatch ''$50,000'' = Some (''50,000'', None, None)"
  by code_simp

text \<open>
  Claim C8 says that the first match wins and that the period is yearly when the match
  names none. The \<^verbatim>\<open>break\<close> of line 402 leaves the loop over the items of one block
  only, so a later block titled \<^verbatim>\<open>Compensation\<close> is searched as well, and its match
  replaces the amounts but keeps the period found before. With the blocks
  \<^verbatim>\<open>["$20 per hour"]\<close> and \<^verbatim>\<open>["$50,000"]\<close> the result is 50000 hourly: neither the
  first match (20 hourly) nor the second with the default period (50000 yearly).
\<close>

theorem salary_second_block_overrides:
  "extractSalaryInfo
     \<lparr> title = ''Line Cook'', company = ''Luna Bistro'', location = ''Austin, TX'',
       posted_at = ''Unknown'', schedule = ''Full-time'', description = ''Cook with us.'',
       highlights = [\<lparr> hl_title = ''Compensation'', hl_items = [''$20 per hour''] \<rparr>,
                     \<lparr> hl_title = ''Compensation'', hl_items = [''$50,000''] \<rparr>],
       extensions = [], apply_link = None, apply_links = [], source = ''Indeed'' \<rparr> =
   \<lparr> sal_min = Some (Num 50000), sal_max = Some (Num 50000), sal_currency = ''USD'',
     sal_period = ''hourly'' \<rparr>"
  by (simp add: extractSalaryInfo_def salary_pattern_hourly salary_pattern_plain num_truthy_def
      salary_eval del: salaryMatch.simps)

text \<open>
  The same happens between the highlights and the description: the description is
  searched when the minimum found in the highlights is falsy, which zero is (line 410).
\<close>

lemma salary_pattern_zero:
  "salaryMatch ''$0 - $25 per hour'' = Some (''0'', Some ''25'', Some ''hour'')"
  by code_simp

lemma salary_pattern_bonus:
  "salaryMatch ''Bonus of $500.'' = Some (''500.'', None, None)"
  by code_simp

lemma salary_zero_falls_through:
  "extractSalaryInfo
     \<lparr> title = ''Line Cook'', company = ''Luna Bistro'', location = ''Austin, TX'',
       posted_at = ''Unknown'', schedule = ''Full-time'', description = ''Bonus of $500.'',
       highlights = [\<lparr> hl_title = ''Compensation'', hl_items = [''$0 - $25 per hour''] \<rparr>],
       extensions = [], apply_link = None, apply_links = [], source = ''Indeed'' \<rparr> =
   \<lparr> sal_min = Some (Num 500), sal_max = Some (Num 500), sal_currency = ''USD'',
     sal_period = ''hourly'' \<rparr>"
  by (simp add: extractSalaryInfo_def salary_pattern_zero salary_pattern_bonus num_truthy_def
      salary_eval del: salaryMatch.simps)

section \<open>Pagination\<close>







lemma loop_stops_on_empty:
  assumes "jobs (fst (searchJobs e s query loc token)) = []"
  shows "searchAllJobs_loop e query loc maxPages s token acc =
     (acc \<lparr> currentPage := Suc (currentPage acc),
            pages := pages acc @ [fst (searchJobs e s query loc token)] \<rparr>,
      snd (searchJobs e s query loc token))"
proof -
  obtain result s' where r: "searchJobs e s query loc token = (result, s')"
    by (cases "searchJobs e s query loc token")
  with assms have "jobs result = []" by simp
  with r show ?thesis
    by (subst searchAllJobs_loop.simps) simp
qed




section \<open>Enrichment\<close>

lemma companyNameSearch_calls:
  "calls (snd (companyNameSearch e j pj s)) = calls s @ [ByCompanyName (company j)]"
proof -
  obtain r w where f: "findEmailsByCompanyName e (world s) (company j) = (r, w)"
    by (cases "findEmailsByCompanyName e (world s) (company j)")
  then have d: "do_byCompanyName e s (company j) =
      (r, \<lparr> world = w, calls = calls s @ [ByCompanyName (company j)] \<rparr>)"
    by (simp add: do_byCompanyName_def)
  show ?thesis
    by (cases r) (simp_all add: companyNameSearch_def d)
qed

lemma enrich_calls:
  "calls (snd (enrich e j pj s)) =
     calls s @ WebsiteLookup (company j) #
       (case fst (getWebsiteUrlFromSearchAPI e (world s) (company j)) of
          Inl err \<Rightarrow> []
        | Inr companyUrl \<Rightarrow>
            if \<not> truthy companyUrl then [ByCompanyName (company j)]
            else
              (case getDomainFromUrl e (or_else companyUrl []) of
                 Inl err \<Rightarrow> []
               | Inr domain \<Rightarrow>
                   if \<not> truthy domain then [ByCompanyName (company j)]
                   else
                     ByDomain (or_else domain []) (company j) #
                       (case fst (findEmailsWithHunter e
                                    (snd (getWebsiteUrlFromSearchAPI e (world s) (company j)))
                                    (or_else domain []) (company j)) of
                          Inl err \<Rightarrow> []
                        | Inr emails \<Rightarrow> if emails = [] then [ByCompanyName (company j)] else [])))"
proof -
  obtain r w where f: "getWebsiteUrlFromSearchAPI e (world s) (company j) = (r, w)"
    by (cases "getWebsiteUrlFromSearchAPI e (world s) (company j)")
  let ?s1 = "\<lparr> world = w, calls = calls s @ [WebsiteLookup (company j)] \<rparr>"
  have d: "do_website e s (company j) = (r, ?s1)"
    using f by (simp add: do_website_def)
  show ?thesis
  proof (cases r)
    case (Inl err)
    with d f show ?thesis by (simp add: enrich_def)
  next
    case (Inr companyUrl)
    show ?thesis
    proof (cases "truthy companyUrl")
      case False
      with Inr d f show ?thesis by (simp add: enrich_def companyNameSearch_calls)
    next
      case True
      note url = this
      show ?thesis
      proof (cases "getDomainFromUrl e (or_else companyUrl [])")
        case (Inl err)
        with Inr d f url show ?thesis by (simp add: enrich_def)
      next
        case dom: (Inr domain)
        show ?thesis
        proof (cases "truthy domain")
          case False
          with dom Inr d f url show ?thesis by (simp add: enrich_def companyNameSearch_calls)
        next
          case True
          obtain r2 w2 where f2: "findEmailsWithHunter e w (or_else domain []) (company j) = (r2, w2)"
            by (cases "findEmailsWithHunter e w (or_else domain []) (company j)")
          let ?s2 = "\<lparr> world = w2, calls = calls ?s1 @ [ByDomain (or_else domain []) (company j)] \<rparr>"
          have d2: "do_byDomain e ?s1 (or_else domain []) (company j) = (r2, ?s2)"
            using f2 by (simp add: do_byDomain_def)
          show ?thesis
          proof (cases r2)
            case (Inl err)
            with True dom Inr d f url d2 f2 show ?thesis by (simp add: enrich_def)
          next
            case em: (Inr emails)
            with True dom Inr d f url d2 f2 show ?thesis
              by (cases "emails = []") (simp_all add: enrich_def companyNameSearch_calls)
          qed
        qed
      qed
    qed
  qed
qed

text \<open>
  A lookup that throws leaves the \<^verbatim>\<open>try\<close> block (lines 280-358) for its \<^verbatim>\<open>catch\<close>,
  which only logs: no lookup follows, and the e-mails of the job stay as they were.
\<close>

lemma enrich_website_throws:
  assumes "fst (getWebsiteUrlFromSearchAPI e (world s) (company j)) = Inl err"
  shows "calls (snd (enrich e j pj s)) = calls s @ [WebsiteLookup (company j)] \<and>
         pj_emails (fst (enrich e j pj s)) = pj_emails pj"
proof -
  obtain r w where f: "getWebsiteUrlFromSearchAPI e (world s) (company j) = (r, w)"
    by (cases "getWebsiteUrlFromSearchAPI e (world s) (company j)")
  with assms have r: "r = Inl err" by simp
  have d: "do_website e s (company j) = (r, \<lparr> world = w, calls = calls s @ [WebsiteLookup (company j)] \<rparr>)"
    using f by (simp add: do_website_def)
  show ?thesis by (simp add: enrich_def d r)
qed

lemma enrich_domain_throws:
  assumes "fst (getWebsiteUrlFromSearchAPI e (world s) (company j)) = Inr companyUrl"
    and "truthy companyUrl"
    and "getDomainFromUrl e (or_else companyUrl []) = Inl err"
  shows "calls (snd (enrich e j pj s)) = calls s @ [WebsiteLookup (company j)] \<and>
         pj_emails (fst (enrich e j pj s)) = pj_emails pj"
proof -
  obtain r w where f: "getWebsiteUrlFromSearchAPI e (world s) (company j) = (r, w)"
    by (cases "getWebsiteUrlFromSearchAPI e (world s) (company j)")
  with assms have r: "r = Inr companyUrl" by simp
  have d: "do_website e s (company j) = (r, \<lparr> world = w, calls = calls s @ [WebsiteLookup (company j)] \<rparr>)"
    using f by (simp add: do_website_def)
  show ?thesis by (simp add: enrich_def d r assms(2,3))
qed

lemma enrich_hunter_throws:
  assumes "fst (getWebsiteUrlFromSearchAPI e (world s) (company j)) = Inr companyUrl"
    and "truthy companyUrl"
    and "getDomainFromUrl e (or_else companyUrl []) = Inr domain"
    and "truthy domain"
    and "fst (findEmailsWithHunter e (snd (getWebsiteUrlFromSearchAPI e (world s) (company j)))
                (or_else domain []) (company j)) = Inl err"
  shows "calls (snd (enrich e j pj s)) =
           calls s @ [WebsiteLookup (company j), ByDomain (or_else domain []) (company j)] \<and>
         pj_emails (fst (enrich e j pj s)) = pj_emails pj"
proof -
  obtain r w where f: "getWebsiteUrlFromSearchAPI e (world s) (company j) = (r, w)"
    by (cases "getWebsiteUrlFromSearchAPI e (world s) (company j)")
  with assms have r: "r = Inr companyUrl" by simp
  let ?s1 = "\<lparr> world = w, calls = calls s @ [WebsiteLookup (company j)] \<rparr>"
  have d: "do_website e s (company j) = (r, ?s1)"
    using f by (simp add: do_website_def)
  obtain r2 w2 where f2: "findEmailsWithHunter e w (or_else domain []) (company j) = (r2, w2)"
    by (cases "findEmailsWithHunter e w (or_else domain []) (company j)")
  with assms(5) f have r2: "r2 = Inl err" by simp
  have d2: "do_byDomain e ?s1 (or_else domain []) (company j) =
      (r2, \<lparr> world = w2, calls = calls ?s1 @ [ByDomain (or_else domain []) (company j)] \<rparr>)"
    using f2 by (simp add: do_byDomain_def)
  show ?thesis by (simp add: enrich_def d r assms(2-4) d2 r2)
qed

lemma luna_kept:
  "shouldExcludeCompany ''Luna Bistro'' = \<lparr> isExcluded = False, reason = None, match = None \<rparr>"
  by code_simp

text \<open>The pipeline over one job that is not excluded, with the enrichment enabled.\<close>

lemma processJobs_single:
  assumes "\<not> isExcluded (shouldExcludeCompany (company j))"
  shows "processJobsForDatabase e s [j] True =
     (case enrich e j (newProcessedJob j (isoNow e (world s))) s of
        (pj, s') \<Rightarrow>
          (\<lparr> processedJobs = [pj], excludedCount = 0, excludedByCompany = 0,
             excludedByFastFood = 0 \<rparr>, s'))"
  using assms by (simp add: processJobsForDatabase_def processJob_def Let_def split: prod.splits)

text \<open>
  Claim C6 says that the search by company name is called if and only if the search by
  domain returned no contacts, no domain was derived, or no website was found, and once
  for a URL from which no domain can be derived. That holds for lookups that return. A
  lookup that throws also finds no website, derives no domain or returns no contact, and
  then the search by company name is not called: in the world in which
  \<^verbatim>\<open>getDomainFromUrl\<close> throws on the URL that the website lookup returned, the only
  call for the job at Luna Bistro is the website lookup, and the job is kept without
  contacts; and likewise when the website lookup or the search by domain throws.
\<close>

theorem throwing_lookup_skips_fallback:
  "(case processJobsForDatabase domain_throws_env s0 [processedJob_of luna_raw] True of
      (out, s) \<Rightarrow>
        (map pj_company_website (processedJobs out), map pj_company_domain (processedJobs out),
         map pj_emails (processedJobs out), calls s)) =
     ([Some ''lunabistro''], [None], [[]], [WebsiteLookup ''Luna Bistro'']) \<and>
   (case processJobsForDatabase website_throws_env s0 [processedJob_of luna_raw] True of
      (out, s) \<Rightarrow>
        (map pj_company_website (processedJobs out), map pj_company_domain (processedJobs out),
         map pj_emails (processedJobs out), calls s)) =
     ([None], [None], [[]], [WebsiteLookup ''Luna Bistro'']) \<and>
   (case processJobsForDatabase hunter_throws_env s0 [processedJob_of luna_raw] True of
      (out, s) \<Rightarrow>
        (map pj_company_website (processedJobs out), map pj_company_domain (processedJobs out),
         map pj_emails (processedJobs out), calls s)) =
     ([Some ''lunabistro''], [Some ''lunabistro.example''], [[]],
      [WebsiteLookup ''Luna Bistro'', ByDomain ''lunabistro.example'' ''Luna Bistro''])"
proof -
  let ?j = "processedJob_of luna_raw"
  have c: "company ?j = ''Luna Bistro''"
    by (simp add: processedJob_of_def companyName_of_def luna_raw_def truthy_def or_else_def)
  have k: "\<not> isExcluded (shouldExcludeCompany (company ?j))"
    by (simp add: c luna_kept)
  have n: "pj_company_website (newProcessedJob ?j t) = None"
    "pj_company_domain (newProcessedJob ?j t) = None" "pj_emails (newProcessedJob ?j t) = []" for t
    by (simp_all add: newProcessedJob_def Let_def)
  have 1: "enrich domain_throws_env ?j pj s0 =
      (pj \<lparr> pj_company_website := Some ''lunabistro'' \<rparr>,
       \<lparr> world = 1, calls = [WebsiteLookup ''Luna Bistro''] \<rparr>)" for pj
    by (simp add: enrich_def do_website_def domain_throws_env_def sample_env_def s0_def c
        truthy_def or_else_def)
  have 2: "enrich website_throws_env ?j pj s0 =
      (pj, \<lparr> world = 1, calls = [WebsiteLookup ''Luna Bistro''] \<rparr>)" for pj
    by (simp add: enrich_def do_website_def website_throws_env_def sample_env_def s0_def c)
  have 3: "enrich hunter_throws_env ?j pj s0 =
      (pj \<lparr> pj_company_website := Some ''lunabistro'',
            pj_company_domain := Some ''lunabistro.example'' \<rparr>,
       \<lparr> world = 2, calls = [WebsiteLookup ''Luna Bistro'',
                              ByDomain ''lunabistro.example'' ''Luna Bistro''] \<rparr>)" for pj
    by (simp add: enrich_def do_website_def do_byDomain_def hunter_throws_env_def sample_env_def
        s0_def c truthy_def or_else_def)
  show ?thesis
    by (simp add: processJobs_single [OF k] 1 2 3 n)
qed

text \<open>
  Claim C6, for lookups that return or throw. When the website lookup returns a truthy
  URL for which \<^verbatim>\<open>getDomainFromUrl\<close> returns no domain, the enrichment of a job calls
  the website lookup and then the search by company name, once, and never the search by
  domain. In general the search by company name is called once when the website lookup
  returned no URL, or \<^verbatim>\<open>getDomainFromUrl\<close> returned no domain for the URL, or the
  search by domain returned no contact, and is not called otherwise; it is only ever
  called with the company of the job. When the website lookup, \<^verbatim>\<open>getDomainFromUrl\<close> or
  the search by domain throws, no call follows the one that threw, and the e-mails of the
  job are left as they were. For a job that is not excluded, these are the calls that
  \<^verbatim>\<open>processJobsForDatabase\<close> makes for it when the enrichment is enabled; when it is
  disabled, no call is made.
\<close>

theorem enrichment_fallback_order:
  "(\<forall>companyUrl domain.
      fst (getWebsiteUrlFromSearchAPI e (world s) (company j)) = Inr companyUrl \<and> truthy companyUrl \<and>
      getDomainFromUrl e (or_else companyUrl []) = Inr domain \<and> \<not> truthy domain
      \<longrightarrow> calls (snd (enrich e j pj s)) =
            calls s @ [WebsiteLookup (company j), ByCompanyName (company j)]) \<and>
   (\<exists>new. calls (snd (enrich e j pj s)) = calls s @ new \<and>
      (\<forall>n. ByCompanyName n \<in> set new \<longrightarrow> n = company j) \<and>
      count_list new (ByCompanyName (company j)) =
        (if (\<exists>companyUrl. fst (getWebsiteUrlFromSearchAPI e (world s) (company j)) = Inr companyUrl \<and>
               (\<not> truthy companyUrl \<or>
                (\<exists>domain. getDomainFromUrl e (or_else companyUrl []) = Inr domain \<and>
                   (\<not> truthy domain \<or>
                    fst (findEmailsWithHunter e
                           (snd (getWebsiteUrlFromSearchAPI e (world s) (company j)))
                           (or_else domain []) (company j)) = Inr []))))
         then 1 else 0)) \<and>
   (\<forall>err. fst (getWebsiteUrlFromSearchAPI e (world s) (company j)) = Inl err
      \<longrightarrow> calls (snd (enrich e j pj s)) = calls s @ [WebsiteLookup (company j)] \<and>
          pj_emails (fst (enrich e j pj s)) = pj_emails pj) \<and>
   (\<forall>companyUrl err.
      fst (getWebsiteUrlFromSearchAPI e (world s) (company j)) = Inr companyUrl \<and> truthy companyUrl \<and>
      getDomainFromUrl e (or_else companyUrl []) = Inl err
      \<longrightarrow> calls (snd (enrich e j pj s)) = calls s @ [WebsiteLookup (company j)] \<and>
          pj_emails (fst (enrich e j pj s)) = pj_emails pj) \<and>
   (\<forall>companyUrl domain err.
      fst (getWebsiteUrlFromSearchAPI e (world s) (company j)) = Inr companyUrl \<and> truthy companyUrl \<and>
      getDomainFromUrl e (or_else companyUrl []) = Inr domain \<and> truthy domain \<and>
      fst (findEmailsWithHunter e (snd (getWebsiteUrlFromSearchAPI e (world s) (company j)))
             (or_else domain []) (company j)) = Inl err
      \<longrightarrow> calls (snd (enrich e j pj s)) =
            calls s @ [WebsiteLookup (company j), ByDomain (or_else domain []) (company j)] \<and>
          pj_emails (fst (enrich e j pj s)) = pj_emails pj) \<and>
   (\<not> isExcluded (shouldExcludeCompany (company j)) \<longrightarrow>
      snd (processJob e True j (out, s)) =
        snd (enrich e j (newProcessedJob j (isoNow e (world s))) s)) \<and>
   snd (processJob e False j (out, s)) = s"
proof -
  have a: "\<forall>companyUrl domain.
      fst (getWebsiteUrlFromSearchAPI e (world s) (company j)) = Inr companyUrl \<and> truthy companyUrl \<and>
      getDomainFromUrl e (or_else companyUrl []) = Inr domain \<and> \<not> truthy domain
      \<longrightarrow> calls (snd (enrich e j pj s)) =
            calls s @ [WebsiteLookup (company j), ByCompanyName (company j)]"
    by (simp add: enrich_calls)
  let ?new = "WebsiteLookup (company j) #
       (case fst (getWebsiteUrlFromSearchAPI e (world s) (company j)) of
          Inl err \<Rightarrow> []
        | Inr companyUrl \<Rightarrow>
            if \<not> truthy companyUrl then [ByCompanyName (company j)]
            else
              (case getDomainFromUrl e (or_else companyUrl []) of
                 Inl err \<Rightarrow> []
               | Inr domain \<Rightarrow>
                   if \<not> truthy domain then [ByCompanyName (company j)]
                   else
                     ByDomain (or_else domain []) (company j) #
                       (case fst (findEmailsWithHunter e
                                    (snd (getWebsiteUrlFromSearchAPI e (world s) (company j)))
                                    (or_else domain []) (company j)) of
                          Inl err \<Rightarrow> []
                        | Inr emails \<Rightarrow> if emails = [] then [ByCompanyName (company j)] else [])))"
  have n1: "\<forall>n. ByCompanyName n \<in> set ?new \<longrightarrow> n = company j"
    by (auto split: sum.splits if_splits)
  have n2: "count_list ?new (ByCompanyName (company j)) =
        (if (\<exists>companyUrl. fst (getWebsiteUrlFromSearchAPI e (world s) (company j)) = Inr companyUrl \<and>
               (\<not> truthy companyUrl \<or>
                (\<exists>domain. getDomainFromUrl e (or_else companyUrl []) = Inr domain \<and>
                   (\<not> truthy domain \<or>
                    fst (findEmailsWithHunter e
                           (snd (getWebsiteUrlFromSearchAPI e (world s) (company j)))
                           (or_else domain []) (company j)) = Inr []))))
         then 1 else 0)"
    by (auto split: sum.splits if_splits)
  have b: "\<exists>new. calls (snd (enrich e j pj s)) = calls s @ new \<and>
      (\<forall>n. ByCompanyName n \<in> set new \<longrightarrow> n = company j) \<and>
      count_list new (ByCompanyName (company j)) =
        (if (\<exists>companyUrl. fst (getWebsiteUrlFromSearchAPI e (world s) (company j)) = Inr companyUrl \<and>
               (\<not> truthy companyUrl \<or>
                (\<exists>domain. getDomainFromUrl e (or_else companyUrl []) = Inr domain \<and>
                   (\<not> truthy domain \<or>
                    fst (findEmailsWithHunter e
                           (snd (getWebsiteUrlFromSearchAPI e (world s) (company j)))
                           (or_else domain []) (company j)) = Inr []))))
         then 1 else 0)"
    using n1 n2 enrich_calls [of e j pj s] by (intro exI [of _ ?new]) blast
  have t1: "\<forall>err. fst (getWebsiteUrlFromSearchAPI e (world s) (company j)) = Inl err
      \<longrightarrow> calls (snd (enrich e j pj s)) = calls s @ [WebsiteLookup (company j)] \<and>
          pj_emails (fst (enrich e j pj s)) = pj_emails pj"
    using enrich_website_throws [of e s j _ pj] by blast
  have t2: "\<forall>companyUrl err.
      fst (getWebsiteUrlFromSearchAPI e (world s) (company j)) = Inr companyUrl \<and> truthy companyUrl \<and>
      getDomainFromUrl e (or_else companyUrl []) = Inl err
      \<longrightarrow> calls (snd (enrich e j pj s)) = calls s @ [WebsiteLookup (company j)] \<and>
          pj_emails (fst (enrich e j pj s)) = pj_emails pj"
    using enrich_domain_throws [of e s j _ _ pj] by blast
  have t3: "\<forall>companyUrl domain err.
      fst (getWebsiteUrlFromSearchAPI e (world s) (company j)) = Inr companyUrl \<and> truthy companyUrl \<and>
      getDomainFromUrl e (or_else companyUrl []) = Inr domain \<and> truthy domain \<and>
      fst (findEmailsWithHunter e (snd (getWebsiteUrlFromSearchAPI e (world s) (company j)))
             (or_else domain []) (company j)) = Inl err
      \<longrightarrow> calls (snd (enrich e j pj s)) =
            calls s @ [WebsiteLookup (company j), ByDomain (or_else domain []) (company j)] \<and>
          pj_emails (fst (enrich e j pj s)) = pj_emails pj"
    using enrich_hunter_throws [of e s j _ _ _ pj] by blast
  have c: "\<not> isExcluded (shouldExcludeCompany (company j)) \<longrightarrow>
      snd (processJob e True j (out, s)) =
        snd (enrich e j (newProcessedJob j (isoNow e (world s))) s)"
    by (simp add: processJob_def Let_def split: prod.splits)
  have off: "snd (processJob e False j (out, s)) = s"
    by (simp add: processJob_def Let_def)
  show ?thesis
    apply (intro conjI)
    using a apply assumption
    using b apply assumption
    using t1 apply assumption
    using t2 apply assumption
    using t3 apply assumption
    using c apply assumption
    using off apply assumption
    done
qed

text \<open>
  The job at Luna Bistro: in the sample world, where no domain is derived, and in the
  world in which the website lookup throws.
\<close>

theorem enrichment_fallback_order_witness:
  "calls (snd (enrich sample_env (processedJob_of luna_raw)
                 (newProcessedJob (processedJob_of luna_raw) ''2025-01-01T00:00:00.000Z'') s0)) =
     [WebsiteLookup ''Luna Bistro'', ByCompanyName ''Luna Bistro''] \<and>
   calls (snd (enrich website_throws_env (processedJob_of luna_raw)
                 (newProcessedJob (processedJob_of luna_raw) ''2025-01-01T00:00:00.000Z'') s0)) =
     [WebsiteLookup ''Luna Bistro'']"
proof -
  let ?j = "processedJob_of luna_raw"
  let ?pj = "newProcessedJob (processedJob_of luna_raw) ''2025-01-01T00:00:00.000Z''"
  have c: "company ?j = ''Luna Bistro''"
    by (simp add: processedJob_of_def companyName_of_def luna_raw_def truthy_def or_else_def)
  have h: "fst (getWebsiteUrlFromSearchAPI sample_env (world s0) (company ?j))
             = Inr (Some ''lunabistro'') \<and> truthy (Some ''lunabistro'') \<and>
           getDomainFromUrl sample_env (or_else (Some ''lunabistro'') []) = Inr None \<and>
           \<not> truthy None"
    by (simp add: sample_env_def truthy_def)
  have h': "fst (getWebsiteUrlFromSearchAPI website_throws_env (world s0) (company ?j))
             = Inl ''ETIMEDOUT''"
    by (simp add: website_throws_env_def)
  from enrichment_fallback_order [of sample_env s0 ?j ?pj] h
  have 1: "calls (snd (enrich sample_env ?j ?pj s0)) =
     calls s0 @ [WebsiteLookup (company ?j), ByCompanyName (company ?j)]"
    by blast
  from enrichment_fallback_order [of website_throws_env s0 ?j ?pj] h'
  have 2: "calls (snd (enrich website_throws_env ?j ?pj s0)) =
     calls s0 @ [WebsiteLookup (company ?j)]"
    by blast
  from 1 2 show ?thesis by (simp add: c s0_def)
qed

section \<open>The exclusion toggles\<close>

lemma enrich_company: "pj_company (fst (enrich e j pj s)) = pj_company pj"
proof -
  have n: "\<And>p s'. pj_company (fst (companyNameSearch e j p s')) = pj_company p"
  proof -
    fix p s'
    obtain r w where "do_byCompanyName e s' (company j) = (r, w)"
      by (cases "do_byCompanyName e s' (company j)")
    then show "pj_company (fst (companyNameSearch e j p s')) = pj_company p"
      by (cases r) (simp_all add: companyNameSearch_def)
  qed
  obtain r s1 where d: "do_website e s (company j) = (r, s1)"
    by (cases "do_website e s (company j)")
  show ?thesis
  proof (cases r)
    case (Inl err)
    with d show ?thesis by (simp add: enrich_def)
  next
    case (Inr companyUrl)
    show ?thesis
    proof (cases "truthy companyUrl")
      case False
      with Inr d show ?thesis by (simp add: enrich_def n)
    next
      case True
      note url = this
      show ?thesis
      proof (cases "getDomainFromUrl e (or_else companyUrl [])")
        case (Inl err)
        with Inr d url show ?thesis by (simp add: enrich_def)
      next
        case dom: (Inr domain)
        show ?thesis
        proof (cases "truthy domain")
          case False
          with dom Inr d url show ?thesis by (simp add: enrich_def n)
        next
          case True
          obtain r2 s2 where d2: "do_byDomain e s1 (or_else domain []) (company j) = (r2, s2)"
            by (cases "do_byDomain e s1 (or_else domain []) (company j)")
          show ?thesis
          proof (cases r2)
            case (Inl err)
            with True dom Inr d url d2 show ?thesis by (simp add: enrich_def)
          next
            case em: (Inr emails)
            with True dom Inr d url d2 show ?thesis
              by (cases "emails = []") (simp_all add: enrich_def n)
          qed
        qed
      qed
    qed
  qed
qed

lemma processJob_excluded:
  "isExcluded (shouldExcludeCompany (company j)) \<Longrightarrow>
   processedJobs (fst (processJob e inc j (out, s))) = processedJobs out \<and>
   excludedCount (fst (processJob e inc j (out, s))) = Suc (excludedCount out) \<and>
   excludedByCompany (fst (processJob e inc j (out, s))) =
     (if reason (shouldExcludeCompany (company j)) = Some excluded_company
      then Suc (excludedByCompany out) else excludedByCompany out) \<and>
   excludedByFastFood (fst (processJob e inc j (out, s))) =
     (if reason (shouldExcludeCompany (company j)) = Some fast_food
      then Suc (excludedByFastFood out) else excludedByFastFood out)"
  by (simp add: processJob_def Let_def)

lemma processJob_kept:
  assumes "\<not> isExcluded (shouldExcludeCompany (company j))"
  shows "map pj_company (processedJobs (fst (processJob e inc j (out, s)))) =
           map pj_company (processedJobs out) @ [company j] \<and>
         excludedCount (fst (processJob e inc j (out, s))) = excludedCount out \<and>
         excludedByCompany (fst (processJob e inc j (out, s))) = excludedByCompany out \<and>
         excludedByFastFood (fst (processJob e inc j (out, s))) = excludedByFastFood out"
proof (cases inc)
  case True
  obtain pj s' where en: "enrich e j (newProcessedJob j (isoNow e (world s))) s = (pj, s')"
    by (cases "enrich e j (newProcessedJob j (isoNow e (world s))) s")
  then have "pj_company pj = company j"
    using enrich_company [of e j "newProcessedJob j (isoNow e (world s))" s]
    by (simp add: newProcessedJob_def Let_def)
  with assms True en show ?thesis by (simp add: processJob_def Let_def)
next
  case False
  with assms show ?thesis by (simp add: processJob_def Let_def newProcessedJob_def)
qed

lemma processJobs_kept:
  "map pj_company
     (processedJobs (fst (foldl (\<lambda>acc j. processJob e inc j acc) (out, s) js))) =
   map pj_company (processedJobs out) @
     filter (\<lambda>c. \<not> isExcluded (shouldExcludeCompany c)) (map company js)"
proof (induction js arbitrary: out s)
  case Nil
  then show ?case by simp
next
  case (Cons j js)
  obtain out' s' where p: "processJob e inc j (out, s) = (out', s')"
    by (cases "processJob e inc j (out, s)")
  have "map pj_company (processedJobs out') =
      map pj_company (processedJobs out) @
        (if isExcluded (shouldExcludeCompany (company j)) then [] else [company j])"
    using processJob_excluded [of j e inc out s] processJob_kept [of j e inc out s] p
    by (cases "isExcluded (shouldExcludeCompany (company j))") simp_all
  with Cons.IH [of out' s'] p show ?case by simp
qed

lemma processJobsForDatabase_kept:
  "map pj_company (processedJobs (fst (processJobsForDatabase e s js inc))) =
     filter (\<lambda>c. \<not> isExcluded (shouldExcludeCompany c)) (map company js)"
  using processJobs_kept
    [of e inc "\<lparr> processedJobs = [], excludedCount = 0, excludedByCompany = 0,
                  excludedByFastFood = 0 \<rparr>" s js]
  by (simp add: processJobsForDatabase_def)

text \<open>
  The companies of the jobs that one query keeps: those of the fetched jobs (the
  full-time ones when \<^verbatim>\<open>fullTimeOnly\<close> is set) that \<^verbatim>\<open>shouldExcludeCompany\<close> does not
  exclude. No other field of the input has a part in it.
\<close>

lemma mainQuery_kept:
  assumes "fst (mainQuery e inp s query) = Some out"
  shows "map pj_company (processedJobs out) =
     filter (\<lambda>c. \<not> isExcluded (shouldExcludeCompany c))
       (map company
          (if fullTimeOnly inp
           then filter isFullTime
                  (allJobs (fst (searchAllJobs e s query (in_location inp) (maxPagesPerQuery inp))))
           else allJobs (fst (searchAllJobs e s query (in_location inp) (maxPagesPerQuery inp)))))"
proof -
  obtain found s1 where f: "searchAllJobs e s query (in_location inp) (maxPagesPerQuery inp) = (found, s1)"
    by (cases "searchAllJobs e s query (in_location inp) (maxPagesPerQuery inp)")
  let ?js = "if fullTimeOnly inp then filter isFullTime (allJobs found) else allJobs found"
  obtain out' s2 where p: "processJobsForDatabase e s1 ?js True = (out', s2)"
    by (cases "processJobsForDatabase e s1 ?js True")
  from assms f p have "allJobs found \<noteq> []" and "out = out'"
    by (auto simp: mainQuery_def Let_def split: if_splits)
  moreover have "map pj_company (processedJobs out') =
      filter (\<lambda>c. \<not> isExcluded (shouldExcludeCompany c)) (map company ?js)"
    using processJobsForDatabase_kept [of e s1 ?js True] p by simp
  ultimately show ?thesis using f by simp
qed

lemma toggles_not_read:
  "mainQuery e (inp \<lparr> excludeFastFood := a, excludeRecruiters := b \<rparr>) s query = mainQuery e inp s query"
  by (simp add: mainQuery_def Let_def split: prod.splits)

lemma sample_first_page:
  "searchJobs sample_env s0 ''restaurant chef'' [] None =
     (\<lparr> jobs = map processedJob_of [subway_raw, chartwells_raw, luna_raw], hasMore = True,
        nextPageToken = Some ''page2'' \<rparr>,
      \<lparr> world = 1,
        calls = [Search \<lparr> req_q = ''restaurant chef'', req_location = None,
                         req_next_page_token = None \<rparr>] \<rparr>)"
  by (simp add: searchJobs_def sample_env_def do_fetch_def truthy_def s0_def)

lemma sample_second_page:
  "fst (searchJobs sample_env \<lparr> world = w, calls = cs \<rparr> ''restaurant chef'' [] (Some ''page2'')) = no_jobs"
  by (simp add: searchJobs_def sample_env_def do_fetch_def truthy_def)

lemma sample_allJobs:
  "allJobs (fst (searchAllJobs sample_env s0 ''restaurant chef'' [] 5)) =
     map processedJob_of [subway_raw, chartwells_raw, luna_raw]"
proof -
  let ?acc = "\<lparr> allJobs = map processedJob_of [subway_raw, chartwells_raw, luna_raw],
                currentPage = Suc 0,
                pages = [\<lparr> jobs = map processedJob_of [subway_raw, chartwells_raw, luna_raw],
                           hasMore = True, nextPageToken = Some ''page2'' \<rparr>] \<rparr>"
  let ?s1 = "\<lparr> world = 1, calls = [Search \<lparr> req_q = ''restaurant chef'', req_location = None,
                         req_next_page_token = None \<rparr>] \<rparr> :: nat st"
  have 1: "searchAllJobs sample_env s0 ''restaurant chef'' [] 5 =
      searchAllJobs_loop sample_env ''restaurant chef'' [] 5 ?s1 (Some ''page2'') ?acc"
    unfolding searchAllJobs_def
    by (subst searchAllJobs_loop.simps) (simp add: sample_first_page truthy_def)
  have 2: "jobs (fst (searchJobs sample_env ?s1 ''restaurant chef'' [] (Some ''page2''))) = []"
    by (simp add: sample_second_page no_jobs_def)
  show ?thesis
    unfolding 1 loop_stops_on_empty [OF 2] by simp
qed

lemma subway_excluded:
  "shouldExcludeCompany ''Subway'' =
     \<lparr> isExcluded = True, reason = Some fast_food, match = Some ''subway'' \<rparr>"
  by code_simp

lemma chartwells_excluded:
  "shouldExcludeCompany ''Chartwells Higher Education'' =
     \<lparr> isExcluded = True, reason = Some excluded_company, match = Some ''chartwells'' \<rparr>"
  by code_simp

lemma sample_jobs_facts:
  "map company (map processedJob_of [subway_raw, chartwells_raw, luna_raw]) =
     [''Subway'', ''Chartwells Higher Education'', ''Luna Bistro'']"
  "filter isFullTime (map processedJob_of [subway_raw, chartwells_raw, luna_raw]) =
     map processedJob_of [subway_raw, chartwells_raw, luna_raw]"
  by (simp_all add: processedJob_of_def companyName_of_def subway_raw_def chartwells_raw_def
      luna_raw_def truthy_def or_else_def isFullTime_def)

text \<open>
  Claim C2 says that a job at a fast-food company is kept when \<^verbatim>\<open>excludeFastFood\<close> is
  false, and a job at an excluded organisation when \<^verbatim>\<open>excludeRecruiters\<close> is false.
  \<^verbatim>\<open>main.js\<close> reads both toggles and logs them, and nothing else: with both false, the
  query over the three sample records still drops the job at Subway and the job at
  Chartwells, and keeps the one at Luna Bistro.
\<close>

theorem exclusion_toggles_ignored:
  "\<not> excludeFastFood sample_input \<and> \<not> excludeRecruiters sample_input \<and>
   (\<exists>out. fst (mainQuery sample_env sample_input s0 ''restaurant chef'') = Some out \<and>
      map pj_company (processedJobs out) = [''Luna Bistro''])"
proof -
  obtain r s' where m: "mainQuery sample_env sample_input s0 ''restaurant chef'' = (r, s')"
    by (cases "mainQuery sample_env sample_input s0 ''restaurant chef''")
  have ne: "allJobs (fst (searchAllJobs sample_env s0 ''restaurant chef'' [] 5)) \<noteq> []"
    by (simp add: sample_allJobs)
  obtain found s1 where f: "searchAllJobs sample_env s0 ''restaurant chef'' [] 5 = (found, s1)"
    by (cases "searchAllJobs sample_env s0 ''restaurant chef'' [] 5")
  with ne have "allJobs found \<noteq> []" by simp
  with f m obtain out where o: "r = Some out"
    by (auto simp: mainQuery_def sample_input_def Let_def split: prod.splits)
  from mainQuery_kept [of sample_env sample_input s0 "''restaurant chef''" out] m o
  have "map pj_company (processedJobs out) = [''Luna Bistro'']"
    by (simp add: sample_input_def sample_allJobs sample_jobs_facts subway_excluded
        chartwells_excluded luna_kept del: map_map list.map)
  with m o show ?thesis by (simp add: sample_input_def)
qed

section \<open>Persistence: \<^verbatim>\<open>database.js\<close>\<close>

lemma sample_instant: "timestamptz_in sample_server ''2025-01-01T00:00:00.000Z''"
  by code_simp

lemma update_keeps_ids:
  "map row_id (map (\<lambda>x. if row_id x = i then update_job v t x else x) tbl) = map row_id tbl"
  by (induction tbl) (simp_all add: update_job_def)

lemma update_keeps_contact_ids:
  "map c_id (map (\<lambda>x. if c_id x = i then update_contact pj em x else x) tbl) = map c_id tbl"
  by (induction tbl) (simp_all add: update_contact_def)

lemma in_set_map: "x \<in> set xs \<Longrightarrow> f x \<in> set (map f xs)"
  by simp

lemma fresh_id:
  assumes "\<forall>x \<in> set xs. f x \<le> (n :: nat)"
  shows "Suc n \<notin> set (map f xs)"
  using assms by auto

text \<open>
  The contact statement for a contact that the server reads, in a transaction that is not
  aborted, for a job that is in the table, with room in the sequence.
\<close>

lemma insert_contact_ok:
  assumes "status c = InTransaction" and "contact_fits pj em"
    and "jobId \<in> set (map row_id (jobs_tbl (cdb c)))"
    and "serials_ahead (cdb c)" and "int (contacts_seq (cdb c)) < serial_max"
  shows "\<exists>c'. insert_contact c jobId pj em = (Inr (), c') \<and> status c' = InTransaction \<and>
           jobs_tbl (cdb c') = jobs_tbl (cdb c) \<and> jobs_seq (cdb c') = jobs_seq (cdb c) \<and>
           saved c' = saved c \<and> txn_start c' = txn_start c \<and>
           serials_ahead (cdb c') \<and> contacts_seq (cdb c') = Suc (contacts_seq (cdb c))"
proof (cases "find (\<lambda>r. c_job_id r = jobId \<and> c_email r = stored 255 (email em))
                (contacts_tbl (cdb c))")
  case None
  from assms(4) have fr: "Suc (contacts_seq (cdb c)) \<notin> set (map c_id (contacts_tbl (cdb c)))"
    by (intro fresh_id) (simp add: serials_ahead_def)
  let ?new = "update_contact pj em
                \<lparr> c_id = Suc (contacts_seq (cdb c)), c_job_id = jobId,
                  c_email = stored 255 (email em),
                  c_first_name = None, c_last_name = None, c_position = None,
                  c_confidence = None, c_company = [], c_domain = None,
                  c_date_added = txn_start c \<rparr>"
  let ?c' = "c \<lparr> cdb := (cdb c) \<lparr> contacts_seq := Suc (contacts_seq (cdb c)),
                                   contacts_tbl := contacts_tbl (cdb c) @ [?new] \<rparr> \<rparr>"
  have i: "insert_contact c jobId pj em = (Inr (), ?c')"
    using assms(1-3,5) None fr by (simp add: insert_contact_def Let_def)
  have k: "c_id ?new = Suc (contacts_seq (cdb c))" by (simp add: update_contact_def)
  have "serials_ahead (cdb ?c')"
    using assms(4) fr k by (auto simp: serials_ahead_def le_Suc_eq simp del: set_map)
  with i assms(1) show ?thesis by simp
next
  case (Some r)
  let ?f = "\<lambda>x. if c_id x = c_id r then update_contact pj em x else x"
  let ?c' = "c \<lparr> cdb := (cdb c) \<lparr> contacts_seq := Suc (contacts_seq (cdb c)),
                                   contacts_tbl := map ?f (contacts_tbl (cdb c)) \<rparr> \<rparr>"
  have i: "insert_contact c jobId pj em = (Inr (), ?c')"
    using assms(1-3,5) Some by (simp add: insert_contact_def Let_def)
  have ids: "map c_id (map ?f (contacts_tbl (cdb c))) = map c_id (contacts_tbl (cdb c))"
    by (rule update_keeps_contact_ids)
  have "\<forall>x \<in> set (map ?f (contacts_tbl (cdb c))). c_id x \<le> Suc (contacts_seq (cdb c))"
  proof
    fix x assume "x \<in> set (map ?f (contacts_tbl (cdb c)))"
    then have "c_id x \<in> set (map c_id (map ?f (contacts_tbl (cdb c))))" by (rule in_set_map)
    then have "c_id x \<in> set (map c_id (contacts_tbl (cdb c)))" by (simp only: ids)
    with assms(4) show "c_id x \<le> Suc (contacts_seq (cdb c))"
      by (auto simp: serials_ahead_def le_Suc_eq)
  qed
  with assms(4) ids have "serials_ahead (cdb ?c')"
    by (simp add: serials_ahead_def del: map_map)
  with i assms(1) show ?thesis by simp
qed

lemma insert_contacts_ok:
  assumes "status c = InTransaction" and "\<forall>em \<in> set ems. contact_fits pj em"
    and "jobId \<in> set (map row_id (jobs_tbl (cdb c)))"
    and "serials_ahead (cdb c)" and "int (contacts_seq (cdb c)) + int (length ems) \<le> serial_max"
  shows "\<exists>c'. insert_contacts c jobId pj ems = (Inr (), c') \<and> status c' = InTransaction \<and>
           jobs_tbl (cdb c') = jobs_tbl (cdb c) \<and> jobs_seq (cdb c') = jobs_seq (cdb c) \<and>
           saved c' = saved c \<and> txn_start c' = txn_start c \<and>
           serials_ahead (cdb c') \<and> contacts_seq (cdb c') = contacts_seq (cdb c) + length ems"
  using assms
proof (induction ems arbitrary: c)
  case Nil
  then show ?case by simp
next
  case (Cons em ems)
  from Cons.prems have room: "int (contacts_seq (cdb c)) < serial_max" by simp
  from insert_contact_ok [of c pj em jobId] Cons.prems room
  obtain c1 where c1: "insert_contact c jobId pj em = (Inr (), c1)" "status c1 = InTransaction"
    "jobs_tbl (cdb c1) = jobs_tbl (cdb c)" "jobs_seq (cdb c1) = jobs_seq (cdb c)"
    "saved c1 = saved c" "txn_start c1 = txn_start c"
    "serials_ahead (cdb c1)" "contacts_seq (cdb c1) = Suc (contacts_seq (cdb c))"
    by auto
  from Cons.IH [of c1] c1 Cons.prems
  obtain c' where "insert_contacts c1 jobId pj ems = (Inr (), c')" "status c' = InTransaction"
    "jobs_tbl (cdb c') = jobs_tbl (cdb c1)" "jobs_seq (cdb c') = jobs_seq (cdb c1)"
    "saved c' = saved c1" "txn_start c' = txn_start c1"
    "serials_ahead (cdb c')" "contacts_seq (cdb c') = contacts_seq (cdb c1) + length ems"
    by auto
  with c1 show ?case by simp
qed

text \<open>The job statement for a job without a link.\<close>

lemma insert_job_null_link:
  assumes "status c = InTransaction" and "job_fits srv pj" and "pj_apply_link pj = None"
    and "serials_ahead (cdb c)" and "int (jobs_seq (cdb c)) < serial_max"
  shows "insert_job srv c pj =
     (Inr (Suc (jobs_seq (cdb c))),
      c \<lparr> cdb := (cdb c) \<lparr> jobs_seq := Suc (jobs_seq (cdb c)),
                           jobs_tbl := jobs_tbl (cdb c) @
                             [\<lparr> row_id = Suc (jobs_seq (cdb c)), vals = job_params pj,
                                date_added = txn_start c, last_updated = txn_start c \<rparr>] \<rparr> \<rparr>)"
proof -
  from assms(4) have "Suc (jobs_seq (cdb c)) \<notin> set (map row_id (jobs_tbl (cdb c)))"
    by (intro fresh_id) (simp add: serials_ahead_def)
  with assms show ?thesis
    by (simp add: insert_job_def conflict_row_def link_fits_def Let_def)
qed

lemma serials_ahead_new_job:
  assumes "serials_ahead d"
  shows "serials_ahead (d \<lparr> jobs_seq := Suc (jobs_seq d),
                            jobs_tbl := jobs_tbl d @ [\<lparr> row_id = Suc (jobs_seq d), vals = v,
                                                       date_added = t, last_updated = u \<rparr>] \<rparr>)"
proof -
  from assms have "Suc (jobs_seq d) \<notin> set (map row_id (jobs_tbl d))"
    by (intro fresh_id) (simp add: serials_ahead_def)
  with assms show ?thesis
    by (auto simp: serials_ahead_def le_Suc_eq simp del: set_map)
qed

lemma serials_ahead_updated_job:
  assumes "serials_ahead d"
  shows "serials_ahead (d \<lparr> jobs_seq := Suc (jobs_seq d),
                            jobs_tbl := map (\<lambda>x. if row_id x = i then update_job v t x else x)
                                          (jobs_tbl d) \<rparr>)"
proof -
  let ?f = "\<lambda>x. if row_id x = i then update_job v t x else x"
  have ids: "map row_id (map ?f (jobs_tbl d)) = map row_id (jobs_tbl d)"
    by (rule update_keeps_ids)
  have "\<forall>x \<in> set (map ?f (jobs_tbl d)). row_id x \<le> Suc (jobs_seq d)"
  proof
    fix x assume "x \<in> set (map ?f (jobs_tbl d))"
    then have "row_id x \<in> set (map row_id (map ?f (jobs_tbl d)))" by (rule in_set_map)
    then have "row_id x \<in> set (map row_id (jobs_tbl d))" by (simp only: ids)
    with assms show "row_id x \<le> Suc (jobs_seq d)"
      by (auto simp: serials_ahead_def le_Suc_eq)
  qed
  with assms ids show ?thesis
    by (simp add: serials_ahead_def del: map_map)
qed

text \<open>
  One call with one job without a link, on tables whose sequences are ahead and have
  room for the job and its contacts.
\<close>

lemma insert_single_null_link:
  assumes "pj_apply_link pj = None" and "job_fits srv pj"
    and "\<forall>em \<in> set (pj_emails pj). contact_fits pj em"
    and "serials_ahead d" and "int (jobs_seq d) < serial_max"
    and "int (contacts_seq d) + int (length (pj_emails pj)) \<le> serial_max"
  shows "\<exists>d'. insertJobsIntoDatabase srv (Some d) [pj] now = (1, Some d') \<and>
           jobs_tbl d' = jobs_tbl d @
             [\<lparr> row_id = Suc (jobs_seq d), vals = job_params pj,
                date_added = now, last_updated = now \<rparr>] \<and>
           jobs_seq d' = Suc (jobs_seq d) \<and> serials_ahead d' \<and>
           contacts_seq d' = contacts_seq d + length (pj_emails pj)"
proof -
  let ?c = "begin_txn d now"
  let ?row = "\<lparr> row_id = Suc (jobs_seq d), vals = job_params pj,
                date_added = now, last_updated = now \<rparr>"
  let ?c1 = "?c \<lparr> cdb := (cdb ?c) \<lparr> jobs_seq := Suc (jobs_seq (cdb ?c)),
                           jobs_tbl := jobs_tbl (cdb ?c) @
                             [\<lparr> row_id = Suc (jobs_seq (cdb ?c)), vals = job_params pj,
                                date_added = txn_start ?c, last_updated = txn_start ?c \<rparr>] \<rparr> \<rparr>"
  have st: "status ?c = InTransaction" and db: "cdb ?c = d" by (simp_all add: begin_txn_def)
  have j: "insert_job srv ?c pj = (Inr (Suc (jobs_seq (cdb ?c))), ?c1)"
    using assms(4,5) by (intro insert_job_null_link [OF st assms(2,1)]) (simp_all add: db)
  have s1: "serials_ahead (cdb ?c1)"
    using serials_ahead_new_job [OF assms(4)] by (simp add: db)
  have "status ?c1 = InTransaction" "Suc (jobs_seq (cdb ?c)) \<in> set (map row_id (jobs_tbl (cdb ?c1)))"
    "int (contacts_seq (cdb ?c1)) + int (length (pj_emails pj)) \<le> serial_max"
    using assms(6) by (simp_all add: begin_txn_def)
  from insert_contacts_ok [OF this(1) assms(3) this(2) s1 this(3)]
  obtain c2 where c2: "insert_contacts ?c1 (Suc (jobs_seq (cdb ?c))) pj (pj_emails pj) = (Inr (), c2)"
    "status c2 = InTransaction" "jobs_tbl (cdb c2) = jobs_tbl (cdb ?c1)"
    "jobs_seq (cdb c2) = jobs_seq (cdb ?c1)" "serials_ahead (cdb c2)"
    "contacts_seq (cdb c2) = contacts_seq (cdb ?c1) + length (pj_emails pj)"
    by auto
  have "insert_one srv (0, ?c) pj = (Suc 0, c2)"
    by (simp add: insert_one_def j c2(1))
  then have "insertJobsIntoDatabase srv (Some d) [pj] now = (1, Some (cdb (commit_txn c2)))"
    by (simp add: insertJobsIntoDatabase_def)
  moreover have "cdb (commit_txn c2) = cdb c2"
    using c2(2) by (simp add: commit_txn_def)
  moreover have "jobs_tbl (cdb c2) = jobs_tbl d @ [?row]" "jobs_seq (cdb c2) = Suc (jobs_seq d)"
    "contacts_seq (cdb c2) = contacts_seq d + length (pj_emails pj)"
    using c2 by (simp_all add: begin_txn_def)
  ultimately show ?thesis using c2(5) by simp
qed

text \<open>
  Claim C10. \<^verbatim>\<open>database.js\<close> passes \<^verbatim>\<open>job.apply_link\<close> to the statement as it is
  (line 193), so a \<^verbatim>\<open>null\<close> link is stored as \<^verbatim>\<open>NULL\<close>, and the conflict target of
  the statement is \<^verbatim>\<open>apply_link\<close> alone (line 161). A job whose \<^verbatim>\<open>apply_link\<close> is
  \<^verbatim>\<open>null\<close> therefore has no conflicting row, whatever the table holds. When the server
  reads its values and those of its contacts
  (the texts hold no character of code 0, \<^verbatim>\<open>scraped_at\<close> is a time stamp for the
  server, the numbers and the lengths fit the columns), and the sequences of the two
  tables are ahead of the identifiers and have room for two rows of the job and of each
  contact, persisting the job twice, with one call of \<^verbatim>\<open>insertJobsIntoDatabase\<close> each,
  inserts two rows with the same values and two different identifiers, and both calls
  count it. A job that the server does not read is not inserted at all
  (\<open>batch_with_unfit_job\<close> below).
\<close>

theorem null_apply_link_inserts_twice:
  "pj_apply_link pj = None \<and> job_fits srv pj \<and> (\<forall>em \<in> set (pj_emails pj). contact_fits pj em) \<and>
   serials_ahead d \<and> int (jobs_seq d) + 2 \<le> serial_max \<and>
   int (contacts_seq d) + 2 * int (length (pj_emails pj)) \<le> serial_max \<longrightarrow>
     conflict_row tbl (pj_apply_link pj) = None \<and> v_apply_link (job_params pj) = None \<and>
     (\<exists>d1 d2.
        insertJobsIntoDatabase srv (Some d) [pj] t1 = (1, Some d1) \<and>
        insertJobsIntoDatabase srv (Some d1) [pj] t2 = (1, Some d2) \<and>
        jobs_tbl d2 = jobs_tbl d @
          [\<lparr> row_id = Suc (jobs_seq d), vals = job_params pj,
             date_added = t1, last_updated = t1 \<rparr>,
           \<lparr> row_id = Suc (Suc (jobs_seq d)), vals = job_params pj,
             date_added = t2, last_updated = t2 \<rparr>])"
proof
  assume h: "pj_apply_link pj = None \<and> job_fits srv pj \<and>
    (\<forall>em \<in> set (pj_emails pj). contact_fits pj em) \<and>
    serials_ahead d \<and> int (jobs_seq d) + 2 \<le> serial_max \<and>
    int (contacts_seq d) + 2 * int (length (pj_emails pj)) \<le> serial_max"
  then have a: "pj_apply_link pj = None" "job_fits srv pj"
    "\<forall>em \<in> set (pj_emails pj). contact_fits pj em"
    and sa: "serials_ahead d" and r1: "int (jobs_seq d) < serial_max"
    "int (contacts_seq d) + int (length (pj_emails pj)) \<le> serial_max"
    by auto
  from insert_single_null_link [OF a sa r1, of t1]
  obtain d1 where d1: "insertJobsIntoDatabase srv (Some d) [pj] t1 = (1, Some d1)"
    "jobs_tbl d1 = jobs_tbl d @
             [\<lparr> row_id = Suc (jobs_seq d), vals = job_params pj,
                date_added = t1, last_updated = t1 \<rparr>]"
    "jobs_seq d1 = Suc (jobs_seq d)" "serials_ahead d1"
    "contacts_seq d1 = contacts_seq d + length (pj_emails pj)" by blast
  from h d1(3,5) have r2: "int (jobs_seq d1) < serial_max"
    "int (contacts_seq d1) + int (length (pj_emails pj)) \<le> serial_max" by auto
  from insert_single_null_link [OF a d1(4) r2, of t2]
  obtain d2 where d2: "insertJobsIntoDatabase srv (Some d1) [pj] t2 = (1, Some d2)"
    "jobs_tbl d2 = jobs_tbl d1 @
             [\<lparr> row_id = Suc (jobs_seq d1), vals = job_params pj,
                date_added = t2, last_updated = t2 \<rparr>]" by blast
  have "conflict_row tbl (pj_apply_link pj) = None" "v_apply_link (job_params pj) = None"
    using a(1) by (simp_all add: conflict_row_def job_params_def)
  with d1 d2 show "conflict_row tbl (pj_apply_link pj) = None \<and>
     v_apply_link (job_params pj) = None \<and>
     (\<exists>d1 d2.
        insertJobsIntoDatabase srv (Some d) [pj] t1 = (1, Some d1) \<and>
        insertJobsIntoDatabase srv (Some d1) [pj] t2 = (1, Some d2) \<and>
        jobs_tbl d2 = jobs_tbl d @
          [\<lparr> row_id = Suc (jobs_seq d), vals = job_params pj,
             date_added = t1, last_updated = t1 \<rparr>,
           \<lparr> row_id = Suc (Suc (jobs_seq d)), vals = job_params pj,
             date_added = t2, last_updated = t2 \<rparr>])"
    by auto
qed

text \<open>The sample job without its link, persisted twice into the empty database.\<close>

theorem null_apply_link_inserts_twice_witness:
  "\<exists>d1 d2.
     insertJobsIntoDatabase sample_server (Some empty_db) [luna_pj \<lparr> pj_apply_link := None \<rparr>] ''t1'' =
       (1, Some d1) \<and>
     insertJobsIntoDatabase sample_server (Some d1) [luna_pj \<lparr> pj_apply_link := None \<rparr>] ''t2'' =
       (1, Some d2) \<and>
     map row_id (jobs_tbl d2) = [1, 2] \<and>
     map (v_apply_link \<circ> vals) (jobs_tbl d2) = [None, None]"
proof -
  let ?pj = "luna_pj \<lparr> pj_apply_link := None \<rparr>"
  have h: "pj_apply_link ?pj = None \<and> job_fits sample_server ?pj \<and>
           (\<forall>em \<in> set (pj_emails ?pj). contact_fits ?pj em) \<and>
           serials_ahead empty_db \<and> int (jobs_seq empty_db) + 2 \<le> serial_max \<and>
           int (contacts_seq empty_db) + 2 * int (length (pj_emails ?pj)) \<le> serial_max"
    by (simp add: luna_pj_def sample_contact_def job_fits_def contact_fits_def fits_def fits_opt_def
        text_ok_def text_opt_ok_def numeric_ok_def sample_instant serials_ahead_def empty_db_def
        serial_max_def)
  from null_apply_link_inserts_twice [of ?pj sample_server empty_db "[]" "''t1''" "''t2''"] h
  obtain d1 d2 where
    "insertJobsIntoDatabase sample_server (Some empty_db) [?pj] ''t1'' = (1, Some d1)"
    "insertJobsIntoDatabase sample_server (Some d1) [?pj] ''t2'' = (1, Some d2)"
    "jobs_tbl d2 = jobs_tbl empty_db @
          [\<lparr> row_id = Suc (jobs_seq empty_db), vals = job_params ?pj,
             date_added = ''t1'', last_updated = ''t1'' \<rparr>,
           \<lparr> row_id = Suc (Suc (jobs_seq empty_db)), vals = job_params ?pj,
             date_added = ''t2'', last_updated = ''t2'' \<rparr>]"
    by blast
  then show ?thesis
    by (intro exI [of _ d1] exI [of _ d2]) (simp add: empty_db_def job_params_def)
qed

text \<open>The job statement for a job that the server reads, with or without a row to update.\<close>

lemma insert_job_ok:
  assumes "status c = InTransaction" and "job_fits srv pj" and "link_fits srv pj"
    and "serials_ahead (cdb c)" and "int (jobs_seq (cdb c)) < serial_max"
  shows "\<exists>jobId c'. insert_job srv c pj = (Inr jobId, c') \<and>
           jobId \<in> set (map row_id (jobs_tbl (cdb c'))) \<and> status c' = InTransaction \<and>
           saved c' = saved c \<and> txn_start c' = txn_start c \<and> serials_ahead (cdb c') \<and>
           jobs_seq (cdb c') = Suc (jobs_seq (cdb c)) \<and>
           contacts_seq (cdb c') = contacts_seq (cdb c)"
proof (cases "conflict_row (jobs_tbl (cdb c)) (pj_apply_link pj)")
  case None
  from assms(4) have fr: "Suc (jobs_seq (cdb c)) \<notin> set (map row_id (jobs_tbl (cdb c)))"
    by (intro fresh_id) (simp add: serials_ahead_def)
  let ?c' = "c \<lparr> cdb := (cdb c) \<lparr> jobs_seq := Suc (jobs_seq (cdb c)),
                           jobs_tbl := jobs_tbl (cdb c) @
                             [\<lparr> row_id = Suc (jobs_seq (cdb c)), vals = job_params pj,
                                date_added = txn_start c, last_updated = txn_start c \<rparr>] \<rparr> \<rparr>"
  have i: "insert_job srv c pj = (Inr (Suc (jobs_seq (cdb c))), ?c')"
    using assms(1-3,5) None fr by (simp add: insert_job_def Let_def)
  have "serials_ahead (cdb ?c')"
    using serials_ahead_new_job [OF assms(4)] by simp
  with i assms(1) show ?thesis by simp
next
  case (Some r)
  then have "r \<in> set (jobs_tbl (cdb c))"
    by (auto simp: conflict_row_def find_Some_iff split: option.splits)
  then have m: "row_id r \<in> set (map row_id (jobs_tbl (cdb c)))" by (rule in_set_map)
  let ?f = "\<lambda>x. if row_id x = row_id r then update_job (job_params pj) (txn_start c) x else x"
  let ?c' = "c \<lparr> cdb := (cdb c) \<lparr> jobs_seq := Suc (jobs_seq (cdb c)),
                                   jobs_tbl := map ?f (jobs_tbl (cdb c)) \<rparr> \<rparr>"
  have i: "insert_job srv c pj = (Inr (row_id r), ?c')"
    using assms(1-3,5) Some by (simp add: insert_job_def Let_def)
  have s': "serials_ahead (cdb ?c')"
    using serials_ahead_updated_job [OF assms(4)] by simp
  have "jobs_tbl (cdb ?c') = map ?f (jobs_tbl (cdb c))" by simp
  with m have m': "row_id r \<in> set (map row_id (jobs_tbl (cdb ?c')))"
    by (simp only: update_keeps_ids)
  show ?thesis
  proof (intro exI conjI)
    show "insert_job srv c pj = (Inr (row_id r), ?c')" by (rule i)
    show "row_id r \<in> set (map row_id (jobs_tbl (cdb ?c')))" by (rule m')
    show "serials_ahead (cdb ?c')" by (rule s')
  qed (simp_all add: assms(1))
qed

text \<open>The \<^verbatim>\<open>try\<close> block of a job that the server stores, with its contacts.\<close>

lemma insert_one_ok:
  assumes "status c = InTransaction" and "job_fits srv pj" and "link_fits srv pj"
    and "\<forall>em \<in> set (pj_emails pj). contact_fits pj em"
    and "serials_ahead (cdb c)" and "int (jobs_seq (cdb c)) < serial_max"
    and "int (contacts_seq (cdb c)) + int (length (pj_emails pj)) \<le> serial_max"
  shows "\<exists>c'. insert_one srv (n, c) pj = (Suc n, c') \<and> status c' = InTransaction \<and>
           saved c' = saved c \<and> serials_ahead (cdb c') \<and>
           jobs_seq (cdb c') = Suc (jobs_seq (cdb c)) \<and>
           contacts_seq (cdb c') = contacts_seq (cdb c) + length (pj_emails pj)"
proof -
  from insert_job_ok [OF assms(1,2,3,5,6)]
  obtain jobId c1 where j: "insert_job srv c pj = (Inr jobId, c1)"
    and c1: "jobId \<in> set (map row_id (jobs_tbl (cdb c1)))" "status c1 = InTransaction"
      "saved c1 = saved c" "serials_ahead (cdb c1)" "jobs_seq (cdb c1) = Suc (jobs_seq (cdb c))"
      "contacts_seq (cdb c1) = contacts_seq (cdb c)"
    by blast
  from assms(7) c1(6) have room: "int (contacts_seq (cdb c1)) + int (length (pj_emails pj)) \<le> serial_max"
    by simp
  from insert_contacts_ok [OF c1(2) assms(4) c1(1) c1(4) room]
  obtain c2 where "insert_contacts c1 jobId pj (pj_emails pj) = (Inr (), c2)"
    "status c2 = InTransaction" "saved c2 = saved c1" "serials_ahead (cdb c2)"
    "jobs_seq (cdb c2) = jobs_seq (cdb c1)"
    "contacts_seq (cdb c2) = contacts_seq (cdb c1) + length (pj_emails pj)"
    by auto
  with j c1 show ?thesis by (simp add: insert_one_def)
qed

text \<open>
  A job that the server does not read: the transaction is aborted, and nothing else has
  changed, not even a sequence.
\<close>

lemma insert_one_unfit:
  assumes "status c = InTransaction" and "\<not> job_fits srv pj"
  shows "insert_one srv (n, c) pj = (n, c \<lparr> status := Aborted \<rparr>)"
  using assms by (simp add: insert_one_def insert_job_def failed_def)

lemma insert_one_aborted:
  "status c = Aborted \<Longrightarrow> insert_one srv (n, c) pj = (n, c)"
  by (simp add: insert_one_def insert_job_def)

lemma foldl_insert_one_aborted:
  "status c = Aborted \<Longrightarrow> foldl (insert_one srv) (n, c) js = (n, c)"
  by (induction js) (simp_all add: insert_one_aborted)

text \<open>
  A batch with a job that the server does not read, after jobs that it stores: the count
  is the number of jobs before it, and the two tables are, after \<^verbatim>\<open>COMMIT\<close>, what they
  were before \<^verbatim>\<open>BEGIN\<close>.
\<close>

lemma batch_with_unfit_job:
  assumes "\<forall>pj \<in> set good. job_fits srv pj \<and> link_fits srv pj \<and>
             (\<forall>em \<in> set (pj_emails pj). contact_fits pj em)"
    and "\<not> job_fits srv bad"
    and "serials_ahead d" and "int (jobs_seq d) + int (length good) \<le> serial_max"
    and "int (contacts_seq d) + int (length (concat (map pj_emails good))) \<le> serial_max"
  shows "\<exists>d'. insertJobsIntoDatabase srv (Some d) (good @ bad # rest) now = (length good, Some d') \<and>
           jobs_tbl d' = jobs_tbl d \<and> contacts_tbl d' = contacts_tbl d"
proof -
  have g: "\<exists>c'. foldl (insert_one srv) (n, c) good = (n + length good, c') \<and>
             status c' = InTransaction \<and> saved c' = saved c"
    if "status c = InTransaction" and "serials_ahead (cdb c)"
      and "int (jobs_seq (cdb c)) + int (length good) \<le> serial_max"
      and "int (contacts_seq (cdb c)) + int (length (concat (map pj_emails good))) \<le> serial_max" for n c
    using assms(1) that
  proof (induction good arbitrary: n c)
    case Nil
    then show ?case by simp
  next
    case (Cons pj good)
    from Cons.prems have f: "job_fits srv pj" "link_fits srv pj"
      "\<forall>em \<in> set (pj_emails pj). contact_fits pj em"
      and room: "int (jobs_seq (cdb c)) < serial_max"
      "int (contacts_seq (cdb c)) + int (length (pj_emails pj)) \<le> serial_max"
      by simp_all
    from insert_one_ok [OF Cons.prems(2) f Cons.prems(3) room, of n]
    obtain c1 where c1: "insert_one srv (n, c) pj = (Suc n, c1)" "status c1 = InTransaction"
      "saved c1 = saved c" "serials_ahead (cdb c1)" "jobs_seq (cdb c1) = Suc (jobs_seq (cdb c))"
      "contacts_seq (cdb c1) = contacts_seq (cdb c) + length (pj_emails pj)"
      by blast
    from Cons.prems c1(5,6) have room1: "int (jobs_seq (cdb c1)) + int (length good) \<le> serial_max"
      "int (contacts_seq (cdb c1)) + int (length (concat (map pj_emails good))) \<le> serial_max"
      by simp_all
    from Cons.prems(1) have rest: "\<forall>pj \<in> set good. job_fits srv pj \<and> link_fits srv pj \<and>
             (\<forall>em \<in> set (pj_emails pj). contact_fits pj em)"
      by simp
    from Cons.IH [OF rest c1(2,4) room1, of "Suc n"]
    obtain c' where "foldl (insert_one srv) (Suc n, c1) good = (Suc n + length good, c')"
      "status c' = InTransaction" "saved c' = saved c1" by blast
    with c1 show ?case by simp
  qed
  have st: "status (begin_txn d now) = InTransaction" and db: "cdb (begin_txn d now) = d"
    by (simp_all add: begin_txn_def)
  from g [of "begin_txn d now" 0] st assms(3-5)
  obtain c1 where c1: "foldl (insert_one srv) (0, begin_txn d now) good = (length good, c1)"
    "status c1 = InTransaction" "saved c1 = saved (begin_txn d now)"
    by (auto simp: db)
  let ?c2 = "c1 \<lparr> status := Aborted \<rparr>"
  have c2: "insert_one srv (length good, c1) bad = (length good, ?c2)"
    using insert_one_unfit [OF c1(2) assms(2)] .
  have "foldl (insert_one srv) (0, begin_txn d now) (good @ bad # rest) = (length good, ?c2)"
    by (simp add: c1(1) c2 foldl_insert_one_aborted)
  then have "insertJobsIntoDatabase srv (Some d) (good @ bad # rest) now =
      (length good, Some (cdb (commit_txn ?c2)))"
    by (simp add: insertJobsIntoDatabase_def)
  moreover have "jobs_tbl (cdb (commit_txn ?c2)) = jobs_tbl d"
    "contacts_tbl (cdb (commit_txn ?c2)) = contacts_tbl d"
    using c1 by (simp_all add: commit_txn_def begin_txn_def)
  ultimately show ?thesis by blast
qed

lemma luna_pj_fits:
  "job_fits sample_server luna_pj \<and> link_fits sample_server luna_pj \<and>
   (\<forall>em \<in> set (pj_emails luna_pj). contact_fits luna_pj em)"
proof -
  have "link_fits sample_server luna_pj"
    by (simp add: link_fits_def luna_pj_def sample_server_def)
  then show ?thesis
    by (simp add: luna_pj_def sample_contact_def job_fits_def contact_fits_def fits_def fits_opt_def
        text_ok_def text_opt_ok_def numeric_ok_def sample_instant)
qed

lemma long_title_unfit: "\<not> job_fits sample_server long_title_pj"
  by (simp add: long_title_pj_def job_fits_def fits_def)

text \<open>
  Claim C4 says that a failed insert is skipped and that the jobs that succeeded before
  it in the same call are committed. The code catches the error of the failed job and
  goes on to \<^verbatim>\<open>COMMIT\<close>, but inside one PostgreSQL transaction: the error aborts the
  transaction, every later statement of the batch is refused, and \<^verbatim>\<open>COMMIT\<close> rolls
  back. Alone, the sample job is persisted; in a batch with a job whose title has 256
  letters after it, the function still returns the count 1, and both tables are empty.
\<close>

theorem failed_insert_rolls_back_batch:
  "(\<exists>d1. insertJobsIntoDatabase sample_server (Some empty_db) [luna_pj] ''t1'' = (1, Some d1) \<and>
      map (v_title \<circ> vals) (jobs_tbl d1) = [''Executive Chef'']) \<and>
   (\<exists>d2. insertJobsIntoDatabase sample_server (Some empty_db) [luna_pj, long_title_pj] ''t1'' =
            (1, Some d2) \<and>
      jobs_tbl d2 = [] \<and> contacts_tbl d2 = [])"
proof -
  have "insertJobsIntoDatabase sample_server (Some empty_db) [luna_pj] ''t1'' =
      (1, snd (insertJobsIntoDatabase sample_server (Some empty_db) [luna_pj] ''t1''))"
    "map_option (map (v_title \<circ> vals) \<circ> jobs_tbl)
       (snd (insertJobsIntoDatabase sample_server (Some empty_db) [luna_pj] ''t1''))
       = Some [''Executive Chef'']"
    by code_simp+
  then have a: "\<exists>d1. insertJobsIntoDatabase sample_server (Some empty_db) [luna_pj] ''t1'' =
        (1, Some d1) \<and>
      map (v_title \<circ> vals) (jobs_tbl d1) = [''Executive Chef'']"
    by (cases "snd (insertJobsIntoDatabase sample_server (Some empty_db) [luna_pj] ''t1'')") auto
  have e: "serials_ahead empty_db" "int (jobs_seq empty_db) + int (length [luna_pj]) \<le> serial_max"
    "int (contacts_seq empty_db) + int (length (concat (map pj_emails [luna_pj]))) \<le> serial_max"
    by (simp_all add: serials_ahead_def empty_db_def serial_max_def luna_pj_def)
  from batch_with_unfit_job [of "[luna_pj]" sample_server long_title_pj empty_db "[]" "''t1''"]
    luna_pj_fits long_title_unfit e
  have b: "\<exists>d2. insertJobsIntoDatabase sample_server (Some empty_db) [luna_pj, long_title_pj] ''t1'' =
        (1, Some d2) \<and>
      jobs_tbl d2 = [] \<and> contacts_tbl d2 = []"
    by (simp add: empty_db_def)
  from a b show ?thesis by blast
qed

subsection \<open>One row for each link\<close>

lemma link_rows_count_le:
  assumes "constraints_hold d"
  shows "length (link_rows (jobs_tbl d) a) \<le> 1"
proof (cases "link_rows (jobs_tbl d) a")
  case Nil
  then show ?thesis by simp
next
  case (Cons r rs)
  then have "r \<in> set (link_rows (jobs_tbl d) a)" by simp
  then have "r \<in> set (jobs_tbl d)" "v_apply_link (vals r) = Some a"
    by (auto simp: link_rows_def)
  with assms show ?thesis
    by (force simp: constraints_hold_def)
qed

lemma pair_rows_count_le:
  assumes "constraints_hold d"
  shows "length (pair_rows (contacts_tbl d) j e) \<le> 1"
proof (cases "pair_rows (contacts_tbl d) j e")
  case Nil
  then show ?thesis by simp
next
  case (Cons r rs)
  then have "r \<in> set (pair_rows (contacts_tbl d) j e)" by simp
  then have "r \<in> set (contacts_tbl d)" "c_job_id r = j" "c_email r = e"
    by (auto simp: pair_rows_def)
  with assms show ?thesis
    by (force simp: constraints_hold_def)
qed

lemma find_None_filter: "find P xs = None \<Longrightarrow> filter P xs = []"
  by (induction xs) (auto split: if_splits)

lemma find_Some_filter: "find P xs = Some x \<Longrightarrow> \<exists>ys. filter P xs = x # ys"
  by (induction xs) (auto split: if_splits)

lemma filter_map_keep:
  "(\<And>x. P (f x) = P x) \<Longrightarrow> filter P (map f xs) = map f (filter P xs)"
  by (induction xs) auto

text \<open>The job statement on the rows that hold a link.\<close>

lemma insert_job_link_rows:
  assumes "status c = InTransaction" and "job_fits srv pj" and "pj_apply_link pj = Some a"
    and "length (link_rows (jobs_tbl (cdb c)) a) \<le> 1" and "index_row_ok srv a"
    and "serials_ahead (cdb c)" and "int (jobs_seq (cdb c)) < serial_max"
  shows "\<exists>jobId c' r.
           insert_job srv c pj = (Inr jobId, c') \<and>
           link_rows (jobs_tbl (cdb c')) a = [r] \<and> row_id r = jobId \<and>
           vals r = job_params pj \<and> last_updated r = txn_start c \<and>
           (link_rows (jobs_tbl (cdb c)) a = [] \<longrightarrow>
              jobs_tbl (cdb c') = jobs_tbl (cdb c) @ [r] \<and> date_added r = txn_start c) \<and>
           (\<forall>r0. link_rows (jobs_tbl (cdb c)) a = [r0] \<longrightarrow>
              row_id r = row_id r0 \<and> date_added r = date_added r0 \<and>
              length (jobs_tbl (cdb c')) = length (jobs_tbl (cdb c))) \<and>
           (\<forall>b. b \<noteq> a \<longrightarrow>
              length (link_rows (jobs_tbl (cdb c')) b) = length (link_rows (jobs_tbl (cdb c)) b)) \<and>
           contacts_tbl (cdb c') = contacts_tbl (cdb c)"
proof (cases "find (\<lambda>r. v_apply_link (vals r) = Some a) (jobs_tbl (cdb c))")
  case None
  then have e: "link_rows (jobs_tbl (cdb c)) a = []"
    by (simp add: link_rows_def find_None_filter)
  from assms(6) have fr: "Suc (jobs_seq (cdb c)) \<notin> set (map row_id (jobs_tbl (cdb c)))"
    by (intro fresh_id) (simp add: serials_ahead_def)
  let ?r = "\<lparr> row_id = Suc (jobs_seq (cdb c)), vals = job_params pj,
              date_added = txn_start c, last_updated = txn_start c \<rparr>"
  let ?c' = "c \<lparr> cdb := (cdb c) \<lparr> jobs_seq := Suc (jobs_seq (cdb c)),
                                   jobs_tbl := jobs_tbl (cdb c) @ [?r] \<rparr> \<rparr>"
  have i: "insert_job srv c pj = (Inr (Suc (jobs_seq (cdb c))), ?c')"
    using assms(1-3,5,7) None fr
    by (simp add: insert_job_def conflict_row_def link_fits_def Let_def)
  have l: "v_apply_link (job_params pj) = Some a"
    using assms(3) by (simp add: job_params_def)
  have "link_rows (jobs_tbl (cdb ?c')) a = [?r]"
    using e l by (simp add: link_rows_def)
  moreover have "\<forall>b. b \<noteq> a \<longrightarrow>
      length (link_rows (jobs_tbl (cdb ?c')) b) = length (link_rows (jobs_tbl (cdb c)) b)"
    using l by (simp add: link_rows_def)
  ultimately show ?thesis
    using i e by (intro exI [of _ "Suc (jobs_seq (cdb c))"] exI [of _ ?c'] exI [of _ ?r]) simp
next
  case (Some r0)
  then obtain ys where "link_rows (jobs_tbl (cdb c)) a = r0 # ys"
    using find_Some_filter [of "\<lambda>r. v_apply_link (vals r) = Some a" "jobs_tbl (cdb c)" r0]
    by (auto simp: link_rows_def)
  with assms(4) have e: "link_rows (jobs_tbl (cdb c)) a = [r0]" by simp
  have "r0 \<in> set (link_rows (jobs_tbl (cdb c)) a)" by (simp add: e)
  then have l0: "v_apply_link (vals r0) = Some a"
    by (simp add: link_rows_def)
  let ?f = "\<lambda>x. if row_id x = row_id r0 then update_job (job_params pj) (txn_start c) x else x"
  let ?c' = "c \<lparr> cdb := (cdb c) \<lparr> jobs_seq := Suc (jobs_seq (cdb c)),
                                   jobs_tbl := map ?f (jobs_tbl (cdb c)) \<rparr> \<rparr>"
  have i: "insert_job srv c pj = (Inr (row_id r0), ?c')"
    using assms(1-3,7) Some by (simp add: insert_job_def conflict_row_def Let_def)
  have keep: "\<And>b x. (v_apply_link (vals (?f x)) = Some b) = (v_apply_link (vals x) = Some b)"
    by (simp add: update_job_def)
  have lr: "\<And>b. link_rows (map ?f (jobs_tbl (cdb c))) b = map ?f (link_rows (jobs_tbl (cdb c)) b)"
    unfolding link_rows_def by (rule filter_map_keep) (rule keep)
  have v: "vals (?f r0) = job_params pj"
    using l0 assms(3) by (simp add: update_job_def job_params_def)
  have "link_rows (jobs_tbl (cdb ?c')) a = [?f r0]"
    by (simp add: lr e)
  moreover have "\<forall>b. b \<noteq> a \<longrightarrow>
      length (link_rows (jobs_tbl (cdb ?c')) b) = length (link_rows (jobs_tbl (cdb c)) b)"
    by (simp add: lr)
  moreover have "row_id (?f r0) = row_id r0" "date_added (?f r0) = date_added r0"
    "last_updated (?f r0) = txn_start c"
    by (simp_all add: update_job_def)
  ultimately show ?thesis
    using i e v by (intro exI [of _ "row_id r0"] exI [of _ ?c'] exI [of _ "?f r0"]) simp
qed

text \<open>The contact statement on the rows that hold a pair.\<close>

lemma insert_contact_pair_rows:
  assumes "status c = InTransaction" and "contact_fits pj em"
    and "jobId \<in> set (map row_id (jobs_tbl (cdb c)))"
    and "serials_ahead (cdb c)" and "int (contacts_seq (cdb c)) < serial_max"
  shows "\<exists>c'. insert_contact c jobId pj em = (Inr (), c') \<and>
           (\<forall>j e. length (pair_rows (contacts_tbl (cdb c')) j e) =
                    (if j = jobId \<and> e = stored 255 (email em) \<and>
                        pair_rows (contacts_tbl (cdb c)) j e = []
                     then 1 else length (pair_rows (contacts_tbl (cdb c)) j e)))"
proof (cases "find (\<lambda>r. c_job_id r = jobId \<and> c_email r = stored 255 (email em))
                (contacts_tbl (cdb c))")
  case None
  then have e: "pair_rows (contacts_tbl (cdb c)) jobId (stored 255 (email em)) = []"
    by (simp add: pair_rows_def find_None_filter)
  from None have e': "filter (\<lambda>r. c_job_id r = jobId \<and> c_email r = stored 255 (email em))
                        (contacts_tbl (cdb c)) = []"
    by (rule find_None_filter)
  from assms(4) have fr: "Suc (contacts_seq (cdb c)) \<notin> set (map c_id (contacts_tbl (cdb c)))"
    by (intro fresh_id) (simp add: serials_ahead_def)
  let ?new = "update_contact pj em
                \<lparr> c_id = Suc (contacts_seq (cdb c)), c_job_id = jobId,
                  c_email = stored 255 (email em),
                  c_first_name = None, c_last_name = None, c_position = None,
                  c_confidence = None, c_company = [], c_domain = None,
                  c_date_added = txn_start c \<rparr>"
  from assms(1-3,5) None fr have i: "insert_contact c jobId pj em =
      (Inr (), c \<lparr> cdb := (cdb c) \<lparr> contacts_seq := Suc (contacts_seq (cdb c)),
                                    contacts_tbl := contacts_tbl (cdb c) @ [?new] \<rparr> \<rparr>)"
    by (simp add: insert_contact_def Let_def)
  have k: "c_job_id ?new = jobId" "c_email ?new = stored 255 (email em)"
    by (simp_all add: update_contact_def)
  show ?thesis
    unfolding i using k e' by (auto simp: pair_rows_def)
next
  case (Some r)
  let ?f = "\<lambda>x. if c_id x = c_id r then update_contact pj em x else x"
  have keep: "\<And>j e x. (c_job_id (?f x) = j \<and> c_email (?f x) = e) = (c_job_id x = j \<and> c_email x = e)"
    by (simp add: update_contact_def)
  have lr: "\<And>j e. pair_rows (map ?f (contacts_tbl (cdb c))) j e =
                    map ?f (pair_rows (contacts_tbl (cdb c)) j e)"
    unfolding pair_rows_def by (rule filter_map_keep) (rule keep)
  from find_Some_filter [OF Some]
  have ne: "pair_rows (contacts_tbl (cdb c)) jobId (stored 255 (email em)) \<noteq> []"
    by (auto simp: pair_rows_def)
  from assms(1-3,5) Some have "insert_contact c jobId pj em =
      (Inr (), c \<lparr> cdb := (cdb c) \<lparr> contacts_seq := Suc (contacts_seq (cdb c)),
                                    contacts_tbl := map ?f (contacts_tbl (cdb c)) \<rparr> \<rparr>)"
    by (simp add: insert_contact_def Let_def)
  then show ?thesis
    using ne by (simp add: lr)
qed

lemma insert_contacts_pair_rows:
  assumes "status c = InTransaction" and "\<forall>em \<in> set ems. contact_fits pj em"
    and "jobId \<in> set (map row_id (jobs_tbl (cdb c)))"
    and "\<forall>j e. length (pair_rows (contacts_tbl (cdb c)) j e) \<le> 1"
    and "serials_ahead (cdb c)" and "int (contacts_seq (cdb c)) + int (length ems) \<le> serial_max"
  shows "\<exists>c'. insert_contacts c jobId pj ems = (Inr (), c') \<and>
           (\<forall>j e. length (pair_rows (contacts_tbl (cdb c')) j e) \<le> 1) \<and>
           (\<forall>em \<in> set ems.
              length (pair_rows (contacts_tbl (cdb c')) jobId (stored 255 (email em))) = 1) \<and>
           (\<forall>j e. pair_rows (contacts_tbl (cdb c)) j e \<noteq> [] \<longrightarrow>
                    pair_rows (contacts_tbl (cdb c')) j e \<noteq> [])"
  using assms
proof (induction ems arbitrary: c)
  case Nil
  then show ?case by simp
next
  case (Cons em ems)
  from Cons.prems have room: "int (contacts_seq (cdb c)) < serial_max" by simp
  from insert_contact_ok [of c pj em jobId] Cons.prems room
  obtain c1 where c1: "insert_contact c jobId pj em = (Inr (), c1)" "status c1 = InTransaction"
    "jobs_tbl (cdb c1) = jobs_tbl (cdb c)" "serials_ahead (cdb c1)"
    "contacts_seq (cdb c1) = Suc (contacts_seq (cdb c))"
    by auto
  from insert_contact_pair_rows [of c pj em jobId] Cons.prems room c1(1)
  have p: "\<forall>j e. length (pair_rows (contacts_tbl (cdb c1)) j e) =
                    (if j = jobId \<and> e = stored 255 (email em) \<and>
                        pair_rows (contacts_tbl (cdb c)) j e = []
                     then 1 else length (pair_rows (contacts_tbl (cdb c)) j e))"
    by auto
  with Cons.prems(4) have le: "\<forall>j e. length (pair_rows (contacts_tbl (cdb c1)) j e) \<le> 1"
    by auto
  from p have here: "pair_rows (contacts_tbl (cdb c1)) jobId (stored 255 (email em)) \<noteq> []"
    by (metis length_0_conv zero_neq_one)
  from p have mono: "\<forall>j e. pair_rows (contacts_tbl (cdb c)) j e \<noteq> [] \<longrightarrow>
                    pair_rows (contacts_tbl (cdb c1)) j e \<noteq> []"
    by (metis length_0_conv)
  from Cons.prems c1(5) have room1: "int (contacts_seq (cdb c1)) + int (length ems) \<le> serial_max"
    by simp
  from Cons.prems c1(3) have in1: "jobId \<in> set (map row_id (jobs_tbl (cdb c1)))"
    by simp
  from Cons.prems(2) have fit1: "\<forall>em \<in> set ems. contact_fits pj em" by simp
  from Cons.IH [OF c1(2) fit1 in1 le c1(4) room1]
  obtain c' where c': "insert_contacts c1 jobId pj ems = (Inr (), c')"
    "\<forall>j e. length (pair_rows (contacts_tbl (cdb c')) j e) \<le> 1"
    "\<forall>em \<in> set ems. length (pair_rows (contacts_tbl (cdb c')) jobId (stored 255 (email em))) = 1"
    "\<forall>j e. pair_rows (contacts_tbl (cdb c1)) j e \<noteq> [] \<longrightarrow> pair_rows (contacts_tbl (cdb c')) j e \<noteq> []"
    by blast
  from here c'(4) have "pair_rows (contacts_tbl (cdb c')) jobId (stored 255 (email em)) \<noteq> []"
    by blast
  with c'(2) have one: "length (pair_rows (contacts_tbl (cdb c')) jobId (stored 255 (email em))) = 1"
    by (metis One_nat_def le_Suc_eq le_zero_eq length_0_conv)
  from c1(1) c' one mono show ?case by auto
qed

lemma constraints_holdI:
  assumes "\<forall>a. length (link_rows (jobs_tbl d) a) \<le> 1"
    and "\<forall>j e. length (pair_rows (contacts_tbl d) j e) \<le> 1"
  shows "constraints_hold d"
  using assms by (auto simp: constraints_hold_def split: option.splits)

text \<open>
  One call of \<^verbatim>\<open>insertJobsIntoDatabase\<close> of \<^verbatim>\<open>database.js\<close> with one job that has a
  link and that the server reads, on tables that satisfy their constraints, with the
  sequences ahead and room in them.
\<close>

lemma single_call:
  assumes "constraints_hold d" and "pj_apply_link pj = Some a" and "job_fits srv pj"
    and "\<forall>em \<in> set (pj_emails pj). contact_fits pj em" and "index_row_ok srv a"
    and "serials_ahead d" and "int (jobs_seq d) < serial_max"
    and "int (contacts_seq d) + int (length (pj_emails pj)) \<le> serial_max"
  shows "\<exists>d' r. insertJobsIntoDatabase srv (Some d) [pj] now = (1, Some d') \<and>
           constraints_hold d' \<and> link_rows (jobs_tbl d') a = [r] \<and>
           vals r = job_params pj \<and> last_updated r = now \<and>
           (\<forall>r0. link_rows (jobs_tbl d) a = [r0] \<longrightarrow>
              row_id r = row_id r0 \<and> date_added r = date_added r0 \<and>
              length (jobs_tbl d') = length (jobs_tbl d)) \<and>
           (\<forall>em \<in> set (pj_emails pj).
              length (pair_rows (contacts_tbl d') (row_id r) (stored 255 (email em))) = 1) \<and>
           serials_ahead d' \<and> jobs_seq d' = Suc (jobs_seq d) \<and>
           contacts_seq d' = contacts_seq d + length (pj_emails pj)"
proof -
  let ?c = "begin_txn d now"
  have st: "status ?c = InTransaction" and tb: "jobs_tbl (cdb ?c) = jobs_tbl d"
    "contacts_tbl (cdb ?c) = contacts_tbl d" "txn_start ?c = now" and db: "cdb ?c = d"
    by (simp_all add: begin_txn_def)
  have le: "length (link_rows (jobs_tbl (cdb ?c)) a) \<le> 1"
    using link_rows_count_le [OF assms(1)] tb by simp
  have sa: "serials_ahead (cdb ?c)" and room: "int (jobs_seq (cdb ?c)) < serial_max"
    using assms(6,7) by (simp_all add: db)
  have lf: "link_fits srv pj" using assms(2,5) by (simp add: link_fits_def)
  from insert_job_link_rows [OF st assms(3,2) le assms(5) sa room]
  obtain jobId c1 r where j: "insert_job srv ?c pj = (Inr jobId, c1)"
    "link_rows (jobs_tbl (cdb c1)) a = [r]" "row_id r = jobId" "vals r = job_params pj"
    "last_updated r = txn_start ?c"
    "\<forall>r0. link_rows (jobs_tbl (cdb ?c)) a = [r0] \<longrightarrow>
              row_id r = row_id r0 \<and> date_added r = date_added r0 \<and>
              length (jobs_tbl (cdb c1)) = length (jobs_tbl (cdb ?c))"
    "\<forall>b. b \<noteq> a \<longrightarrow>
              length (link_rows (jobs_tbl (cdb c1)) b) = length (link_rows (jobs_tbl (cdb ?c)) b)"
    "contacts_tbl (cdb c1) = contacts_tbl (cdb ?c)"
    by blast
  from insert_job_ok [OF st assms(3) lf sa room] j(1)
  have c1: "jobId \<in> set (map row_id (jobs_tbl (cdb c1)))" "status c1 = InTransaction"
    "serials_ahead (cdb c1)" "jobs_seq (cdb c1) = Suc (jobs_seq (cdb ?c))"
    "contacts_seq (cdb c1) = contacts_seq (cdb ?c)"
    by auto
  have pl: "\<forall>j e. length (pair_rows (contacts_tbl (cdb c1)) j e) \<le> 1"
    using pair_rows_count_le [OF assms(1)] j(8) tb by simp
  have room2: "int (contacts_seq (cdb c1)) + int (length (pj_emails pj)) \<le> serial_max"
    using assms(8) c1(5) by (simp add: db)
  from insert_contacts_pair_rows [OF c1(2) assms(4) c1(1) pl c1(3) room2]
  obtain c2 where c2: "insert_contacts c1 jobId pj (pj_emails pj) = (Inr (), c2)"
    "\<forall>j e. length (pair_rows (contacts_tbl (cdb c2)) j e) \<le> 1"
    "\<forall>em \<in> set (pj_emails pj).
       length (pair_rows (contacts_tbl (cdb c2)) jobId (stored 255 (email em))) = 1"
    by blast
  from insert_contacts_ok [OF c1(2) assms(4) c1(1) c1(3) room2] c2(1)
  have k: "status c2 = InTransaction" "jobs_tbl (cdb c2) = jobs_tbl (cdb c1)"
    "serials_ahead (cdb c2)" "jobs_seq (cdb c2) = jobs_seq (cdb c1)"
    "contacts_seq (cdb c2) = contacts_seq (cdb c1) + length (pj_emails pj)"
    by auto
  let ?d' = "cdb (commit_txn c2)"
  have eq: "?d' = cdb c2" using k(1) by (simp add: commit_txn_def)
  have d': "jobs_tbl ?d' = jobs_tbl (cdb c1)" "contacts_tbl ?d' = contacts_tbl (cdb c2)"
    using k by (simp_all add: commit_txn_def)
  have "insert_one srv (0, ?c) pj = (Suc 0, c2)"
    by (simp add: insert_one_def j(1) c2(1))
  then have r: "insertJobsIntoDatabase srv (Some d) [pj] now = (1, Some ?d')"
    by (simp add: insertJobsIntoDatabase_def)
  have la: "\<forall>b. length (link_rows (jobs_tbl ?d') b) \<le> 1"
  proof
    fix b
    show "length (link_rows (jobs_tbl ?d') b) \<le> 1"
      using j(2,7) link_rows_count_le [OF assms(1), of b] tb d' by (cases "b = a") auto
  qed
  have ch: "constraints_hold ?d'"
    using la c2(2) d' by (intro constraints_holdI) simp_all
  have sq: "serials_ahead ?d'" "jobs_seq ?d' = Suc (jobs_seq d)"
    "contacts_seq ?d' = contacts_seq d + length (pj_emails pj)"
    using k c1 by (simp_all add: eq db)
  show ?thesis
    using r ch j(2-6) c2(3) d' tb sq
    by (intro exI [of _ ?d'] exI [of _ r]) simp
qed

text \<open>
  Idempotence on \<^verbatim>\<open>apply_link\<close> in \<^verbatim>\<open>database.js\<close>. On tables that satisfy their
  constraints, persisting a job with a link and then a job with the same link (the same
  job, or the posting with other values) leaves one row for the link: the second call
  inserts no row, keeps the identifier and \<^verbatim>\<open>date_added\<close>, replaces the values and sets
  \<^verbatim>\<open>last_updated\<close>; and each pair of the job and one of its e-mails has one contact row.
\<close>

lemma database_js_upsert_idempotent:
  assumes "constraints_hold d" and "index_row_ok srv a"
    and "pj_apply_link pj = Some a" and "job_fits srv pj"
    and "\<forall>em \<in> set (pj_emails pj). contact_fits pj em"
    and "pj_apply_link pj' = Some a" and "job_fits srv pj'"
    and "\<forall>em \<in> set (pj_emails pj'). contact_fits pj' em"
    and "serials_ahead d" and "int (jobs_seq d) + 2 \<le> serial_max"
    and "int (contacts_seq d) + int (length (pj_emails pj)) + int (length (pj_emails pj'))
           \<le> serial_max"
  shows "\<exists>d1 d2 r1 r2.
           insertJobsIntoDatabase srv (Some d) [pj] t1 = (1, Some d1) \<and>
           insertJobsIntoDatabase srv (Some d1) [pj'] t2 = (1, Some d2) \<and>
           link_rows (jobs_tbl d1) a = [r1] \<and> link_rows (jobs_tbl d2) a = [r2] \<and>
           length (jobs_tbl d2) = length (jobs_tbl d1) \<and>
           row_id r2 = row_id r1 \<and> date_added r2 = date_added r1 \<and>
           vals r1 = job_params pj \<and> vals r2 = job_params pj' \<and> last_updated r2 = t2 \<and>
           (\<forall>em \<in> set (pj_emails pj').
              length (pair_rows (contacts_tbl d2) (row_id r2) (stored 255 (email em))) = 1) \<and>
           constraints_hold d2"
proof -
  from assms(10,11) have room1: "int (jobs_seq d) < serial_max"
    "int (contacts_seq d) + int (length (pj_emails pj)) \<le> serial_max"
    by simp_all
  from single_call [OF assms(1,3-5,2,9) room1, of t1]
  obtain d1 r1 where 1: "insertJobsIntoDatabase srv (Some d) [pj] t1 = (1, Some d1)"
    "constraints_hold d1" "link_rows (jobs_tbl d1) a = [r1]" "vals r1 = job_params pj"
    "serials_ahead d1" "jobs_seq d1 = Suc (jobs_seq d)"
    "contacts_seq d1 = contacts_seq d + length (pj_emails pj)"
    by blast
  from assms(10,11) 1(6,7) have room2: "int (jobs_seq d1) < serial_max"
    "int (contacts_seq d1) + int (length (pj_emails pj')) \<le> serial_max"
    by simp_all
  from single_call [OF 1(2) assms(6-8,2) 1(5) room2, of t2]
  obtain d2 r2 where 2: "insertJobsIntoDatabase srv (Some d1) [pj'] t2 = (1, Some d2)"
    "constraints_hold d2" "link_rows (jobs_tbl d2) a = [r2]" "vals r2 = job_params pj'"
    "last_updated r2 = t2"
    "\<forall>r0. link_rows (jobs_tbl d1) a = [r0] \<longrightarrow>
              row_id r2 = row_id r0 \<and> date_added r2 = date_added r0 \<and>
              length (jobs_tbl d2) = length (jobs_tbl d1)"
    "\<forall>em \<in> set (pj_emails pj').
              length (pair_rows (contacts_tbl d2) (row_id r2) (stored 255 (email em))) = 1"
    by blast
  from 1 2 show ?thesis
    by (intro exI [of _ d1] exI [of _ d2] exI [of _ r1] exI [of _ r2]) simp
qed

section \<open>Persistence: \<^verbatim>\<open>main.js\<close>\<close>

text \<open>The batch with the long title through the function of \<^verbatim>\<open>main.js\<close>.\<close>

lemma main_failed_insert_rolls_back_batch:
  "main_insertJobsIntoDatabase sample_server sample_numToString sample_clock (Some empty_mdb)
     [luna_pj, long_title_pj] =
   (1, Some \<lparr> m_jobs_tbl = [], m_contacts_tbl = [], m_jobs_seq = 1, m_contacts_seq = 1 \<rparr>)"
  by code_simp

text \<open>
  Claim C1 says that persisting leaves one row for an \<^verbatim>\<open>apply_link\<close>. The function that
  the actor runs is the one of \<^verbatim>\<open>main.js\<close>, whose conflict key is the title and the
  company: the sample job and the same posting under another title, persisted one after
  the other, the second one twice, leave two rows with the same link.
\<close>

theorem main_two_rows_for_one_apply_link:
  "pj_apply_link retitled_pj = pj_apply_link luna_pj \<and>
   (case main_insertJobsIntoDatabase sample_server sample_numToString sample_clock
           (Some empty_mdb) [luna_pj] of
      (n1, p1) \<Rightarrow>
        (case main_insertJobsIntoDatabase sample_server sample_numToString sample_clock p1
                [retitled_pj] of
           (n2, p2) \<Rightarrow>
             (case main_insertJobsIntoDatabase sample_server sample_numToString sample_clock p2
                     [retitled_pj] of
                (n3, p3) \<Rightarrow>
                  (n1, n2, n3, map_option (map (\<lambda>r. (m_title r, m_url r)) \<circ> m_jobs_tbl) p3)))) =
     (1, 1, 1, Some [(''Executive Chef'', Some ''https://jobs.example.com/2''),
                     (''Head Chef'', Some ''https://jobs.example.com/2'')])"
  by code_simp

text \<open>The same three calls through \<^verbatim>\<open>database.js\<close> leave one row, updated in place.\<close>

lemma database_js_one_row_for_one_apply_link:
  "(case insertJobsIntoDatabase sample_server (Some empty_db) [luna_pj] ''t1'' of
      (n1, p1) \<Rightarrow>
        (case insertJobsIntoDatabase sample_server p1 [retitled_pj] ''t2'' of
           (n2, p2) \<Rightarrow>
             (case insertJobsIntoDatabase sample_server p2 [retitled_pj] ''t3'' of
                (n3, p3) \<Rightarrow>
                  (n1, n2, n3,
                   map_option (map (\<lambda>r. (v_title (vals r), v_apply_link (vals r),
                                          date_added r, last_updated r)) \<circ> jobs_tbl) p3)))) =
     (1, 1, 1, Some [(''Head Chef'', Some ''https://jobs.example.com/2'', ''t1'', ''t3'')])"
  by code_simp

end
